(* ===== verification/S2G_Prelude.thy ===== *)
theory S2G_Prelude
  imports Main "HOL-Library.AList"
begin

text \<open>
  Shared material of the development: the hint collections, the sums over association lists by
  which the budget of the job store is stated, generic reachability with the invariant rule as a
  locale, and small facts on lists and options the component theories use.

  A Go \<open>map\<close> that the program iterates over or sums up is an association list with distinct keys,
  handled with the operations of \<open>HOL-Library.AList\<close>; Go's iteration order is unspecified, and the
  theorems hold for every order because they quantify over every such list.
\<close>

section \<open>Names for Go's basic types\<close>

type_synonym path = string
type_synonym time = int        \<comment> \<open>nanoseconds\<close>
type_synonym duration = int    \<comment> \<open>nanoseconds\<close>

named_theorems go_defs \<open>definitions of plain Go helpers that proofs unfold\<close>

abbreviation is_Inl :: "'a + 'b \<Rightarrow> bool" where
  "is_Inl r \<equiv> (case r of Inl _ \<Rightarrow> True | Inr _ \<Rightarrow> False)"

section \<open>Sums over association lists\<close>

definition asum :: "('v \<Rightarrow> int) \<Rightarrow> ('k \<times> 'v) list \<Rightarrow> int" where
  "asum f al = sum_list (map (\<lambda>p. f (snd p)) al)"

lemma asum_Nil [simp]: "asum f [] = 0"
  by (simp add: asum_def)

lemma asum_Cons [simp]: "asum f ((k, v) # al) = f v + asum f al"
  by (simp add: asum_def)

lemma asum_nonneg: "(\<And>k v. (k, v) \<in> set al \<Longrightarrow> 0 \<le> f v) \<Longrightarrow> 0 \<le> asum f al"
  by (auto simp: asum_def intro!: sum_list_nonneg)

lemma asum_mono: "(\<And>k v. (k, v) \<in> set al \<Longrightarrow> f v \<le> g v) \<Longrightarrow> asum f al \<le> asum g al"
  unfolding asum_def by (rule sum_list_mono) auto

lemma asum_cong: "(\<And>k v. (k, v) \<in> set al \<Longrightarrow> f v = g v) \<Longrightarrow> asum f al = asum g al"
  unfolding asum_def by (rule arg_cong [of _ _ sum_list]) auto

lemma asum_update_fresh:
  "k \<notin> fst ` set al \<Longrightarrow> asum f (AList.update k v al) = asum f al + f v"
  by (induction al) auto

lemma asum_delete_absent: "k \<notin> fst ` set al \<Longrightarrow> asum f (AList.delete k al) = asum f al"
  by (induction al) auto

lemma asum_delete:
  "distinct (map fst al) \<Longrightarrow> map_of al k = Some v \<Longrightarrow>
   asum f (AList.delete k al) = asum f al - f v"
proof (induction al)
  case (Cons p al)
  obtain k' v' where p: "p = (k', v')" by (cases p)
  show ?case
  proof (cases "k' = k")
    case True
    with Cons.prems p show ?thesis by (simp add: asum_delete_absent)
  next
    case False
    with Cons p show ?thesis by simp
  qed
qed simp

lemma asum_map_entry_absent: "k \<notin> fst ` set al \<Longrightarrow> AList.map_entry k g al = al"
  by (induction al) auto

lemma asum_map_entry:
  "map_of al k = Some v \<Longrightarrow> asum f (AList.map_entry k g al) = asum f al - f v + f (g v)"
  by (induction al) (auto split: if_splits)

lemma asum_map_entry_same:
  "(\<And>v. f (g v) = f v) \<Longrightarrow> asum f (AList.map_entry k g al) = asum f al"
  by (induction al) auto

lemma asum_add: "asum (\<lambda>v. f v + g v) al = asum f al + asum g al"
  by (induction al) auto

lemma asum_filter_split:
  "asum f al = asum f (filter (\<lambda>p. P (snd p)) al) + asum f (filter (\<lambda>p. \<not> P (snd p)) al)"
  by (induction al) auto

lemma asum_filter_if:
  "asum f (filter (\<lambda>p. P (snd p)) al) = asum (\<lambda>v. if P v then f v else 0) al"
  by (induction al) auto

section \<open>Association lists: keys, lookups, membership\<close>

lemma keys_update_fresh:
  "k \<notin> fst ` set al \<Longrightarrow> map fst (AList.update k v al) = map fst al @ [k]"
  by (induction al) auto

lemma set_update_fresh:
  "k \<notin> fst ` set al \<Longrightarrow> set (AList.update k v al) = insert (k, v) (set al)"
  by (induction al) auto

lemma keys_map_entry [simp]: "map fst (AList.map_entry k g al) = map fst al"
  by (induction al) auto

lemma fst_set_map_entry [simp]: "fst ` set (AList.map_entry k g al) = fst ` set al"
  by (simp add: AList.dom_map_entry)

lemma map_of_map_entry':
  "map_of (AList.map_entry k g al) k' = (if k' = k then map_option g (map_of al k) else map_of al k')"
  by (induction al) auto

lemma in_set_map_entry:
  "distinct (map fst al) \<Longrightarrow> (k', v') \<in> set (AList.map_entry k g al) \<longleftrightarrow>
   (if k' = k then (\<exists>v. (k, v) \<in> set al \<and> v' = g v) else (k', v') \<in> set al)"
  by (induction al) (auto simp: image_iff)

lemma in_set_delete: "(k', v) \<in> set (AList.delete k al) \<longleftrightarrow> (k', v) \<in> set al \<and> k' \<noteq> k"
  by (auto simp: AList.delete_eq)

lemma map_of_delete': "map_of (AList.delete k al) k' = (if k' = k then None else map_of al k')"
  by (simp add: AList.delete_conv')

lemma map_of_update': "map_of (AList.update k v al) k' = (if k' = k then Some v else map_of al k')"
  by (simp add: AList.update_conv')

lemma map_of_None_iff_fst: "map_of al k = None \<longleftrightarrow> k \<notin> fst ` set al"
  by (simp add: map_of_eq_None_iff)

lemma map_of_Some_in: "map_of al k = Some v \<Longrightarrow> (k, v) \<in> set al"
  by (rule map_of_SomeD)

lemma map_of_Some_iff: "distinct (map fst al) \<Longrightarrow> map_of al k = Some v \<longleftrightarrow> (k, v) \<in> set al"
  by (auto dest: map_of_SomeD)

lemma map_of_filter_val:
  "distinct (map fst al) \<Longrightarrow>
   map_of (filter (\<lambda>p. P (snd p)) al) k =
     (case map_of al k of None \<Rightarrow> None | Some v \<Rightarrow> if P v then Some v else None)"
  by (induction al) (auto simp: map_of_None_iff_fst image_iff split: option.splits)

lemma distinct_filter_keys: "distinct (map fst al) \<Longrightarrow> distinct (map fst (filter P al))"
  by (simp add: distinct_map_filter)

lemmas alist_simps =
  asum_update_fresh keys_update_fresh map_of_map_entry' map_of_delete' map_of_update'

section \<open>Pieces of a list\<close>

text \<open>A list cut into pieces of a given size, the last one possibly shorter.\<close>

function chunks :: "nat \<Rightarrow> 'a list \<Rightarrow> 'a list list" where
  "chunks n xs = (if xs = [] \<or> n = 0 then [] else take n xs # chunks n (drop n xs))"
  by pat_completeness auto
termination
  by (relation "measure (\<lambda>(n, xs). length xs)") auto

declare chunks.simps [simp del]

lemma chunks_Nil [simp]: "chunks n [] = []"
  by (simp add: chunks.simps)

lemma chunks_step: "xs \<noteq> [] \<Longrightarrow> 0 < n \<Longrightarrow> chunks n xs = take n xs # chunks n (drop n xs)"
  by (subst chunks.simps) simp

lemma concat_chunks: "0 < n \<Longrightarrow> concat (chunks n xs) = xs"
proof (induction n xs rule: chunks.induct)
  case (1 n xs)
  then show ?case by (cases "xs = []") (simp_all add: chunks_step)
qed

lemma chunks_bounds: "0 < n \<Longrightarrow> list_all (\<lambda>c. c \<noteq> [] \<and> length c \<le> n) (chunks n xs)"
proof (induction n xs rule: chunks.induct)
  case (1 n xs)
  then show ?case by (cases "xs = []") (simp_all add: chunks_step)
qed

section \<open>Histories\<close>

text \<open>The history \<open>t\<close> of a state only grew, and by entries of one kind.\<close>

definition grown :: "('s \<Rightarrow> 'r list) \<Rightarrow> ('r \<Rightarrow> bool) \<Rightarrow> 's \<Rightarrow> 's \<Rightarrow> bool" where
  "grown t ok s s' \<longleftrightarrow> (\<exists>l. t s' = t s @ l \<and> list_all ok l)"

lemma grown_refl [simp, intro]: "grown t ok s s"
  by (simp add: grown_def)

lemma grown_trans [trans]: "grown t ok s s' \<Longrightarrow> grown t ok s' s'' \<Longrightarrow> grown t ok s s''"
  unfolding grown_def by (metis append.assoc list_all_append)

lemma grown_mono: "grown t ok s s' \<Longrightarrow> (\<And>r. ok r \<Longrightarrow> ok' r) \<Longrightarrow> grown t ok' s s'"
  unfolding grown_def by (metis list.pred_mono_strong)

section \<open>Transition systems\<close>

text \<open>
  A component whose operations several goroutines call in any order is a step relation; the states
  it can get into are those reachable from an initial one. \<open>invariant_system\<close> is the contract every
  stateful component of the model meets: its invariant holds at the start and every step keeps it.
\<close>

inductive reachable_by :: "('s \<Rightarrow> bool) \<Rightarrow> ('s \<Rightarrow> 's \<Rightarrow> bool) \<Rightarrow> 's \<Rightarrow> bool"
  for init :: "'s \<Rightarrow> bool" and step :: "'s \<Rightarrow> 's \<Rightarrow> bool" where
  reach_init: "init s \<Longrightarrow> reachable_by init step s"
| reach_step: "reachable_by init step s \<Longrightarrow> step s t \<Longrightarrow> reachable_by init step t"

locale invariant_system =
  fixes init :: "'s \<Rightarrow> bool"
    and step :: "'s \<Rightarrow> 's \<Rightarrow> bool"
    and inv :: "'s \<Rightarrow> bool"
  assumes inv_init: "init s \<Longrightarrow> inv s"
    and inv_step: "step s t \<Longrightarrow> inv s \<Longrightarrow> inv t"
begin

lemma reachable_inv: "reachable_by init step s \<Longrightarrow> inv s"
  by (induction rule: reachable_by.induct) (auto intro: inv_init inv_step)

lemma reachable_imp: "reachable_by init step s \<Longrightarrow> (inv s \<Longrightarrow> P) \<Longrightarrow> P"
  using reachable_inv by blast

end

end
