(* ===== verification/Go_Strings.thy ===== *)
theory Go_Strings
  imports S2G_Prelude "HOL-Library.Sublist"
begin

text \<open>
  Go strings and the functions of \<open>strings\<close>, \<open>unicode\<close> and \<open>unicode/utf8\<close> the program uses. A Go
  string is a sequence of bytes, which is what a HOL \<open>string\<close> is (\<open>char\<close> has 256 values), so
  \<open>length\<close> is Go's \<open>len\<close>; ranging over a string decodes UTF-8, with U+FFFD of width one for a byte
  that starts no valid encoding. White space and control characters are the whole of Unicode's;
  lower-casing above ASCII is a table of the Unicode standard, which the functions take as the
  argument \<open>low\<close>, and printability above Latin-1 is the argument \<open>pr\<close>.
\<close>

section \<open>UTF-8\<close>

type_synonym rune = nat

abbreviation byte :: "char \<Rightarrow> nat" where
  "byte c \<equiv> of_char c"

definition rune_error :: rune where
  "rune_error = 65533"

definition cont :: "char \<Rightarrow> bool" where
  "cont c = (128 \<le> byte c \<and> byte c < 192)"

text \<open>The range of the second byte, which excludes overlong forms, surrogates and values above U+10FFFF.\<close>

definition second_ok :: "nat \<Rightarrow> char \<Rightarrow> bool" where
  "second_ok b c =
     ((if b = 224 then 160 else if b = 240 then 144 else 128) \<le> byte c \<and>
      byte c \<le> (if b = 237 then 159 else if b = 244 then 143 else 191))"

fun decode_rune :: "string \<Rightarrow> rune \<times> nat" where
  "decode_rune [] = (rune_error, 0)"
| "decode_rune (c # cs) = (let b = byte c in
     if b < 128 then (b, 1)
     else if 194 \<le> b \<and> b < 224 then
       (case cs of
          c1 # _ \<Rightarrow> if cont c1 then ((b - 192) * 64 + (byte c1 - 128), 2) else (rune_error, 1)
        | _ \<Rightarrow> (rune_error, 1))
     else if 224 \<le> b \<and> b < 240 then
       (case cs of
          c1 # c2 # _ \<Rightarrow>
            if second_ok b c1 \<and> cont c2
            then ((b - 224) * 4096 + (byte c1 - 128) * 64 + (byte c2 - 128), 3)
            else (rune_error, 1)
        | _ \<Rightarrow> (rune_error, 1))
     else if 240 \<le> b \<and> b < 245 then
       (case cs of
          c1 # c2 # c3 # _ \<Rightarrow>
            if second_ok b c1 \<and> cont c2 \<and> cont c3
            then ((b - 240) * 262144 + (byte c1 - 128) * 4096 + (byte c2 - 128) * 64 + (byte c3 - 128), 4)
            else (rune_error, 1)
        | _ \<Rightarrow> (rune_error, 1))
     else (rune_error, 1))"

definition valid_rune :: "rune \<Rightarrow> bool" where
  "valid_rune r = (r < 55296 \<or> 57344 \<le> r \<and> r < 1114112)"

definition encode_rune :: "rune \<Rightarrow> string" where
  "encode_rune r0 = (let r = (if valid_rune r0 then r0 else rune_error) in
     if r < 128 then [char_of r]
     else if r < 2048 then [char_of (192 + r div 64), char_of (128 + r mod 64)]
     else if r < 65536 then
       [char_of (224 + r div 4096), char_of (128 + r div 64 mod 64), char_of (128 + r mod 64)]
     else
       [char_of (240 + r div 262144), char_of (128 + r div 4096 mod 64),
        char_of (128 + r div 64 mod 64), char_of (128 + r mod 64)])"

definition utf8 :: "rune list \<Rightarrow> string" where
  "utf8 rs = concat (map encode_rune rs)"

lemma decode_rune_width:
  "s \<noteq> [] \<Longrightarrow> decode_rune s = (r, w) \<Longrightarrow> 1 \<le> w \<and> w \<le> length s"
  by (cases s) (auto simp: Let_def split: if_splits list.splits)

lemma decode_rune_width_le [simp]: "decode_rune (c # cs) = (r, w) \<Longrightarrow> w - Suc 0 \<le> length cs"
  using decode_rune_width [of "c # cs"] by fastforce

lemma decode_rune_ascii [simp]: "byte c < 128 \<Longrightarrow> decode_rune (c # cs) = (byte c, 1)"
  by (simp add: Let_def)

lemma decode_rune_tail_ge:
  assumes "decode_rune s = (r, w)" "2 \<le> w"
  shows "\<forall>c \<in> set (take w s). 128 \<le> byte c"
  using assms
  by (cases s) (auto simp: Let_def cont_def second_ok_def split: if_splits list.splits)

lemma second_okD: "second_ok b c \<Longrightarrow> 128 \<le> byte c \<and> byte c < 192"
  by (auto simp: second_ok_def split: if_splits)

lemma byte_less_256: "byte c < 256"
  using of_char_mod_256 [of c] by (metis mod_less_divisor zero_less_numeral)

lemma second_ok_ranges:
  "second_ok 224 c = (160 \<le> byte c \<and> byte c \<le> 191)"
  "second_ok 237 c = (128 \<le> byte c \<and> byte c \<le> 159)"
  "second_ok 240 c = (144 \<le> byte c \<and> byte c \<le> 191)"
  "second_ok 244 c = (128 \<le> byte c \<and> byte c \<le> 143)"
  "b \<notin> {224, 237, 240, 244} \<Longrightarrow> second_ok b c = (128 \<le> byte c \<and> byte c \<le> 191)"
  by (auto simp: second_ok_def)

lemma valid_rune_error [simp]: "valid_rune rune_error"
  by (simp add: valid_rune_def rune_error_def)

lemma decode_rune3_valid:
  assumes "224 \<le> b" "b < 240" "second_ok b c1" "cont c2"
  shows "valid_rune ((b - 224) * 4096 + (byte c1 - 128) * 64 + (byte c2 - 128))"
proof -
  from assms(4) have c2: "128 \<le> byte c2" "byte c2 < 192" by (auto simp: cont_def)
  consider "b = 237" | "b < 237" | "237 < b" by linarith
  then show ?thesis
  proof cases
    case 1
    with assms(3) have "128 \<le> byte c1" "byte c1 \<le> 159" by (auto simp: second_ok_ranges)
    with 1 c2 show ?thesis by (auto simp: valid_rune_def)
  next
    case 2
    from second_okD [OF assms(3)] have "128 \<le> byte c1" "byte c1 < 192" by auto
    with 2 assms(1) c2 show ?thesis by (auto simp: valid_rune_def)
  next
    case 3
    from second_okD [OF assms(3)] have "128 \<le> byte c1" "byte c1 < 192" by auto
    with 3 assms(2) c2 show ?thesis by (auto simp: valid_rune_def)
  qed
qed

lemma decode_rune4_valid:
  assumes "240 \<le> b" "b < 245" "second_ok b c1" "cont c2" "cont c3"
  shows "valid_rune ((b - 240) * 262144 + (byte c1 - 128) * 4096 + (byte c2 - 128) * 64 + (byte c3 - 128))"
proof -
  from assms(4,5) have c: "128 \<le> byte c2" "byte c2 < 192" "128 \<le> byte c3" "byte c3 < 192"
    by (auto simp: cont_def)
  consider "b = 240" | "b = 244" | "241 \<le> b" "b < 244" using assms(1,2) by linarith
  then show ?thesis
  proof cases
    case 1
    with assms(3) have "144 \<le> byte c1" "byte c1 \<le> 191" by (auto simp: second_ok_ranges)
    with 1 c show ?thesis by (auto simp: valid_rune_def)
  next
    case 2
    with assms(3) have "128 \<le> byte c1" "byte c1 \<le> 143" by (auto simp: second_ok_ranges)
    with 2 c show ?thesis by (auto simp: valid_rune_def)
  next
    case 3
    from second_okD [OF assms(3)] have "128 \<le> byte c1" "byte c1 < 192" by auto
    with 3 c show ?thesis by (auto simp: valid_rune_def)
  qed
qed

lemma decode_rune2_valid:
  assumes "194 \<le> b" "b < 224" "cont c1"
  shows "valid_rune ((b - 192) * 64 + (byte c1 - 128))"
  using assms by (auto simp: valid_rune_def cont_def)

lemma ascii_valid_rune: "r < 128 \<Longrightarrow> valid_rune r"
  by (simp add: valid_rune_def)

lemma decode_rune_valid: "valid_rune (fst (decode_rune s))"
  by (cases s)
     (simp_all add: Let_def ascii_valid_rune decode_rune2_valid decode_rune3_valid decode_rune4_valid
        split: list.split)

text \<open>Decoding what was encoded gives the rune back and consumes exactly its encoding.\<close>

lemma byte_char_of [simp]: "byte (char_of n) = n mod 256"
  by simp

lemma decode_2:
  assumes "2 \<le> a" "a < 32" "b < 64"
  shows "decode_rune (char_of (192 + a) # char_of (128 + b) # rest) = (a * 64 + b, 2)"
  using assms by (simp add: Let_def cont_def)

lemma decode_3:
  assumes "a < 16" "b < 64" "c < 64" "a = 0 \<Longrightarrow> 32 \<le> b" "a = 13 \<Longrightarrow> b < 32"
  shows "decode_rune (char_of (224 + a) # char_of (128 + b) # char_of (128 + c) # rest) =
         (a * 4096 + b * 64 + c, 3)"
proof -
  have so: "second_ok (224 + a) (char_of (128 + b))"
    using assms by (auto simp: second_ok_def)
  show ?thesis using assms(1-3) so by (simp add: Let_def cont_def)
qed

lemma decode_4:
  assumes "a < 5" "b < 64" "c < 64" "d < 64" "a = 0 \<Longrightarrow> 16 \<le> b" "a = 4 \<Longrightarrow> b < 16"
  shows "decode_rune (char_of (240 + a) # char_of (128 + b) # char_of (128 + c) # char_of (128 + d) # rest) =
         (a * 262144 + b * 4096 + c * 64 + d, 4)"
proof -
  have so: "second_ok (240 + a) (char_of (128 + b))"
    using assms by (auto simp: second_ok_def)
  show ?thesis using assms(1-4) so by (simp add: Let_def cont_def)
qed

lemma split_64: "(n::nat) div 64 * 64 + n mod 64 = n"
  by (rule div_mult_mod_eq)

lemma split_4096: "(n::nat) div 4096 * 4096 + n div 64 mod 64 * 64 + n mod 64 = n"
proof -
  have "n div 4096 = n div 64 div 64" by (simp add: div_mult2_eq [symmetric])
  then show ?thesis using split_64 [of n] split_64 [of "n div 64"] by linarith
qed

lemma split_262144:
  "(n::nat) div 262144 * 262144 + n div 4096 mod 64 * 4096 + n div 64 mod 64 * 64 + n mod 64 = n"
proof -
  have "n div 262144 = n div 4096 div 64" by (simp add: div_mult2_eq [symmetric])
  then show ?thesis using split_4096 [of n] split_64 [of "n div 4096"] by linarith
qed

lemma decode_encode:
  assumes "valid_rune r"
  shows "decode_rune (encode_rune r @ rest) = (r, length (encode_rune r))"
proof -
  consider "r < 128" | "128 \<le> r" "r < 2048" | "2048 \<le> r" "r < 65536" | "65536 \<le> r" by linarith
  then show ?thesis
  proof cases
    case 1
    with assms show ?thesis by (simp add: encode_rune_def)
  next
    case 2
    have e: "encode_rune r = [char_of (192 + r div 64), char_of (128 + r mod 64)]"
      using 2 assms by (simp add: encode_rune_def)
    have "2 \<le> r div 64" "r div 64 < 32" using 2 by auto
    from decode_2 [OF this, of "r mod 64" rest] show ?thesis by (simp add: e split_64)
  next
    case 3
    have e: "encode_rune r =
        [char_of (224 + r div 4096), char_of (128 + r div 64 mod 64), char_of (128 + r mod 64)]"
      using 3 assms by (simp add: encode_rune_def)
    have a: "r div 4096 < 16" using 3 by auto
    have s0: "r div 4096 = 0 \<Longrightarrow> 32 \<le> r div 64 mod 64"
      using 3 split_4096 [of r] by linarith
    have s1: "r div 4096 = 13 \<Longrightarrow> r div 64 mod 64 < 32"
      using assms split_4096 [of r] unfolding valid_rune_def by linarith
    from decode_3 [OF a _ _ s0 s1, of "r mod 64" rest] show ?thesis
      by (simp add: e split_4096)
  next
    case 4
    have up: "r < 1114112" using 4 assms by (simp add: valid_rune_def)
    have e: "encode_rune r =
        [char_of (240 + r div 262144), char_of (128 + r div 4096 mod 64),
         char_of (128 + r div 64 mod 64), char_of (128 + r mod 64)]"
      using 4 assms by (simp add: encode_rune_def)
    have a: "r div 262144 < 5" using up by auto
    have s0: "r div 262144 = 0 \<Longrightarrow> 16 \<le> r div 4096 mod 64"
      using 4 split_262144 [of r] by linarith
    have s1: "r div 262144 = 4 \<Longrightarrow> r div 4096 mod 64 < 16"
      using up split_262144 [of r] by linarith
    from decode_4 [OF a _ _ _ s0 s1, of "r div 64 mod 64" "r mod 64" rest] show ?thesis
      by (simp add: e split_262144)
  qed
qed

section \<open>Ranging over a string\<close>

fun runes :: "string \<Rightarrow> rune list" where
  "runes [] = []"
| "runes (c # cs) = (case decode_rune (c # cs) of (r, w) \<Rightarrow> r # runes (drop (w - 1) cs))"

lemma encode_rune_nonempty [simp]: "encode_rune r \<noteq> []"
  by (simp add: encode_rune_def Let_def)

lemma runes_encode_append:
  assumes "valid_rune r"
  shows "runes (encode_rune r @ rest) = r # runes rest"
proof -
  obtain c cs where e: "encode_rune r = c # cs" by (cases "encode_rune r") auto
  from decode_encode [OF assms, of rest] show ?thesis by (simp add: e)
qed

lemma runes_utf8: "\<forall>r \<in> set rs. valid_rune r \<Longrightarrow> runes (utf8 rs) = rs"
  by (induction rs) (auto simp: utf8_def runes_encode_append)

lemma runes_valid: "r \<in> set (runes s) \<Longrightarrow> valid_rune r"
proof (induction s rule: runes.induct)
  case (2 c cs)
  obtain d w where d: "decode_rune (c # cs) = (d, w)" by (cases "decode_rune (c # cs)")
  with decode_rune_valid [of "c # cs"] have "valid_rune d" by simp
  with 2 d show ?case by (auto simp del: decode_rune.simps)
qed simp

lemma runes_ascii: "byte c < 128 \<Longrightarrow> runes (c # cs) = byte c # runes cs"
  by simp

text \<open>ASCII bytes of a string are exactly its ASCII runes, in number too.\<close>

lemma decode_rune_ascii_iff:
  assumes "decode_rune (c # cs) = (r, w)"
  shows "(r < 128 \<longleftrightarrow> byte c < 128) \<and> (byte c < 128 \<longrightarrow> r = byte c \<and> w = 1)"
  using assms
  by (auto simp: Let_def rune_error_def cont_def second_ok_def split: if_splits list.splits)

lemma byte_inj [simp]: "(byte c = byte d) = (c = d)"
  by (metis char_of_char)

lemma count_runes_ascii:
  "byte c < 128 \<Longrightarrow> count_list (runes s) (byte c) = count_list s c"
proof (induction s rule: runes.induct)
  case (2 d ds)
  obtain r w where d: "decode_rune (d # ds) = (r, w)" by (cases "decode_rune (d # ds)")
  have IH: "count_list (runes (drop (w - 1) ds)) (byte c) = count_list (drop (w - 1) ds) c"
    using "2.IH" [OF d [symmetric]] "2.prems" by simp
  show ?case
  proof (cases "byte d < 128")
    case True
    with d IH show ?thesis by auto
  next
    case False
    have "r \<noteq> byte c" "d \<noteq> c" using decode_rune_ascii_iff [OF d] False 2 by auto
    moreover have "count_list (take (w - 1) ds) c = 0"
    proof (cases "2 \<le> w")
      case True
      from decode_rune_tail_ge [OF d True] True have "c \<notin> set (take (w - 1) ds)"
        using "2.prems" by (cases w) auto
      then show ?thesis by (simp add: count_list_0_iff)
    next
      case False
      then have "w - 1 = 0" by simp
      then show ?thesis by simp
    qed
    moreover have "count_list ds c = count_list (take (w - 1) ds) c + count_list (drop (w - 1) ds) c"
      by (metis append_take_drop_id count_list_append)
    ultimately show ?thesis using d IH by simp
  qed
qed simp

lemma set_runes_ascii: "byte c < 128 \<Longrightarrow> byte c \<in> set (runes s) \<longleftrightarrow> c \<in> set s"
  using count_runes_ascii [of c s] by (metis count_list_0_iff)

section \<open>White space and control characters\<close>

definition is_space :: "rune \<Rightarrow> bool" where
  "is_space r = (9 \<le> r \<and> r \<le> 13 \<or> 8192 \<le> r \<and> r \<le> 8202 \<or>
     r \<in> {32, 133, 160, 5760, 8232, 8233, 8239, 8287, 12288})"

definition is_control :: "rune \<Rightarrow> bool" where
  "is_control r = (r < 32 \<or> 127 \<le> r \<and> r < 160)"

text \<open>\<open>unicode.IsPrint\<close>: exact on Latin-1, the table \<open>pr\<close> above it.\<close>

definition is_print :: "(rune \<Rightarrow> bool) \<Rightarrow> rune \<Rightarrow> bool" where
  "is_print pr r =
     (if r < 256 then 32 \<le> r \<and> r \<le> 126 \<or> 161 \<le> r \<and> r \<noteq> 173 else pr r)"

lemma rune_error_not_space [simp]: "\<not> is_space rune_error"
  by (simp add: is_space_def rune_error_def)

section \<open>strings.TrimSpace and its relatives\<close>

fun trim_left_space :: "string \<Rightarrow> string" where
  "trim_left_space [] = []"
| "trim_left_space (c # cs) = (case decode_rune (c # cs) of (r, w) \<Rightarrow>
     if is_space r then trim_left_space (drop (w - 1) cs) else c # cs)"

text \<open>
  The width of the white space rune a string ends in, 0 if it ends in none: the last rune is the one
  whose encoding reaches exactly the end, and no white space takes more than three bytes.
\<close>

definition ends_in_space :: "string \<Rightarrow> nat \<Rightarrow> bool" where
  "ends_in_space s k = (k \<le> length s \<and>
     (case decode_rune (drop (length s - k) s) of (r, w) \<Rightarrow> w = k \<and> is_space r))"

definition trailing_space :: "string \<Rightarrow> nat" where
  "trailing_space s = (case filter (ends_in_space s) [1, 2, 3] of [] \<Rightarrow> 0 | k # _ \<Rightarrow> k)"

lemma trailing_space_le: "trailing_space s \<le> length s"
  by (auto simp: trailing_space_def ends_in_space_def split: list.splits dest!: Cons_eq_filterD)

lemma trailing_space_shrinks:
  "0 < trailing_space s \<Longrightarrow> length s - trailing_space s < length s"
  using trailing_space_le [of s] by simp

function trim_right_space :: "string \<Rightarrow> string" where
  "trim_right_space s =
     (let k = trailing_space s in
      if k = 0 then s else trim_right_space (take (length s - k) s))"
  by pat_completeness auto
termination
  by (relation "measure length") (auto simp: trailing_space_shrinks)

declare trim_right_space.simps [simp del]

definition trim_space :: "string \<Rightarrow> string" where
  "trim_space s = trim_right_space (trim_left_space s)"

definition trim_right_set :: "string \<Rightarrow> string \<Rightarrow> string" where
  "trim_right_set cs s = rev (dropWhile (\<lambda>c. c \<in> set cs) (rev s))"

definition trim_left_set :: "string \<Rightarrow> string \<Rightarrow> string" where
  "trim_left_set cs s = dropWhile (\<lambda>c. c \<in> set cs) s"

definition trim_prefix :: "string \<Rightarrow> string \<Rightarrow> string" where
  "trim_prefix p s = (if prefix p s then drop (length p) s else s)"

definition cut_suffix :: "string \<Rightarrow> string \<Rightarrow> string option" where
  "cut_suffix x s = (if suffix x s then Some (take (length s - length x) s) else None)"

definition trim_suffix :: "string \<Rightarrow> string \<Rightarrow> string" where
  "trim_suffix x s = (if suffix x s then take (length s - length x) s else s)"

lemma decode_append_ascii:
  "u \<noteq> [] \<Longrightarrow> byte c < 128 \<Longrightarrow> decode_rune (u @ c # v) = decode_rune u"
  by (cases u) (auto simp: Let_def cont_def second_ok_def neq_Nil_conv split: list.splits)

lemma decode_prefix_cases:
  "fst (decode_rune t) = fst (decode_rune (t @ u)) \<or> fst (decode_rune t) = rune_error"
  by (cases t) (auto simp: Let_def split: list.splits)

lemma decode_prefix_not_space:
  "\<not> is_space (fst (decode_rune (t @ u))) \<Longrightarrow> \<not> is_space (fst (decode_rune t))"
  using decode_prefix_cases [of t u] by auto

lemma trim_right_id: "trailing_space s = 0 \<Longrightarrow> trim_right_space s = s"
  by (simp add: trim_right_space.simps)

lemma trim_right_trimmed: "trailing_space (trim_right_space s) = 0"
proof (induction s rule: trim_right_space.induct)
  case (1 s)
  then show ?case
    by (cases "trailing_space s = 0") (simp_all add: trim_right_space.simps [of s])
qed

lemma trim_right_prefix: "\<exists>u. s = trim_right_space s @ u"
proof (induction s rule: trim_right_space.induct)
  case (1 s)
  show ?case
  proof (cases "trailing_space s = 0")
    case True
    then show ?thesis by (simp add: trim_right_id)
  next
    case False
    let ?t = "take (length s - trailing_space s) s"
    obtain u where "?t = trim_right_space ?t @ u" using 1 False by auto
    then have "s = trim_right_space ?t @ (u @ drop (length s - trailing_space s) s)"
      by (metis append.assoc append_take_drop_id)
    then show ?thesis using False by (auto simp: trim_right_space.simps [of s])
  qed
qed

lemma trim_left_not_space: "\<not> is_space (fst (decode_rune (trim_left_space s)))"
proof (induction s rule: trim_left_space.induct)
  case (2 c cs)
  obtain r w where d: "decode_rune (c # cs) = (r, w)" by (cases "decode_rune (c # cs)")
  show ?case
    using "2.IH" [OF d [symmetric]] d by (cases "is_space r") (simp_all del: decode_rune.simps)
qed simp

lemma trim_left_id: "\<not> is_space (fst (decode_rune s)) \<Longrightarrow> trim_left_space s = s"
proof (cases s)
  case (Cons c cs)
  obtain r w where d: "decode_rune (c # cs) = (r, w)" by (cases "decode_rune (c # cs)")
  moreover assume "\<not> is_space (fst (decode_rune s))"
  ultimately show ?thesis using Cons by (simp del: decode_rune.simps)
qed simp

lemma trim_left_suffix: "\<exists>u. s = u @ trim_left_space s"
proof (induction s rule: trim_left_space.induct)
  case (2 c cs)
  obtain r w where d: "decode_rune (c # cs) = (r, w)" by (cases "decode_rune (c # cs)")
  show ?case
  proof (cases "is_space r")
    case True
    with "2.IH" [OF d [symmetric]] obtain u where u: "drop (w - 1) cs = u @ trim_left_space (drop (w - 1) cs)"
      by auto
    have "c # cs = (c # take (w - 1) cs @ u) @ trim_left_space (drop (w - 1) cs)"
      using u by (metis append.assoc append_Cons append_take_drop_id)
    moreover have "trim_left_space (c # cs) = trim_left_space (drop (w - 1) cs)"
      using True d by (simp del: decode_rune.simps)
    ultimately show ?thesis by metis
  qed (use d in \<open>simp del: decode_rune.simps\<close>)
qed simp

definition trimmed :: "string \<Rightarrow> bool" where
  "trimmed s = (\<not> is_space (fst (decode_rune s)) \<and> trailing_space s = 0)"

lemma trim_space_trimmed: "trimmed (trim_space s)"
proof -
  obtain u where "trim_left_space s = trim_space s @ u"
    using trim_right_prefix [of "trim_left_space s"] by (auto simp: trim_space_def)
  then have "\<not> is_space (fst (decode_rune (trim_space s)))"
    using trim_left_not_space [of s] decode_prefix_not_space by metis
  then show ?thesis
    by (simp add: trimmed_def trim_space_def trim_right_trimmed)
qed

lemma trim_space_id: "trimmed s \<Longrightarrow> trim_space s = s"
  by (simp add: trimmed_def trim_space_def trim_left_id trim_right_id)

lemma trimmed_iff: "trimmed s \<longleftrightarrow> trim_space s = s"
  using trim_space_id trim_space_trimmed by metis

lemma trim_space_idem [simp]: "trim_space (trim_space s) = trim_space s"
  by (rule trim_space_id) (rule trim_space_trimmed)

lemma trimmed_Nil [simp]: "trimmed []"
  by (simp add: trimmed_def trailing_space_def ends_in_space_def)

lemma trim_space_Nil [simp]: "trim_space [] = []"
  by (rule trim_space_id) simp

lemma trim_space_infix: "\<exists>u v. s = u @ trim_space s @ v"
  using trim_left_suffix [of s] trim_right_prefix [of "trim_left_space s"]
  by (metis trim_space_def)

lemma set_trim_space: "set (trim_space s) \<subseteq> set s"
  using trim_space_infix [of s] by (metis Un_upper1 Un_upper2 order_trans set_append)

lemma decode_not_over_ascii:
  assumes "decode_rune (d # ds) = (r, w)" "2 \<le> w" "i < w" "i < length (d # ds)"
  shows "128 \<le> byte ((d # ds) ! i)"
proof -
  have "(d # ds) ! i \<in> set (take w (d # ds))"
    using assms(3,4) by (metis in_set_conv_nth length_take min_less_iff_conj nth_take)
  with decode_rune_tail_ge [OF assms(1,2)] show ?thesis by blast
qed

lemma trailing_space_after_ascii:
  assumes c: "byte c < 128" "\<not> is_space (byte c)"
  shows "trailing_space (u @ c # v) = trailing_space v"
proof -
  have "ends_in_space (u @ c # v) k = ends_in_space v k"
    if k: "1 \<le> k" for k
  proof (cases "k \<le> length v")
    case True
    then have "drop (length (u @ c # v) - k) (u @ c # v) = drop (length v - k) v"
      by (simp add: Suc_diff_le)
    with True show ?thesis by (simp add: ends_in_space_def)
  next
    case False
    show ?thesis
    proof (cases "k \<le> length (u @ c # v)")
      case True
      let ?x = "drop (length (u @ c # v) - k) (u @ c # v)"
      obtain r w where d: "decode_rune ?x = (r, w)" by (cases "decode_rune ?x")
      have lx: "length ?x = k" using True by simp
      let ?i = "k - Suc (length v)"
      have at: "?x ! ?i = c" "?i < k" using True False by (auto simp: nth_append)
      have "\<not> (w = k \<and> is_space r)"
      proof
        assume *: "w = k \<and> is_space r"
        obtain y ys where x: "?x = y # ys" using lx k by (cases ?x) auto
        show False
        proof (cases "2 \<le> k")
          case True
          then show False using decode_not_over_ascii [of y ys r w ?i] d x * at lx c by simp
        next
          case False
          then have "k = 1" using k by simp
          have "length (y # ys) = 1" using lx x \<open>k = 1\<close> by metis
          moreover have "(y # ys) ! ?i = c" using at(1) x by metis
          ultimately have "?x = [c]" using x \<open>k = 1\<close> by simp
          then show False using d * c by simp
        qed
      qed
      with d False True show ?thesis by (simp add: ends_in_space_def)
    qed (use False in \<open>simp add: ends_in_space_def\<close>)
  qed
  then have "filter (ends_in_space (u @ c # v)) [1, 2, 3] = filter (ends_in_space v) [1, 2, 3]"
    by (intro filter_cong) auto
  then show ?thesis by (simp only: trailing_space_def)
qed

section \<open>Searching and splitting\<close>

fun contains :: "string \<Rightarrow> string \<Rightarrow> bool" where
  "contains sub [] = (sub = [])"
| "contains sub (c # cs) = (prefix sub (c # cs) \<or> contains sub cs)"

abbreviation has_char :: "char \<Rightarrow> string \<Rightarrow> bool" where
  "has_char c s \<equiv> c \<in> set s"

definition before :: "char \<Rightarrow> string \<Rightarrow> string" where
  "before c s = takeWhile (\<lambda>d. d \<noteq> c) s"

definition after :: "char \<Rightarrow> string \<Rightarrow> string" where
  "after c s = drop (Suc (length (before c s))) s"

text \<open>\<open>strings.Cut\<close> at a one-byte separator.\<close>

definition cut :: "char \<Rightarrow> string \<Rightarrow> (string \<times> string) option" where
  "cut c s = (if c \<in> set s then Some (before c s, after c s) else None)"

text \<open>What follows the last occurrence of a byte, as \<open>s[strings.LastIndexByte(s, c)+1:]\<close>.\<close>

definition after_last :: "char \<Rightarrow> string \<Rightarrow> string" where
  "after_last c s = rev (takeWhile (\<lambda>d. d \<noteq> c) (rev s))"

fun split_on :: "char \<Rightarrow> string \<Rightarrow> string list" where
  "split_on c [] = [[]]"
| "split_on c (d # ds) =
     (if d = c then [] # split_on c ds
      else (case split_on c ds of p # ps \<Rightarrow> (d # p) # ps | [] \<Rightarrow> [[d]]))"

fun join_with :: "'a list \<Rightarrow> 'a list list \<Rightarrow> 'a list" where
  "join_with sep [] = []"
| "join_with sep [p] = p"
| "join_with sep (p # q # ps) = p @ sep @ join_with sep (q # ps)"

text \<open>\<open>strings.ReplaceAll\<close> for a non-empty old string: leftmost matches, not overlapping.\<close>

function replace_all :: "string \<Rightarrow> string \<Rightarrow> string \<Rightarrow> string" where
  "replace_all old new s =
     (case s of [] \<Rightarrow> []
      | c # cs \<Rightarrow> if old \<noteq> [] \<and> prefix old s then new @ replace_all old new (drop (length old) s)
                 else c # replace_all old new cs)"
  by pat_completeness auto
termination
  by (relation "measure (\<lambda>(old, new, s). length s)") auto

declare replace_all.simps [simp del]

text \<open>\<open>strings.Fields\<close>: the maximal runs of runes that are not white space.\<close>

fun fields_from :: "string \<Rightarrow> string \<Rightarrow> string list" where
  "fields_from acc [] = (if acc = [] then [] else [acc])"
| "fields_from acc (c # cs) = (case decode_rune (c # cs) of (r, w) \<Rightarrow>
     if is_space r
     then (if acc = [] then [] else [acc]) @ fields_from [] (drop (w - 1) cs)
     else fields_from (acc @ take w (c # cs)) (drop (w - 1) cs))"

definition str_fields :: "string \<Rightarrow> string list" where
  "str_fields s = fields_from [] s"

text \<open>\<open>strings.ToValidUTF8(s, "")\<close>: the bytes that start no valid encoding are dropped.\<close>

fun to_valid_utf8 :: "string \<Rightarrow> string" where
  "to_valid_utf8 [] = []"
| "to_valid_utf8 (c # cs) = (case decode_rune (c # cs) of (r, w) \<Rightarrow>
     if r = rune_error \<and> w = 1 then to_valid_utf8 cs
     else take w (c # cs) @ to_valid_utf8 (drop (w - 1) cs))"

lemma split_on_nonempty [simp]: "split_on c s \<noteq> []"
  by (induction s) (auto split: list.splits)

lemma split_on_no_sep: "p \<in> set (split_on c s) \<Longrightarrow> c \<notin> set p"
proof (induction s arbitrary: p)
  case (Cons d ds)
  then show ?case by (auto split: list.splits if_splits)
qed simp

lemma split_on_append:
  "c \<notin> set p \<Longrightarrow> split_on c (p @ c # s) = p # split_on c s"
  by (induction p) auto

lemma split_on_none: "c \<notin> set p \<Longrightarrow> split_on c p = [p]"
  by (induction p) auto

lemma join_split_on: "join_with [c] (split_on c s) = s"
proof (induction s)
  case (Cons d ds)
  then show ?case by (cases "split_on c ds") (auto split: list.splits, (cases "tl (split_on c ds)"; simp)+)
qed simp

lemma before_after: "c \<in> set s \<Longrightarrow> before c s @ c # after c s = s"
proof -
  assume c: "c \<in> set s"
  then have d: "dropWhile (\<lambda>d. d \<noteq> c) s \<noteq> []" by (auto simp: dropWhile_eq_Nil_conv)
  have "hd (dropWhile (\<lambda>d. d \<noteq> c) s) = c" using hd_dropWhile [OF d] by simp
  moreover have "dropWhile (\<lambda>d. d \<noteq> c) s = drop (length (before c s)) s"
    by (simp add: before_def dropWhile_eq_drop)
  moreover have "after c s = tl (dropWhile (\<lambda>d. d \<noteq> c) s)"
    using calculation(2) by (simp add: after_def drop_Suc tl_drop)
  ultimately have "dropWhile (\<lambda>d. d \<noteq> c) s = c # after c s" using d by (metis list.collapse)
  then show ?thesis by (metis before_def takeWhile_dropWhile_id)
qed

lemma not_in_before [simp]: "c \<notin> set (before c s)"
  by (auto simp: before_def dest: set_takeWhileD)

lemma takeWhile_neq: "c \<notin> set p \<Longrightarrow> takeWhile (\<lambda>d. d \<noteq> c) (p @ c # s) = p"
  by (induction p) auto

lemma before_append: "c \<notin> set p \<Longrightarrow> before c (p @ c # s) = p"
  by (simp add: before_def takeWhile_neq)

lemma after_append: "c \<notin> set p \<Longrightarrow> after c (p @ c # s) = s"
  by (simp add: after_def before_append)

lemma cut_append: "c \<notin> set p \<Longrightarrow> cut c (p @ c # s) = Some (p, s)"
  by (simp add: cut_def before_append after_append)

lemma after_last_append: "c \<notin> set s \<Longrightarrow> after_last c (p @ c # s) = s"
  by (simp add: after_last_def takeWhile_neq)

section \<open>Letter case\<close>

definition lower_rune :: "(rune \<Rightarrow> rune) \<Rightarrow> rune \<Rightarrow> rune" where
  "lower_rune low r = (if r < 128 then (if 65 \<le> r \<and> r \<le> 90 then r + 32 else r) else low r)"

definition to_lower :: "(rune \<Rightarrow> rune) \<Rightarrow> string \<Rightarrow> string" where
  "to_lower low s = utf8 (map (lower_rune low) (runes s))"

text \<open>
  What the lower-casing table of the Unicode standard above ASCII satisfies: a scalar value goes to a
  scalar value, to an ASCII letter if it leaves that range at all (the Kelvin sign does), a second
  application changes nothing, and nothing becomes white space or a control character.
\<close>

definition lower_table :: "(rune \<Rightarrow> rune) \<Rightarrow> bool" where
  "lower_table low \<longleftrightarrow> (\<forall>r. 128 \<le> r \<longrightarrow> valid_rune r \<longrightarrow>
     valid_rune (low r) \<and> (low r < 128 \<longrightarrow> 97 \<le> low r \<and> low r \<le> 122) \<and>
     (128 \<le> low r \<longrightarrow> low (low r) = low r) \<and>
     (is_space (low r) \<longrightarrow> is_space r) \<and> (is_control (low r) \<longrightarrow> is_control r))"

lemma lower_table_id: "lower_table (\<lambda>r. r)"
  by (simp add: lower_table_def)

lemma lower_rune_props:
  assumes "lower_table low" "valid_rune r"
  shows "valid_rune (lower_rune low r)"
    and "lower_rune low (lower_rune low r) = lower_rune low r"
    and "is_space (lower_rune low r) \<Longrightarrow> is_space r"
    and "is_control (lower_rune low r) \<Longrightarrow> is_control r"
    and "lower_rune low r = 64 \<longleftrightarrow> r = 64"
    and "lower_rune low r = 46 \<longleftrightarrow> r = 46"
proof -
  from assms have l: "128 \<le> r \<Longrightarrow> valid_rune (low r) \<and> (low r < 128 \<longrightarrow> 97 \<le> low r \<and> low r \<le> 122) \<and>
     (128 \<le> low r \<longrightarrow> low (low r) = low r) \<and>
     (is_space (low r) \<longrightarrow> is_space r) \<and> (is_control (low r) \<longrightarrow> is_control r)"
    by (auto simp: lower_table_def)
  show "valid_rune (lower_rune low r)"
    using assms(2) l by (auto simp: lower_rune_def valid_rune_def)
  show "lower_rune low (lower_rune low r) = lower_rune low r"
    using l by (cases "r < 128") (auto simp: lower_rune_def)
  show "is_space (lower_rune low r) \<Longrightarrow> is_space r"
    using l by (auto simp: lower_rune_def is_space_def split: if_splits)
  show "is_control (lower_rune low r) \<Longrightarrow> is_control r"
    using l by (auto simp: lower_rune_def is_control_def split: if_splits)
  show "lower_rune low r = 64 \<longleftrightarrow> r = 64"
    using l by (cases "r < 128") (auto simp: lower_rune_def)
  show "lower_rune low r = 46 \<longleftrightarrow> r = 46"
    using l by (cases "r < 128") (auto simp: lower_rune_def)
qed

lemma runes_to_lower:
  "lower_table low \<Longrightarrow> runes (to_lower low s) = map (lower_rune low) (runes s)"
  unfolding to_lower_def by (rule runes_utf8) (auto intro: lower_rune_props(1) runes_valid)

lemma to_lower_idem:
  assumes "lower_table low"
  shows "to_lower low (to_lower low s) = to_lower low s"
proof -
  have "map (lower_rune low) (map (lower_rune low) (runes s)) = map (lower_rune low) (runes s)"
    using assms by (auto intro: lower_rune_props(2) runes_valid)
  then show ?thesis
    unfolding to_lower_def [of low "to_lower low s"]
    by (simp only: runes_to_lower [OF assms]) (simp only: to_lower_def)
qed

section \<open>Valid strings as rune lists\<close>

text \<open>On a string that is the encoding of runes, the byte functions act on the runes.\<close>

abbreviation valid_runes :: "rune list \<Rightarrow> bool" where
  "valid_runes rs \<equiv> list_all valid_rune rs"

lemma utf8_simps [simp]: "utf8 [] = []" "utf8 (r # rs) = encode_rune r @ utf8 rs"
  "utf8 (rs @ qs) = utf8 rs @ utf8 qs"
  by (simp_all add: utf8_def)

lemma utf8_Nil_iff [simp]: "utf8 rs = [] \<longleftrightarrow> rs = []"
  by (cases rs) auto

lemma runes_utf8_valid [simp]: "valid_runes rs \<Longrightarrow> runes (utf8 rs) = rs"
  by (rule runes_utf8) (simp add: list_all_iff)

lemma decode_utf8_Cons:
  assumes "valid_rune r"
  obtains c cs where "encode_rune r @ rest = c # cs"
    "decode_rune (c # cs) = (r, length (encode_rune r))"
    "drop (length (encode_rune r) - 1) cs = rest" "take (length (encode_rune r)) (c # cs) = encode_rune r"
proof -
  obtain c cs where e: "encode_rune r @ rest = c # cs" by (cases "encode_rune r @ rest") auto
  have "drop (length (encode_rune r)) (c # cs) = rest" using e by (metis append_eq_conv_conj)
  moreover have "0 < length (encode_rune r)" by simp
  ultimately have "drop (length (encode_rune r) - 1) cs = rest" by (cases "length (encode_rune r)") auto
  moreover have "take (length (encode_rune r)) (c # cs) = encode_rune r" using e by (metis append_eq_conv_conj)
  ultimately show thesis using that e decode_encode [OF assms, of rest] by simp
qed

fun rune_fields_from :: "rune list \<Rightarrow> rune list \<Rightarrow> rune list list" where
  "rune_fields_from acc [] = (if acc = [] then [] else [acc])"
| "rune_fields_from acc (r # rs) =
     (if is_space r then (if acc = [] then [] else [acc]) @ rune_fields_from [] rs
      else rune_fields_from (acc @ [r]) rs)"

lemma fields_from_utf8:
  "valid_runes rs \<Longrightarrow> fields_from (utf8 acc) (utf8 rs) = map utf8 (rune_fields_from acc rs)"
proof (induction rs arbitrary: acc)
  case (Cons r rs)
  then have r: "valid_rune r" and rs: "valid_runes rs" by auto
  obtain c cs where d: "encode_rune r @ utf8 rs = c # cs"
    "decode_rune (c # cs) = (r, length (encode_rune r))"
    "drop (length (encode_rune r) - 1) cs = utf8 rs" "take (length (encode_rune r)) (c # cs) = encode_rune r"
    using decode_utf8_Cons [OF r] by metis
  have "fields_from (utf8 acc @ encode_rune r) (utf8 rs) = map utf8 (rune_fields_from (acc @ [r]) rs)"
    using Cons.IH [OF rs, of "acc @ [r]"] by simp
  with d Cons.IH [OF rs, of "[]"] show ?case by simp
qed simp

lemma str_fields_utf8: "valid_runes rs \<Longrightarrow> str_fields (utf8 rs) = map utf8 (rune_fields_from [] rs)"
  using fields_from_utf8 [of rs "[]"] by (simp add: str_fields_def)

lemma join_with_utf8: "join_with (utf8 sep) (map utf8 fs) = utf8 (join_with sep fs)"
  by (induction sep fs rule: join_with.induct) auto

lemma set_join_with: "set (join_with sep fs) \<subseteq> set sep \<union> \<Union> (set ` set fs)"
  by (induction sep fs rule: join_with.induct) auto

lemma set_rune_fields_from:
  "f \<in> set (rune_fields_from acc rs) \<Longrightarrow> r \<in> set f \<Longrightarrow> r \<in> set acc \<or> (r \<in> set rs \<and> \<not> is_space r)"
  by (induction acc rs arbitrary: f rule: rune_fields_from.induct) (auto split: if_splits)

text \<open>Trimming at rune level: continuation bytes cannot start or end a rune of their own.\<close>

lemma decode_cont: "cont c \<Longrightarrow> decode_rune (c # cs) = (rune_error, 1)"
  by (auto simp: Let_def cont_def)

lemma decode_tail_cont: "decode_rune (c # cs) = (r, w) \<Longrightarrow> d \<in> set (take (w - 1) cs) \<Longrightarrow> cont d"
  by (auto simp: Let_def cont_def second_ok_def take_Cons' split: if_splits list.splits)

lemma encode_rune_bytes: "\<not> cont (hd (encode_rune r)) \<and> list_all cont (tl (encode_rune r))"
proof -
  have m: "(n::nat) mod 64 < 64" for n by simp
  show ?thesis
    using m by (auto simp: encode_rune_def Let_def cont_def valid_rune_def rune_error_def trans_less_add1)
qed

lemma encode_space_length: "is_space r \<Longrightarrow> length (encode_rune r) \<le> 3"
  by (auto simp: encode_rune_def Let_def is_space_def valid_rune_def)

lemma ends_in_space_encode:
  assumes r: "valid_rune r" and k: "1 \<le> k"
  shows "ends_in_space (u @ encode_rune r) k \<longleftrightarrow> k = length (encode_rune r) \<and> is_space r"
proof -
  let ?e = "encode_rune r"
  let ?x = "drop (length (u @ ?e) - k) (u @ ?e)"
  obtain e0 es where e: "?e = e0 # es" "\<not> cont e0" "list_all cont es"
    using encode_rune_bytes [of r] by (cases ?e) auto
  consider "length (u @ ?e) < k" | "k = length ?e" | "k < length ?e"
    | "length ?e < k" "k \<le> length (u @ ?e)" by linarith
  then show ?thesis
  proof cases
    case 1
    then show ?thesis by (auto simp: ends_in_space_def)
  next
    case 2
    then have "decode_rune ?x = (r, k)" using decode_encode [OF r, of "[]"] by simp
    then show ?thesis using 2 by (auto simp: ends_in_space_def)
  next
    case 3
    then obtain y ys where x: "?x = y # ys" "?x = drop (length ?e - k) ?e" using k by (cases ?x) auto
    have "length ?e - k = Suc (length es - k)" using 3 e by simp
    then have "y = hd (drop (length es - k) es)" using x e by (metis drop_Suc_Cons list.sel(1))
    then have "y = es ! (length es - k)" using 3 e k by (simp add: hd_drop_conv_nth)
    moreover have "length es - k < length es" using 3 e k by auto
    ultimately have "cont y" using e(3) by (auto simp: list_all_length)
    then have "decode_rune ?x = (rune_error, 1)" using x decode_cont by metis
    then show ?thesis using 3 by (auto simp: ends_in_space_def)
  next
    case 4
    let ?v = "drop (length (u @ ?e) - k) u"
    have x: "?x = ?v @ ?e" using 4 by simp
    have v: "?v \<noteq> []" using 4 by auto
    then obtain y ys where ys: "?v = y # ys" by (cases ?v) auto
    have "decode_rune ?x \<noteq> (q, k)" for q
    proof
      assume d: "decode_rune ?x = (q, k)"
      have "e0 \<in> set (ys @ ?e)" using e by simp
      moreover have "length (ys @ ?e) = k - 1" using 4 x ys by (metis append_Cons diff_Suc_1 length_Cons length_drop diff_diff_cancel)
      ultimately have "e0 \<in> set (take (k - 1) (ys @ ?e))" by simp
      then show False using decode_tail_cont [of y "ys @ ?e" q k e0] d x ys e(2) by simp
    qed
    then show ?thesis using 4 by (cases "decode_rune ?x") (auto simp: ends_in_space_def)
  qed
qed

lemma trailing_space_utf8_snoc:
  assumes "valid_rune r"
  shows "trailing_space (u @ encode_rune r) = (if is_space r then length (encode_rune r) else 0)"
proof -
  let ?n = "length (encode_rune r)"
  have f: "filter (ends_in_space (u @ encode_rune r)) [1, 2, 3] = filter (\<lambda>k. k = ?n \<and> is_space r) [1, 2, 3]"
    using ends_in_space_encode [OF assms] by (intro filter_cong) auto
  have "is_space r \<Longrightarrow> ?n \<in> {1, 2, 3}"
  proof -
    assume "is_space r"
    from encode_space_length [OF this] have "?n \<le> 3" .
    moreover have "1 \<le> ?n" by (simp add: Suc_le_eq)
    ultimately have "?n = 1 \<or> ?n = 2 \<or> ?n = 3" by linarith
    then show ?thesis by blast
  qed
  then show ?thesis unfolding trailing_space_def f by auto
qed

definition rune_trim :: "rune list \<Rightarrow> rune list" where
  "rune_trim rs = rev (dropWhile is_space (rev (dropWhile is_space rs)))"

lemma trim_left_utf8: "valid_runes rs \<Longrightarrow> trim_left_space (utf8 rs) = utf8 (dropWhile is_space rs)"
proof (induction rs)
  case (Cons r rs)
  then have r: "valid_rune r" by auto
  obtain c cs where d: "encode_rune r @ utf8 rs = c # cs"
    "decode_rune (c # cs) = (r, length (encode_rune r))"
    "drop (length (encode_rune r) - 1) cs = utf8 rs"
    using decode_utf8_Cons [OF r] by metis
  show ?case using Cons d by (cases "is_space r") simp_all
qed simp

lemma trim_right_utf8: "valid_runes rs \<Longrightarrow> trim_right_space (utf8 rs) = utf8 (rev (dropWhile is_space (rev rs)))"
proof (induction rs rule: rev_induct)
  case Nil
  then show ?case by (simp add: trim_right_id trailing_space_def ends_in_space_def)
next
  case (snoc r rs)
  then have r: "valid_rune r" and rs: "valid_runes rs" by auto
  show ?case
  proof (cases "is_space r")
    case True
    then have "trim_right_space (utf8 rs @ encode_rune r) = trim_right_space (utf8 rs)"
      by (subst trim_right_space.simps) (simp add: trailing_space_utf8_snoc [OF r] Let_def)
    with True snoc.IH [OF rs] show ?thesis by simp
  next
    case False
    then show ?thesis by (simp add: trim_right_id trailing_space_utf8_snoc [OF r])
  qed
qed

lemma trim_space_utf8: "valid_runes rs \<Longrightarrow> trim_space (utf8 rs) = utf8 (rune_trim rs)"
proof -
  assume rs: "valid_runes rs"
  then have "valid_runes (dropWhile is_space rs)" by (auto simp: list_all_iff dest: set_dropWhileD)
  with rs show ?thesis by (simp add: trim_space_def trim_left_utf8 trim_right_utf8 rune_trim_def)
qed

lemma set_rune_trim: "set (rune_trim rs) \<subseteq> set rs"
  by (auto simp: rune_trim_def dest!: set_dropWhileD)

lemma length_rune_trim: "length (rune_trim rs) \<le> length rs"
proof -
  have "length (rune_trim rs) \<le> length (dropWhile is_space rs)"
    unfolding rune_trim_def using length_dropWhile_le [of is_space "rev (dropWhile is_space rs)"] by simp
  also have "\<dots> \<le> length rs" by (rule length_dropWhile_le)
  finally show ?thesis .
qed

text \<open>From here on a rune is decoded by its lemmas; ASCII text still evaluates by \<open>simp\<close>.\<close>

declare decode_rune.simps(2) [simp del]

section \<open>Decimal numbers\<close>

fun dec :: "nat \<Rightarrow> string" where
  "dec n = (if n < 10 then [char_of (n + 48)] else dec (n div 10) @ [char_of (n mod 10 + 48)])"

declare dec.simps [simp del]

end
