(* ===== verification/Jobs.thy ===== *)
theory Jobs
  imports Go_Strings
begin

text \<open>
  The data of \<open>internal/jobs/job.go\<close>: statuses, documents and jobs, and the two sanitizers through
  which everything a scanner said has to pass before it is shown or mailed.
\<close>

section \<open>Jobs and documents\<close>

record job_capabilities =
  Email :: bool
  Web :: bool
  OCR :: bool

datatype status = StatusPending | StatusProcessing | StatusReady | StatusFailed | StatusEvicted

record document =
  doc_id :: string
  display_name :: string
  doc_path :: path
  doc_size :: int
  ocr_applied :: bool

record job =
  job_id :: string
  received_at :: time
  expires_at :: time
  job_profile :: string
  caps :: job_capabilities
  subject :: string
  recipients :: "string list"
  documents :: "document list"
  status :: status
  job_error :: string

record new_document =
  nd_display_name :: string
  nd_path :: path

record new_job =
  nj_profile :: string
  nj_caps :: job_capabilities
  nj_subject :: string
  nj_recipients :: "string list"
  nj_documents :: "new_document list"

text \<open>
  \<open>cloneJob\<close> copies the two slices so that the caller's value shares nothing with the store. HOL values
  are immutable, so the copy is the value itself; the theorems about the store's results need no more.
\<close>

definition clone_job :: "job \<Rightarrow> job" where
  "clone_job j = j\<lparr>recipients := [] @ recipients j, documents := [] @ documents j\<rparr>"

lemma clone_job_id [simp]: "clone_job j = j"
  by (simp add: clone_job_def)

section \<open>SanitizeSubject\<close>

definition max_subject_runes :: nat where
  "max_subject_runes = 200"

definition subject_rune :: "(rune \<Rightarrow> bool) \<Rightarrow> rune \<Rightarrow> rune list" where
  "subject_rune pr r = (if is_space r then [32] else if is_print pr r then [r] else [])"

definition sanitize_subject :: "(rune \<Rightarrow> bool) \<Rightarrow> string \<Rightarrow> string" where
  "sanitize_subject pr s0 =
     (let b = utf8 (concat (map (subject_rune pr) (runes (to_valid_utf8 s0))));
          s = join_with '' '' (str_fields b)
      in if max_subject_runes < length (runes s)
         then trim_space (utf8 (take max_subject_runes (runes s))) else s)"

section \<open>SanitizeDisplayName\<close>

definition max_name_runes :: nat where
  "max_name_runes = 100"

definition name_rune_kept :: "(rune \<Rightarrow> bool) \<Rightarrow> rune \<Rightarrow> bool" where
  "name_rune_kept pr r =
     (r \<notin> {34, 39, 92, 47} \<and> (is_print pr r \<or> r = 32))"

definition base_name :: "string \<Rightarrow> string" where
  "base_name name =
     (let n = replace_all [CHR 0x5C] ''/'' name in
      if CHR ''/'' \<in> set n then after_last (CHR ''/'') n else n)"

definition sanitize_display_name :: "(rune \<Rightarrow> rune) \<Rightarrow> (rune \<Rightarrow> bool) \<Rightarrow> string \<Rightarrow> string" where
  "sanitize_display_name low pr name0 =
     (let n1 = base_name (to_valid_utf8 name0);
          n2 = utf8 (filter (name_rune_kept pr) (runes n1));
          n3 = trim_space (trim_left_set ''.'' (join_with '' '' (str_fields n2)))
      in if n3 = [] then ''scan.pdf''
         else (let n4 = (if suffix ''.pdf'' (to_lower low n3) then n3 else n3 @ ''.pdf'');
                   n5 = (if max_name_runes < length (runes n4)
                         then utf8 (take (max_name_runes - 4) (runes n4)) @ ''.pdf'' else n4)
               in if n5 = [] then ''scan.pdf'' else n5))"

section \<open>What the sanitizers guarantee\<close>

text \<open>The table above Latin-1 marks scalar values only, and no white space: Go's \<open>IsPrint\<close> has no space but U+0020.\<close>

definition print_table :: "(rune \<Rightarrow> bool) \<Rightarrow> bool" where
  "print_table pr \<longleftrightarrow> (\<forall>r. 256 \<le> r \<longrightarrow> pr r \<longrightarrow> \<not> is_space r)"

lemma is_print_not_control: "is_print pr r \<Longrightarrow> \<not> is_control r"
  by (auto simp: is_print_def is_control_def split: if_splits)

lemma char_of_nat_ascii:
  "char_of (32 :: nat) = CHR '' ''" "char_of (46 :: nat) = CHR ''.''" "char_of (112 :: nat) = CHR ''p''"
  "char_of (100 :: nat) = CHR ''d''" "char_of (102 :: nat) = CHR ''f''"
  by code_simp+

lemma encode_space: "encode_rune 32 = '' ''"
  by (simp add: encode_rune_def valid_rune_def char_of_nat_ascii)

lemma utf8_dot_pdf: "utf8 [46, 112, 100, 102] = ''.pdf''"
  by (simp add: encode_rune_def valid_rune_def char_of_nat_ascii)

lemma join_fields_utf8:
  "valid_runes rs \<Longrightarrow> join_with '' '' (str_fields (utf8 rs)) = utf8 (join_with [32] (rune_fields_from [] rs))"
  using join_with_utf8 [of "[32]" "rune_fields_from [] rs"] by (simp add: str_fields_utf8 encode_space)

lemma set_join_fields:
  "r \<in> set (join_with [32] (rune_fields_from [] rs)) \<Longrightarrow> r = 32 \<or> (r \<in> set rs \<and> \<not> is_space r)"
  using set_join_with [of "[32 :: nat]" "rune_fields_from [] rs"] set_rune_fields_from [of _ "[]" rs r] by auto

lemma valid_runes_subset: "set qs \<subseteq> insert 32 (set rs) \<Longrightarrow> valid_runes rs \<Longrightarrow> valid_runes qs"
  by (auto simp: list_all_iff valid_rune_def)

lemma subject_runes:
  obtains rs where "sanitize_subject pr s = utf8 rs" "valid_runes rs" "length rs \<le> max_subject_runes"
    "\<forall>r \<in> set rs. r = 32 \<or> (is_print pr r \<and> \<not> is_space r)"
proof -
  let ?q = "concat (map (subject_rune pr) (runes (to_valid_utf8 s)))"
  have q: "valid_runes ?q"
    using runes_valid [of _ "to_valid_utf8 s"]
    by (auto simp: list_all_iff subject_rune_def valid_rune_def split: if_splits)
  let ?j = "join_with [32] (rune_fields_from [] ?q)"
  have jset: "\<forall>r \<in> set ?j. r = 32 \<or> (is_print pr r \<and> \<not> is_space r)"
    using set_join_fields [of _ ?q] by (fastforce simp: subject_rune_def split: if_splits)
  have j: "valid_runes ?j"
    using valid_runes_subset [OF _ q] set_join_fields [of _ ?q] by blast
  have s: "sanitize_subject pr s =
      (if max_subject_runes < length ?j then trim_space (utf8 (take max_subject_runes ?j)) else utf8 ?j)"
    by (simp add: sanitize_subject_def join_fields_utf8 [OF q] j)
  show thesis
  proof (cases "max_subject_runes < length ?j")
    case True
    let ?t = "take max_subject_runes ?j"
    have t: "valid_runes ?t" using j by (auto simp: list_all_iff dest: in_set_takeD)
    have "set (rune_trim ?t) \<subseteq> set ?j" using set_rune_trim [of ?t] by (auto dest: in_set_takeD)
    moreover have "length (rune_trim ?t) \<le> max_subject_runes" using length_rune_trim [of ?t] by simp
    ultimately show thesis
      using that [of "rune_trim ?t"] True s t jset j by (auto simp: trim_space_utf8 list_all_iff)
  next
    case False
    with s jset j show thesis using that [of ?j] by simp
  qed
qed

lemma replace_all_no_old:
  "replace_all [c] [d] s = map (\<lambda>x. if x = c then d else x) s"
proof (induction s)
  case Nil
  then show ?case by (simp add: replace_all.simps)
next
  case (Cons a s)
  then show ?case by (subst replace_all.simps) auto
qed

lemma after_last_no_sep: "c \<notin> set (after_last c s)"
  by (auto simp: after_last_def dest: set_takeWhileD)

lemma base_name_no_sep: "CHR ''/'' \<notin> set (base_name n) \<and> CHR 0x5C \<notin> set (base_name n)"
proof -
  let ?n = "replace_all [CHR 0x5C] ''/'' n"
  have "CHR 0x5C \<notin> set ?n" by (auto simp: replace_all_no_old)
  moreover have "set (after_last (CHR ''/'') ?n) \<subseteq> set ?n"
    by (auto simp: after_last_def dest: set_takeWhileD)
  ultimately show ?thesis by (auto simp: base_name_def Let_def after_last_no_sep)
qed

lemma suffix_append_iff: "suffix u (v @ w) \<Longrightarrow> length w \<le> length u \<Longrightarrow> suffix w u"
  by (metis suffix_def suffix_same_cases nat_less_le leD suffix_length_le suffix_order.eq_iff append_eq_append_conv)

end
