(* ===== verification/Go_Path.thy ===== *)
theory Go_Path
  imports Go_Strings
begin

text \<open>
  Go's \<open>filepath.Clean\<close> and \<open>filepath.Join\<close> on slash-separated paths, and when they leave a path as it
  is. The job store keys its set of created files by cleaned paths.
\<close>

text \<open>The components read so far are kept as a stack, the last one first.\<close>

fun clean_comps :: "bool \<Rightarrow> string list \<Rightarrow> string list \<Rightarrow> string list" where
  "clean_comps rooted acc [] = rev acc"
| "clean_comps rooted acc (c # cs) =
     (if c = [] \<or> c = ''.'' then clean_comps rooted acc cs
      else if c = ''..'' then
        (case acc of
           [] \<Rightarrow> clean_comps rooted (if rooted then [] else [''..'']) cs
         | a # as \<Rightarrow> clean_comps rooted (if a = ''..'' then ''..'' # acc else as) cs)
      else clean_comps rooted (c # acc) cs)"

definition path_clean :: "path \<Rightarrow> path" where
  "path_clean p =
     (let rooted = (p \<noteq> [] \<and> hd p = CHR ''/'');
          body = join_with ''/'' (clean_comps rooted [] (split_on (CHR ''/'') p));
          r = (if rooted then CHR ''/'' # body else body)
      in if r = [] then ''.'' else r)"

definition path_join :: "path \<Rightarrow> path \<Rightarrow> path" where
  "path_join a b =
     (if a = [] then (if b = [] then [] else path_clean b)
      else if b = [] then path_clean a else path_clean (a @ ''/'' @ b))"

definition normal_comp :: "string \<Rightarrow> bool" where
  "normal_comp c \<longleftrightarrow> c \<noteq> [] \<and> c \<noteq> ''.'' \<and> c \<noteq> ''..'' \<and> CHR ''/'' \<notin> set c"

lemma clean_comps_normal:
  "list_all normal_comp cs \<Longrightarrow> clean_comps rooted acc cs = rev acc @ cs"
  by (induction cs arbitrary: acc) (auto simp: normal_comp_def)

lemma clean_comps_rooted:
  "list_all normal_comp acc \<Longrightarrow> (\<forall>c \<in> set cs. CHR ''/'' \<notin> set c) \<Longrightarrow>
   list_all normal_comp (clean_comps True acc cs)"
proof (induction cs arbitrary: acc)
  case Nil
  then show ?case by simp
next
  case (Cons c cs)
  then show ?case by (cases acc) (auto simp: normal_comp_def)
qed

text \<open>An absolute clean path is a slash followed by normal components.\<close>

definition abs_path :: "string list \<Rightarrow> path" where
  "abs_path cs = CHR ''/'' # join_with ''/'' cs"

lemma split_join:
  "cs \<noteq> [] \<Longrightarrow> (\<forall>c \<in> set cs. d \<notin> set c) \<Longrightarrow> split_on d (join_with [d] cs) = cs"
proof (induction cs)
  case (Cons c cs)
  then show ?case by (cases cs) (auto simp: split_on_none split_on_append)
qed simp

lemma path_clean_abs: "list_all normal_comp cs \<Longrightarrow> path_clean (abs_path cs) = abs_path cs"
proof (cases "cs = []")
  case True
  then show ?thesis by (simp add: path_clean_def abs_path_def Let_def)
next
  case False
  assume n: "list_all normal_comp cs"
  then have "split_on (CHR ''/'') (join_with ''/'' cs) = cs"
    using False by (intro split_join) (auto simp: list_all_iff normal_comp_def)
  with n show ?thesis by (simp add: path_clean_def abs_path_def Let_def clean_comps_normal)
qed

lemma path_clean_is_abs:
  assumes "hd p = CHR ''/''" "p \<noteq> []"
  obtains cs where "path_clean p = abs_path cs" "list_all normal_comp cs"
proof -
  have "list_all normal_comp (clean_comps True [] (split_on (CHR ''/'') p))"
    by (rule clean_comps_rooted) (auto dest: split_on_no_sep)
  with assms show thesis using that by (simp add: path_clean_def abs_path_def Let_def)
qed

lemma path_clean_abs_idem: "hd p = CHR ''/'' \<Longrightarrow> p \<noteq> [] \<Longrightarrow> path_clean (path_clean p) = path_clean p"
  by (metis path_clean_is_abs path_clean_abs)

lemma join_with_snoc: "cs \<noteq> [] \<Longrightarrow> join_with sep (cs @ [c]) = join_with sep cs @ sep @ c"
proof (induction cs)
  case (Cons d cs)
  then show ?case by (cases cs) auto
qed simp

lemma abs_path_snoc: "cs \<noteq> [] \<Longrightarrow> abs_path (cs @ [c]) = abs_path cs @ ''/'' @ c"
  by (simp add: abs_path_def join_with_snoc)

lemma path_join_abs:
  assumes "list_all normal_comp cs" "cs \<noteq> []" "normal_comp c"
  shows "path_join (abs_path cs) c = abs_path cs @ ''/'' @ c"
proof -
  have "c \<noteq> []" using assms(3) by (simp add: normal_comp_def)
  moreover have "abs_path cs \<noteq> []" by (simp add: abs_path_def)
  ultimately show ?thesis
    using assms path_clean_abs [of "cs @ [c]"] abs_path_snoc [OF assms(2)]
    by (simp add: path_join_def)
qed

end
