(* ===== verification/Go_Base64.thy ===== *)
theory Go_Base64
  imports S2G_Prelude
begin

text \<open>
  \<open>encoding/base64\<close> on byte lists: the sextets of three bytes at a time, the standard and the URL
  alphabet, padding. Ids of jobs and sessions use the raw URL encoding, attachments in a mail the
  padded standard one.
\<close>

fun sextets :: "nat list \<Rightarrow> nat list" where
  "sextets (a # b # c # r) =
     (a div 4) # ((a mod 4) * 16 + b div 16) # ((b mod 16) * 4 + c div 64) # (c mod 64) # sextets r"
| "sextets [a, b] = [a div 4, (a mod 4) * 16 + b div 16, (b mod 16) * 4]"
| "sextets [a] = [a div 4, (a mod 4) * 16]"
| "sextets [] = []"

fun unsextets :: "nat list \<Rightarrow> nat list" where
  "unsextets (p # q # r # s # t) =
     (p * 4 + q div 16) # ((q mod 16) * 16 + r div 4) # ((r mod 4) * 64 + s) # unsextets t"
| "unsextets [p, q, r] = [p * 4 + q div 16, (q mod 16) * 16 + r div 4]"
| "unsextets [p, q] = [p * 4 + q div 16]"
| "unsextets [p] = []"
| "unsextets [] = []"

definition url_char :: "nat \<Rightarrow> char" where
  "url_char n =
     (if n < 26 then char_of (n + 65) else if n < 52 then char_of (n - 26 + 97)
      else if n < 62 then char_of (n - 52 + 48) else if n = 62 then CHR ''-'' else CHR ''_'')"

definition std_char :: "nat \<Rightarrow> char" where
  "std_char n =
     (if n < 26 then char_of (n + 65) else if n < 52 then char_of (n - 26 + 97)
      else if n < 62 then char_of (n - 52 + 48) else if n = 62 then CHR ''+'' else CHR ''/'')"

definition raw_url_encode :: "nat list \<Rightarrow> string" where
  "raw_url_encode bs = map url_char (sextets bs)"

definition std_encode :: "nat list \<Rightarrow> string" where
  "std_encode bs = map std_char (sextets bs) @
     (if length bs mod 3 = 1 then ''=='' else if length bs mod 3 = 2 then ''='' else [])"

lemma sextet_bounds:
  assumes "a < 256" "b < (256 :: nat)"
  shows "a div 4 < 64" "a mod 4 * 16 + b div 16 < 64" "a mod 16 * 4 + b div 64 < 64" "a mod 64 < 64"
    "a mod 4 * 16 < 64" "a mod 16 * 4 < 64"
proof -
  have "a mod 4 < 4" "a mod 16 < 16" "b div 16 < 16" "b div 64 < 4" using assms by auto
  then show "a div 4 < 64" "a mod 4 * 16 + b div 16 < 64" "a mod 16 * 4 + b div 64 < 64" "a mod 64 < 64"
    "a mod 4 * 16 < 64" "a mod 16 * 4 < 64" using assms(1) by auto
qed

lemma sextets_less: "list_all (\<lambda>b. b < 256) bs \<Longrightarrow> n \<in> set (sextets bs) \<Longrightarrow> n < 64"
  by (induction bs rule: sextets.induct) (use sextet_bounds in auto)

lemma unsextets_sextets: "list_all (\<lambda>b. b < 256) bs \<Longrightarrow> unsextets (sextets bs) = bs"
proof (induction bs rule: sextets.induct)
  case (1 a b c r)
  then have "a < 256" "b < 256" "c < 256" by auto
  moreover from this have "b div 16 < 16" "c div 64 < 4" by linarith+
  ultimately show ?case using 1 by (simp add: mod_mult_self3 div_mult_self3)
next
  case (2 a b)
  then have "b div 16 < 16" by auto
  with 2 show ?case by simp
next
  case (3 a)
  then show ?case by simp
qed simp

lemma length_sextets: "length (sextets bs) = length bs + (length bs + 2) div 3"
  by (induction bs rule: sextets.induct) auto

lemma of_char_url_char:
  "k < 64 \<Longrightarrow> (of_char (url_char k) :: nat) =
     (if k < 26 then k + 65 else if k < 52 then k + 71 else if k < 62 then k - 4
      else if k = 62 then 45 else 95)"
  by (auto simp: url_char_def)

lemma url_char_not:
  assumes "n < 64"
  shows "url_char n \<noteq> CHR ''/'' \<and> url_char n \<noteq> CHR ''.''"
proof -
  have "(of_char (url_char n) :: nat) \<noteq> 47 \<and> (of_char (url_char n) :: nat) \<noteq> 46"
    using assms by (auto simp: of_char_url_char)
  then show ?thesis by auto
qed

lemma url_char_inj:
  assumes "m < 64" "n < 64" "url_char m = url_char n"
  shows "m = n"
proof -
  have "(of_char (url_char m) :: nat) = of_char (url_char n)"
    unfolding assms(3) ..
  then show ?thesis using assms(1,2) by (simp only: of_char_url_char) (auto split: if_splits)
qed

lemma raw_url_encode_safe:
  "list_all (\<lambda>b. b < 256) bs \<Longrightarrow> c \<in> set (raw_url_encode bs) \<Longrightarrow> c \<noteq> CHR ''/'' \<and> c \<noteq> CHR ''.''"
  using sextets_less url_char_not by (fastforce simp: raw_url_encode_def)

lemma raw_url_encode_inj:
  assumes "list_all (\<lambda>b. b < 256) bs" "list_all (\<lambda>b. b < 256) cs" "raw_url_encode bs = raw_url_encode cs"
  shows "bs = cs"
proof -
  have "sextets bs = sextets cs"
    using assms(3) unfolding raw_url_encode_def
    by (rule list.inj_map_strong [rotated]) (use assms(1,2) sextets_less url_char_inj in blast)
  then show ?thesis using unsextets_sextets assms(1,2) by metis
qed

end
