(* ===== verification/Store.thy ===== *)
theory Store
  imports Jobs Go_Path Go_Base64
begin

text \<open>
  The ephemeral job store, \<open>internal/jobs/store.go\<close>. Every section the code runs under the store's
  mutex is one function on the bookkeeping record; a method that takes the mutex twice is composed of
  two of them with an arbitrary state change \<open>env\<close> in between, which stands for whatever the other
  goroutines did meanwhile. The file system is an argument where it is read (\<open>lstat\<close>, the result of
  making a directory or a temporary file) and a list of effects where it is changed. Byte counts are
  \<open>int\<close>: the bound proved on \<open>used\<close> keeps the code's 64-bit counters far from wrapping.
\<close>

section \<open>State\<close>

datatype store_error =
    ErrCapacity | ErrClosed | ErrNotFound
  | ErrRootRequired | ErrBadTTL | ErrBadMaxBytes | ErrIO | ErrEntropy
  | ErrReservationGone | ErrNotRegular path | ErrForeignFile path
  | ErrStagingClosed | ErrAlreadyCommitted | ErrAlreadyAborted | ErrNoDocuments

datatype effect = RemoveAll path | Remove path

record fstat =
  fs_regular :: bool
  fs_size :: int

record reservation =
  res_dir :: path
  reserved_at :: time
  res_bytes :: int

record job_record =
  rec_job :: job
  rec_dir :: path
  rec_bytes :: int
  rec_files :: "path list"

record store =
  store_dir :: path
  store_ttl :: duration
  max_bytes :: int
  jobs :: "(string \<times> job_record) list"
  reservations :: "(string \<times> reservation) list"
  used :: int
  store_closed :: bool

datatype staging_state = StagingOpen | StagingCommitted | StagingAborted

record staging =
  stg_id :: string
  stg_dir :: path
  stg_state :: staging_state
  stg_files :: "path list"

definition stale_reservation_after :: duration where
  "stale_reservation_after = 15 * 60 * 1000000000"

text \<open>\<open>New\<close>: the absolute root and whether preparing the directory worked are the file system's answers.\<close>

definition new_store :: "path \<Rightarrow> (path \<Rightarrow> path option) \<Rightarrow> (path \<Rightarrow> bool) \<Rightarrow> duration \<Rightarrow> int \<Rightarrow> store_error + store" where
  "new_store root abs_of prepare ttl mb =
     (if root = [] then Inl ErrRootRequired
      else if ttl \<le> 0 then Inl ErrBadTTL
      else if mb \<le> 0 then Inl ErrBadMaxBytes
      else (case abs_of root of
              None \<Rightarrow> Inl ErrIO
            | Some r \<Rightarrow>
                let dir = path_join r ''scan2graph'' in
                if \<not> prepare dir then Inl ErrIO
                else Inr \<lparr>store_dir = dir, store_ttl = ttl, max_bytes = mb, jobs = [],
                          reservations = [], used = 0, store_closed = False\<rparr>))"

text \<open>\<open>newID\<close>: the argument is what the random source returned, 16 bytes or an error.\<close>

definition new_id :: "nat list option \<Rightarrow> string option" where
  "new_id rnd = map_option raw_url_encode rnd"

section \<open>The budget\<close>

definition finished :: "status \<Rightarrow> bool" where
  "finished st = (st = StatusReady \<or> st = StatusFailed)"

definition doc_bytes :: "document list \<Rightarrow> int" where
  "doc_bytes ds = sum_list (map doc_size ds)"

definition freeable :: "store \<Rightarrow> int" where
  "freeable s = asum (\<lambda>r. if finished (status (rec_job r)) then rec_bytes r else 0) (jobs s)"

definition admits_locked :: "store \<Rightarrow> int \<Rightarrow> bool" where
  "admits_locked s want =
     (if used s + want \<le> max_bytes s then True
      else used s - freeable s + want \<le> max_bytes s)"

definition charge :: "string \<Rightarrow> int \<Rightarrow> store \<Rightarrow> store" where
  "charge ident n s =
     (case map_of (jobs s) ident of
        None \<Rightarrow> s
      | Some r \<Rightarrow> s\<lparr>used := used s + (n - rec_bytes r),
                     jobs := AList.map_entry ident (\<lambda>r. r\<lparr>rec_bytes := n\<rparr>) (jobs s)\<rparr>)"

text \<open>What eviction leaves of a record before it is charged nothing.\<close>

definition tombstone :: "job_record \<Rightarrow> job_record" where
  "tombstone r = r\<lparr>rec_job := (rec_job r)\<lparr>status := StatusEvicted, job_error := [], documents := []\<rparr>,
                    rec_files := []\<rparr>"

fun evict_loop :: "(string \<times> job_record) list \<Rightarrow> int \<Rightarrow> store \<Rightarrow> store \<times> (string \<times> job_record) list" where
  "evict_loop [] held s = (s, [])"
| "evict_loop ((ident, r) # cs) held s =
     (if held \<le> max_bytes s then (s, [])
      else let s1 = charge ident 0 (s\<lparr>jobs := AList.map_entry ident tombstone (jobs s)\<rparr>);
               (s2, ev) = evict_loop cs (held - rec_bytes r) s1
           in (s2, (ident, r) # ev))"

definition candidates :: "store \<Rightarrow> (string \<times> job_record) list" where
  "candidates s =
     sort_key (\<lambda>p. received_at (rec_job (snd p)))
       (filter (\<lambda>p. 0 < rec_bytes (snd p) \<and> finished (status (rec_job (snd p)))) (jobs s))"

definition held_bytes :: "store \<Rightarrow> int" where
  "held_bytes s = used s - asum res_bytes (reservations s)"

definition make_room_locked :: "store \<Rightarrow> store \<times> (string \<times> job_record) list" where
  "make_room_locked s =
     (if held_bytes s \<le> max_bytes s then (s, [])
      else evict_loop (candidates s) (held_bytes s) s)"

definition drop_evicted :: "(string \<times> job_record) list \<Rightarrow> effect list" where
  "drop_evicted ev = map (\<lambda>p. RemoveAll (rec_dir (snd p))) ev"

section \<open>Reservations\<close>

definition release_reservation :: "string \<Rightarrow> store \<Rightarrow> store" where
  "release_reservation ident s =
     (case map_of (reservations s) ident of
        None \<Rightarrow> s
      | Some r \<Rightarrow> s\<lparr>used := used s - res_bytes r, reservations := AList.delete ident (reservations s)\<rparr>)"

text \<open>\<open>Reserve\<close>: the first critical section, then the directory and the second look at \<open>closed\<close>.\<close>

definition reserve_lock :: "int \<Rightarrow> string option \<Rightarrow> time \<Rightarrow> store \<Rightarrow> (store_error + string) \<times> store" where
  "reserve_lock want idr now s =
     (if store_closed s then (Inl ErrClosed, s)
      else if \<not> admits_locked s want then (Inl ErrCapacity, s)
      else (case idr of
              None \<Rightarrow> (Inl ErrEntropy, s)
            | Some ident \<Rightarrow>
                (Inr ident, s\<lparr>reservations := AList.update ident
                              \<lparr>res_dir = path_join (store_dir s) ident, reserved_at = now, res_bytes = want\<rparr>
                              (reservations s),
                           used := used s + want\<rparr>)))"

definition reserve_finish ::
  "string \<Rightarrow> (path \<Rightarrow> bool) \<Rightarrow> store \<Rightarrow> (store_error + staging) \<times> store \<times> effect list" where
  "reserve_finish ident mkdir s =
     (let dir = path_join (store_dir s) ident in
      if \<not> mkdir dir then (Inl ErrIO, release_reservation ident s, [])
      else if store_closed s then (Inl ErrClosed, release_reservation ident s, [RemoveAll dir])
      else (Inr \<lparr>stg_id = ident, stg_dir = dir, stg_state = StagingOpen, stg_files = []\<rparr>, s, []))"

definition reserve ::
  "int \<Rightarrow> string option \<Rightarrow> time \<Rightarrow> (path \<Rightarrow> bool) \<Rightarrow> (store \<Rightarrow> store) \<Rightarrow> store \<Rightarrow>
   (store_error + staging) \<times> store \<times> effect list" where
  "reserve want idr now mkdir env s =
     (case reserve_lock want idr now s of
        (Inl e, s1) \<Rightarrow> (Inl e, s1, [])
      | (Inr ident, s1) \<Rightarrow> reserve_finish ident mkdir (env s1))"

definition commit_reservation ::
  "string \<Rightarrow> job \<Rightarrow> path \<Rightarrow> path list \<Rightarrow> store \<Rightarrow> (store_error + unit) \<times> store \<times> effect list" where
  "commit_reservation ident j dir fs s =
     (if store_closed s then (Inl ErrClosed, s, [])
      else (case map_of (reservations s) ident of
              None \<Rightarrow> (Inl ErrReservationGone, s, [])
            | Some r \<Rightarrow>
                let s1 = s\<lparr>reservations := AList.delete ident (reservations s),
                           jobs := AList.update (job_id j)
                             \<lparr>rec_job = j, rec_dir = dir, rec_bytes = res_bytes r, rec_files = fs\<rparr> (jobs s)\<rparr>;
                    (s2, ev) = make_room_locked s1
                in (Inr (), s2, drop_evicted ev)))"

section \<open>Reading jobs\<close>

definition live :: "job \<Rightarrow> time \<Rightarrow> bool" where
  "live j now =
     (case status j of
        StatusPending \<Rightarrow> True
      | StatusProcessing \<Rightarrow> True
      | _ \<Rightarrow> now < expires_at j)"

definition get :: "string \<Rightarrow> time \<Rightarrow> store \<Rightarrow> job option" where
  "get ident now s =
     (case map_of (jobs s) ident of
        None \<Rightarrow> None
      | Some r \<Rightarrow> if \<not> live (rec_job r) now then None else Some (clone_job (rec_job r)))"

definition list_for_user :: "string list \<Rightarrow> time \<Rightarrow> store \<Rightarrow> job list" where
  "list_for_user identities now s =
     (if identities = [] then []
      else let want = filter (\<lambda>i. i \<noteq> []) identities in
        if want = [] then []
        else sort_key (\<lambda>j. - received_at j)
               (map clone_job
                 (filter (\<lambda>j. Web (caps j) \<and> live j now \<and> list_ex (\<lambda>r. r \<in> set want) (recipients j))
                   (map (\<lambda>p. rec_job (snd p)) (jobs s)))))"

section \<open>Changing jobs\<close>

definition update_job :: "string \<Rightarrow> (job \<Rightarrow> job) \<Rightarrow> store \<Rightarrow> store" where
  "update_job ident f s = s\<lparr>jobs := AList.map_entry ident (\<lambda>r. r\<lparr>rec_job := f (rec_job r)\<rparr>) (jobs s)\<rparr>"

definition set_status ::
  "string \<Rightarrow> status \<Rightarrow> string \<Rightarrow> time \<Rightarrow> store \<Rightarrow> (store_error + unit) \<times> store \<times> effect list" where
  "set_status ident st err now s =
     (case map_of (jobs s) ident of
        None \<Rightarrow> (Inl ErrNotFound, s, [])
      | Some r \<Rightarrow>
          if status (rec_job r) = StatusEvicted then (Inl ErrNotFound, s, [])
          else
            let s1 = update_job ident
                       (\<lambda>j. j\<lparr>status := st, job_error := (if st = StatusFailed then err else [])\<rparr>) s
            in if \<not> finished st then (Inr (), s1, [])
               else
                 let s2 = update_job ident (\<lambda>j. j\<lparr>expires_at := now + store_ttl s\<rparr>) s1;
                     docs = documents (rec_job r);
                     keep = map (\<lambda>d. path_clean (doc_path d)) docs;
                     s3 = charge ident (doc_bytes docs) s2;
                     leftovers = filter (\<lambda>f. path_clean f \<notin> set keep) (rec_files r);
                     s4 = s3\<lparr>jobs := AList.map_entry ident
                               (\<lambda>r. r\<lparr>rec_files := filter (\<lambda>f. path_clean f \<in> set keep) (rec_files r)\<rparr>) (jobs s3)\<rparr>;
                     (s5, ev) = make_room_locked s4
                 in (Inr (), s5, drop_evicted ev @ map Remove leftovers))"

fun replace_doc :: "string \<Rightarrow> path \<Rightarrow> int \<Rightarrow> bool \<Rightarrow> document list \<Rightarrow> (path \<times> document list) option" where
  "replace_doc did p sz ocr [] = None"
| "replace_doc did p sz ocr (d # ds) =
     (if doc_id d = did
      then Some (doc_path d, d\<lparr>doc_path := p, doc_size := sz, ocr_applied := ocr\<rparr> # ds)
      else (case replace_doc did p sz ocr ds of
              None \<Rightarrow> None
            | Some (old, ds') \<Rightarrow> Some (old, d # ds')))"

definition replace_document ::
  "string \<Rightarrow> string \<Rightarrow> path \<Rightarrow> bool \<Rightarrow> (path \<Rightarrow> fstat option) \<Rightarrow> store \<Rightarrow>
   (store_error + unit) \<times> store \<times> effect list" where
  "replace_document jid did new_path ocr lstat s =
     (case lstat new_path of
        None \<Rightarrow> (Inl ErrIO, s, [])
      | Some fi \<Rightarrow>
          if \<not> fs_regular fi then (Inl (ErrNotRegular new_path), s, [])
          else (case map_of (jobs s) jid of
            None \<Rightarrow> (Inl ErrNotFound, s, [])
          | Some r \<Rightarrow>
              if path_clean new_path \<notin> set (rec_files r) then (Inl (ErrForeignFile new_path), s, [])
              else (case replace_doc did (path_clean new_path) (fs_size fi) ocr (documents (rec_job r)) of
                None \<Rightarrow> (Inl ErrNotFound, s, [])
              | Some (old, docs) \<Rightarrow>
                  let s1 = update_job jid (\<lambda>j. j\<lparr>documents := docs\<rparr>) s;
                      (s2, ev) = (if finished (status (rec_job r))
                                  then make_room_locked (charge jid (doc_bytes docs) s1) else (s1, []))
                  in (Inr (), s2,
                      drop_evicted ev @ (if old \<noteq> path_clean new_path then [Remove old] else [])))))"

text \<open>\<open>os.CreateTemp\<close> is an argument: a directory and a pattern give the new file's name, or an error.\<close>

definition create_temp_file :: "(path \<Rightarrow> string \<Rightarrow> path option) \<Rightarrow> path \<Rightarrow> string \<Rightarrow> store_error + path" where
  "create_temp_file mk dir pre =
     (let p = (if pre = [] then ''doc'' else pre) in
      case mk dir (p @ ''-*'') of None \<Rightarrow> Inl ErrIO | Some f \<Rightarrow> Inr f)"

definition create_file_lookup :: "string \<Rightarrow> store \<Rightarrow> store_error + path" where
  "create_file_lookup jid s =
     (case map_of (jobs s) jid of
        None \<Rightarrow> Inl ErrNotFound
      | Some r \<Rightarrow> if status (rec_job r) = StatusEvicted then Inl ErrNotFound else Inr (rec_dir r))"

definition create_file_register :: "string \<Rightarrow> path \<Rightarrow> store \<Rightarrow> (store_error + path) \<times> store \<times> effect list" where
  "create_file_register jid f s =
     (case map_of (jobs s) jid of
        None \<Rightarrow> (Inl ErrNotFound, s, [Remove f])
      | Some r \<Rightarrow>
          if status (rec_job r) = StatusEvicted then (Inl ErrNotFound, s, [Remove f])
          else (Inr f, s\<lparr>jobs := AList.map_entry jid (\<lambda>r. r\<lparr>rec_files := List.insert f (rec_files r)\<rparr>) (jobs s)\<rparr>, []))"

definition create_file ::
  "string \<Rightarrow> string \<Rightarrow> (path \<Rightarrow> string \<Rightarrow> path option) \<Rightarrow> (store \<Rightarrow> store) \<Rightarrow> store \<Rightarrow>
   (store_error + path) \<times> store \<times> effect list" where
  "create_file jid pre mk env s =
     (case create_file_lookup jid s of
        Inl e \<Rightarrow> (Inl e, s, [])
      | Inr dir \<Rightarrow>
          (case create_temp_file mk dir pre of
             Inl e \<Rightarrow> (Inl e, env s, [])
           | Inr f \<Rightarrow> create_file_register jid f (env s)))"

definition delete :: "string \<Rightarrow> store \<Rightarrow> (store_error + unit) \<times> store \<times> effect list" where
  "delete ident s =
     (case map_of (jobs s) ident of
        None \<Rightarrow> (Inl ErrNotFound, s, [])
      | Some r \<Rightarrow>
          let s1 = charge ident 0 s
          in (Inr (), s1\<lparr>jobs := AList.delete ident (jobs s1)\<rparr>, [RemoveAll (rec_dir r)]))"

text \<open>The two sweeps of \<open>CleanExpired\<close>, one record at a time, over a snapshot of the map's entries.\<close>

fun sweep_jobs :: "(string \<times> job_record) list \<Rightarrow> time \<Rightarrow> store \<Rightarrow> store \<times> path list" where
  "sweep_jobs [] now s = (s, [])"
| "sweep_jobs ((ident, r) # rs) now s =
     (if \<not> live (rec_job r) now
      then let s1 = charge ident 0 s;
               (s2, dirs) = sweep_jobs rs now (s1\<lparr>jobs := AList.delete ident (jobs s1)\<rparr>)
           in (s2, rec_dir r # dirs)
      else sweep_jobs rs now s)"

fun sweep_reservations :: "(string \<times> reservation) list \<Rightarrow> time \<Rightarrow> store \<Rightarrow> store \<times> path list" where
  "sweep_reservations [] now s = (s, [])"
| "sweep_reservations ((ident, r) # rs) now s =
     (if now - reserved_at r > stale_reservation_after
      then let (s2, dirs) = sweep_reservations rs now
                 (s\<lparr>used := used s - res_bytes r, reservations := AList.delete ident (reservations s)\<rparr>)
           in (s2, res_dir r # dirs)
      else sweep_reservations rs now s)"

definition clean_expired :: "time \<Rightarrow> store \<Rightarrow> nat \<times> store \<times> effect list" where
  "clean_expired now s =
     (let (s1, expired) = sweep_jobs (jobs s) now s;
          (s2, leaked) = sweep_reservations (reservations s1) now s1
      in (length expired, s2, map RemoveAll (expired @ leaked)))"

definition run_interval :: "duration \<Rightarrow> duration" where
  "run_interval ttl =
     (let i = ttl div 4; minute = 60 * 1000000000 in if i \<le> 0 \<or> i > minute then minute else i)"

definition store_len :: "store \<Rightarrow> nat" where
  "store_len s = length (jobs s) + length (reservations s)"

definition used_bytes :: "store \<Rightarrow> int" where
  "used_bytes s = used s"

definition close_store :: "store \<Rightarrow> store \<times> effect list" where
  "close_store s =
     (if store_closed s then (s, [])
      else (s\<lparr>store_closed := True, jobs := [], reservations := [], used := 0\<rparr>, [RemoveAll (store_dir s)]))"

section \<open>Staging\<close>

definition staging_create_file ::
  "string \<Rightarrow> (path \<Rightarrow> string \<Rightarrow> path option) \<Rightarrow> staging \<Rightarrow> (store_error + path) \<times> staging" where
  "staging_create_file pre mk g =
     (if stg_state g \<noteq> StagingOpen then (Inl ErrStagingClosed, g)
      else (case create_temp_file mk (stg_dir g) pre of
              Inl e \<Rightarrow> (Inl e, g)
            | Inr f \<Rightarrow> (Inr f, g\<lparr>stg_files := List.insert f (stg_files g)\<rparr>)))"

text \<open>The documents of a commit; \<open>ids\<close> is what successive calls of \<open>newID\<close> return.\<close>

fun commit_docs ::
  "(rune \<Rightarrow> rune) \<Rightarrow> (rune \<Rightarrow> bool) \<Rightarrow> path list \<Rightarrow> (path \<Rightarrow> fstat option) \<Rightarrow> (nat \<Rightarrow> string option) \<Rightarrow> nat \<Rightarrow>
   new_document list \<Rightarrow> store_error + document list" where
  "commit_docs low pr fs lstat ids i [] = Inr []"
| "commit_docs low pr fs lstat ids i (d # ds) =
     (if nd_path d \<notin> set fs then Inl (ErrForeignFile (nd_path d))
      else (case lstat (nd_path d) of
        None \<Rightarrow> Inl ErrIO
      | Some fi \<Rightarrow>
          if \<not> fs_regular fi then Inl (ErrNotRegular (nd_path d))
          else (case ids i of
            None \<Rightarrow> Inl ErrEntropy
          | Some did \<Rightarrow>
              (case commit_docs low pr fs lstat ids (i + 1) ds of
                 Inl e \<Rightarrow> Inl e
               | Inr docs \<Rightarrow>
                   Inr (\<lparr>doc_id = did, display_name = sanitize_display_name low pr (nd_display_name d),
                         doc_path = path_clean (nd_path d), doc_size = fs_size fi, ocr_applied = False\<rparr> # docs)))))"

definition commit ::
  "(rune \<Rightarrow> rune) \<Rightarrow> (rune \<Rightarrow> bool) \<Rightarrow> (path \<Rightarrow> fstat option) \<Rightarrow> (nat \<Rightarrow> string option) \<Rightarrow> time \<Rightarrow> new_job \<Rightarrow>
   staging \<Rightarrow> store \<Rightarrow> (store_error + job) \<times> staging \<times> store \<times> effect list" where
  "commit low pr lstat ids now n g s =
     (case stg_state g of
        StagingCommitted \<Rightarrow> (Inl ErrAlreadyCommitted, g, s, [])
      | StagingAborted \<Rightarrow> (Inl ErrAlreadyAborted, g, s, [])
      | StagingOpen \<Rightarrow>
          if nj_documents n = [] then (Inl ErrNoDocuments, g, s, [])
          else (case commit_docs low pr (stg_files g) lstat ids 0 (nj_documents n) of
            Inl e \<Rightarrow> (Inl e, g, s, [])
          | Inr docs \<Rightarrow>
              (case ids (length (nj_documents n)) of
                 None \<Rightarrow> (Inl ErrEntropy, g, s, [])
               | Some jid \<Rightarrow>
                   let j = \<lparr>job_id = jid, received_at = now, expires_at = now + store_ttl s,
                            job_profile = nj_profile n, caps = nj_caps n,
                            subject = sanitize_subject pr (nj_subject n),
                            recipients = [] @ nj_recipients n, documents = docs,
                            status = StatusPending, job_error = []\<rparr>
                   in (case commit_reservation (stg_id g) j (stg_dir g) (stg_files g) s of
                         (Inl e, s1, effs) \<Rightarrow> (Inl e, g, s1, effs)
                       | (Inr u, s1, effs) \<Rightarrow>
                           (Inr (clone_job j), g\<lparr>stg_state := StagingCommitted\<rparr>, s1, effs)))))"

definition abort :: "staging \<Rightarrow> store \<Rightarrow> staging \<times> store \<times> effect list" where
  "abort g s =
     (if stg_state g \<noteq> StagingOpen then (g, s, [])
      else (g\<lparr>stg_state := StagingAborted\<rparr>, release_reservation (stg_id g) s, [RemoveAll (stg_dir g)]))"

end
