(* ===== verification/Store_Budget.thy ===== *)
theory Store_Budget
  imports Store
begin

text \<open>
  The budget of the job store: the closed form of the eviction loop, the accounting invariant
  \<open>budget_ok\<close> (\<open>used\<close> is the sum of every charge, what is held fits in the budget), and one lemma per
  operation that keeps it.
\<close>

section \<open>The eviction loop in closed form\<close>

definition evict_record :: "job_record \<Rightarrow> job_record" where
  "evict_record r = (tombstone r)\<lparr>rec_bytes := 0\<rparr>"

definition evict_all :: "string list \<Rightarrow> (string \<times> job_record) list \<Rightarrow> (string \<times> job_record) list" where
  "evict_all ks al = map (\<lambda>p. (fst p, if fst p \<in> set ks then evict_record (snd p) else snd p)) al"

lemma evict_record_simps [simp]:
  "rec_bytes (evict_record r) = 0" "rec_dir (evict_record r) = rec_dir r" "rec_files (evict_record r) = []"
  "status (rec_job (evict_record r)) = StatusEvicted" "documents (rec_job (evict_record r)) = []"
  "job_error (rec_job (evict_record r)) = []" "job_id (rec_job (evict_record r)) = job_id (rec_job r)"
  "received_at (rec_job (evict_record r)) = received_at (rec_job r)"
  "expires_at (rec_job (evict_record r)) = expires_at (rec_job r)"
  "recipients (rec_job (evict_record r)) = recipients (rec_job r)"
  "caps (rec_job (evict_record r)) = caps (rec_job r)"
  by (simp_all add: evict_record_def tombstone_def)

lemma finished_simps [simp]:
  "finished StatusReady" "finished StatusFailed" "\<not> finished StatusPending"
  "\<not> finished StatusProcessing" "\<not> finished StatusEvicted"
  by (simp_all add: finished_def)

lemma keys_evict_all [simp]: "map fst (evict_all ks al) = map fst al"
  by (simp add: evict_all_def)

lemma evict_all_Nil [simp]: "evict_all [] al = al" "evict_all ks [] = []"
  by (simp_all add: evict_all_def)

lemma evict_all_Cons: "distinct (map fst al) \<Longrightarrow>
  evict_all ks (AList.map_entry k evict_record al) = evict_all (k # ks) al"
  by (induction al)
     (auto simp: evict_all_def asum_map_entry_absent evict_record_def tombstone_def image_iff)

lemma map_of_evict_all:
  "map_of (evict_all ks al) k = map_option (\<lambda>r. if k \<in> set ks then evict_record r else r) (map_of al k)"
  by (induction al) (auto simp: evict_all_def)

lemma in_evict_all:
  "(k, r) \<in> set (evict_all ks al) \<longleftrightarrow>
   (\<exists>r0. (k, r0) \<in> set al \<and> r = (if k \<in> set ks then evict_record r0 else r0))"
  by (force simp: evict_all_def)

lemma charge_simp:
  "map_of (jobs s) k = Some r \<Longrightarrow>
   charge k n s = s\<lparr>used := used s + (n - rec_bytes r),
                    jobs := AList.map_entry k (\<lambda>r. r\<lparr>rec_bytes := n\<rparr>) (jobs s)\<rparr>"
  by (simp add: charge_def)

lemma map_entry_comp:
  "AList.map_entry k f (AList.map_entry k g al) = AList.map_entry k (\<lambda>v. f (g v)) al"
  by (induction al) auto

lemma evict_step:
  assumes "map_of (jobs s) k = Some r"
  shows "charge k 0 (s\<lparr>jobs := AList.map_entry k tombstone (jobs s)\<rparr>) =
         s\<lparr>jobs := AList.map_entry k evict_record (jobs s), used := used s - rec_bytes r\<rparr>"
proof -
  have "map_of (jobs (s\<lparr>jobs := AList.map_entry k tombstone (jobs s)\<rparr>)) k = Some (tombstone r)"
    using assms by (simp add: map_of_map_entry')
  then have "charge k 0 (s\<lparr>jobs := AList.map_entry k tombstone (jobs s)\<rparr>) =
      s\<lparr>jobs := AList.map_entry k (\<lambda>r. r\<lparr>rec_bytes := 0\<rparr>) (AList.map_entry k tombstone (jobs s)),
        used := used s - rec_bytes (tombstone r)\<rparr>"
    by (simp add: charge_simp)
  moreover have "rec_bytes (tombstone r) = rec_bytes r" by (simp add: tombstone_def)
  moreover have "(\<lambda>r. (tombstone r)\<lparr>rec_bytes := 0\<rparr>) = evict_record"
    by (simp add: evict_record_def fun_eq_iff)
  ultimately show ?thesis by (simp add: map_entry_comp)
qed

definition bytes_of :: "(string \<times> job_record) list \<Rightarrow> int" where
  "bytes_of ev = asum rec_bytes ev"

lemma bytes_of_simps [simp]: "bytes_of [] = 0" "bytes_of ((k, r) # ev) = rec_bytes r + bytes_of ev"
  by (simp_all add: bytes_of_def)

lemma evict_loop_closed:
  assumes "evict_loop cs held s = (t, ev)" "distinct (map fst cs)" "distinct (map fst (jobs s))"
    "\<forall>(k, r) \<in> set cs. map_of (jobs s) k = Some r"
  shows "\<exists>n \<le> length cs. ev = take n cs \<and>
           t = s\<lparr>jobs := evict_all (map fst ev) (jobs s), used := used s - bytes_of ev\<rparr> \<and>
           (held - bytes_of ev \<le> max_bytes s \<or> n = length cs) \<and>
           (\<forall>m < n. max_bytes s < held - bytes_of (take m cs))"
  using assms
proof (induction cs arbitrary: held s t ev)
  case Nil
  then show ?case by simp
next
  case (Cons c cs)
  obtain k r where c: "c = (k, r)" by (cases c)
  have r: "map_of (jobs s) k = Some r" using Cons.prems c by auto
  let ?s1 = "s\<lparr>jobs := AList.map_entry k evict_record (jobs s), used := used s - rec_bytes r\<rparr>"
  show ?case
  proof (cases "held \<le> max_bytes s")
    case True
    with Cons.prems c show ?thesis by (intro exI [of _ 0]) auto
  next
    case False
    obtain t2 ev2 where loop: "evict_loop cs (held - rec_bytes r) ?s1 = (t2, ev2)"
      by (cases "evict_loop cs (held - rec_bytes r) ?s1")
    with False Cons.prems c have t: "t = t2" "ev = (k, r) # ev2"
      by (auto simp: evict_step [OF r] Let_def)
    have "\<forall>(k', r') \<in> set cs. map_of (jobs ?s1) k' = Some r'"
      using Cons.prems(2,4) c by (force simp: map_of_map_entry')
    with Cons.IH [OF loop] Cons.prems obtain n where n: "n \<le> length cs" "ev2 = take n cs"
      "t2 = ?s1\<lparr>jobs := evict_all (map fst ev2) (jobs ?s1), used := used ?s1 - bytes_of ev2\<rparr>"
      "held - rec_bytes r - bytes_of ev2 \<le> max_bytes s \<or> n = length cs"
      "\<forall>m < n. max_bytes s < held - rec_bytes r - bytes_of (take m cs)"
      by auto
    have "t = s\<lparr>jobs := evict_all (map fst ev) (jobs s), used := used s - bytes_of ev\<rparr>"
      using n(3) t evict_all_Cons [OF Cons.prems(3), of "map fst ev2" k] by simp
    moreover have "max_bytes s < held - bytes_of (take m (c # cs))" if "m < Suc n" for m
      using that n(5) False c by (cases m) auto
    ultimately show ?thesis
      using n t c by (intro exI [of _ "Suc n"]) auto
  qed
qed

lemma candidates_facts:
  assumes "distinct (map fst (jobs s))"
  shows "distinct (map fst (candidates s))" "\<forall>(k, r) \<in> set (candidates s). map_of (jobs s) k = Some r"
    "set (candidates s) = {(k, r) \<in> set (jobs s). 0 < rec_bytes r \<and> finished (status (rec_job r))}"
    "sorted (map (\<lambda>p. received_at (rec_job (snd p))) (candidates s))"
proof -
  let ?f = "filter (\<lambda>p. 0 < rec_bytes (snd p) \<and> finished (status (rec_job (snd p)))) (jobs s)"
  have d: "distinct ?f" "inj_on fst (set ?f)"
    using assms by (auto simp: distinct_map intro: inj_on_subset)
  show "distinct (map fst (candidates s))" using d by (simp add: candidates_def distinct_map)
  show "\<forall>(k, r) \<in> set (candidates s). map_of (jobs s) k = Some r"
    using assms by (auto simp: candidates_def)
  show "set (candidates s) = {(k, r) \<in> set (jobs s). 0 < rec_bytes r \<and> finished (status (rec_job r))}"
    by (auto simp: candidates_def)
  show "sorted (map (\<lambda>p. received_at (rec_job (snd p))) (candidates s))"
    by (simp add: candidates_def)
qed

text \<open>What making room does: a shortest prefix of the candidates, oldest first, is evicted.\<close>

lemma make_room_closed:
  assumes "make_room_locked s = (t, ev)" "distinct (map fst (jobs s))"
  obtains n where "n \<le> length (candidates s)" "ev = take n (candidates s)"
    "t = s\<lparr>jobs := evict_all (map fst ev) (jobs s), used := used s - bytes_of ev\<rparr>"
    "held_bytes s - bytes_of ev \<le> max_bytes s \<or> n = length (candidates s)"
    "\<forall>m < n. max_bytes s < held_bytes s - bytes_of (take m (candidates s))"
proof (cases "held_bytes s \<le> max_bytes s")
  case True
  with assms(1) have "t = s" "ev = []" by (simp_all add: make_room_locked_def)
  with True show thesis by (intro that [of 0]) simp_all
next
  case False
  with assms(1) have "evict_loop (candidates s) (held_bytes s) s = (t, ev)"
    by (simp add: make_room_locked_def)
  from evict_loop_closed [OF this candidates_facts(1) [OF assms(2)] assms(2) candidates_facts(2) [OF assms(2)]]
  show thesis using that by blast
qed

text \<open>Making room keeps every entry of the map, and the record of every unfinished job.\<close>

lemma make_room_entries:
  assumes "make_room_locked s = (t, ev)" "distinct (map fst (jobs s))"
  shows "map fst (jobs t) = map fst (jobs s)"
    "map_of (jobs s) k = Some r \<Longrightarrow> \<not> finished (status (rec_job r)) \<Longrightarrow> map_of (jobs t) k = Some r"
proof -
  obtain n u where ev: "ev = take n (candidates s)" and t: "t = s\<lparr>jobs := evict_all (map fst ev) (jobs s), used := u\<rparr>"
    using make_room_closed [OF assms] by metis
  show "map fst (jobs t) = map fst (jobs s)" by (simp add: t)
  show "map_of (jobs t) k = Some r" if k: "map_of (jobs s) k = Some r" "\<not> finished (status (rec_job r))"
  proof -
    have "k \<notin> set (map fst ev)"
    proof
      assume "k \<in> set (map fst ev)"
      then obtain r' where "(k, r') \<in> set (candidates s)" by (auto simp: ev dest: in_set_takeD)
      then have "map_of (jobs s) k = Some r'" "finished (status (rec_job r'))"
        using candidates_facts(2,3) [OF assms(2)] by auto
      with k show False by simp
    qed
    with k show ?thesis by (simp add: t map_of_evict_all)
  qed
qed

section \<open>The accounting invariant\<close>

definition record_budget :: "string \<Rightarrow> job_record \<Rightarrow> bool" where
  "record_budget k r \<longleftrightarrow>
     job_id (rec_job r) = k \<and> 0 \<le> rec_bytes r \<and>
     (\<forall>d \<in> set (documents (rec_job r)). 0 \<le> doc_size d) \<and>
     (status (rec_job r) = StatusEvicted \<longrightarrow> rec_bytes r = 0 \<and> documents (rec_job r) = [] \<and> rec_files r = []) \<and>
     (finished (status (rec_job r)) \<longrightarrow> rec_bytes r = doc_bytes (documents (rec_job r))) \<and>
     (status (rec_job r) \<noteq> StatusFailed \<longrightarrow> job_error (rec_job r) = [])"

definition unfinished_bytes :: "job_record \<Rightarrow> int" where
  "unfinished_bytes r = (if finished (status (rec_job r)) then 0 else rec_bytes r)"

definition books_ok :: "store \<Rightarrow> bool" where
  "books_ok s \<longleftrightarrow>
     distinct (map fst (jobs s)) \<and> distinct (map fst (reservations s)) \<and>
     (\<forall>(k, r) \<in> set (jobs s). record_budget k r) \<and>
     (\<forall>(k, r) \<in> set (reservations s). 0 \<le> res_bytes r) \<and>
     used s = asum rec_bytes (jobs s) + asum res_bytes (reservations s) \<and>
     (store_closed s \<longrightarrow> jobs s = [] \<and> reservations s = []) \<and>
     asum unfinished_bytes (jobs s) + asum res_bytes (reservations s) \<le> max_bytes s \<and>
     0 < max_bytes s"

definition budget_ok :: "store \<Rightarrow> bool" where
  "budget_ok s \<longleftrightarrow> books_ok s \<and> held_bytes s \<le> max_bytes s"

lemma books_recD: "books_ok s \<Longrightarrow> (k, r) \<in> set (jobs s) \<Longrightarrow> record_budget k r"
  by (auto simp: books_ok_def)

lemma held_bytes_books: "books_ok s \<Longrightarrow> held_bytes s = asum rec_bytes (jobs s)"
  by (simp add: books_ok_def held_bytes_def)

lemma asum_evict_all:
  assumes "distinct (map fst al)" "\<forall>(k, r) \<in> set ev. map_of al k = Some r" "distinct (map fst ev)"
  shows "asum rec_bytes (evict_all (map fst ev) al) = asum rec_bytes al - bytes_of ev"
  using assms
proof (induction ev arbitrary: al)
  case (Cons e ev)
  obtain k r where e: "e = (k, r)" by (cases e)
  let ?al = "AList.map_entry k evict_record al"
  have "\<forall>(k', r') \<in> set ev. map_of ?al k' = Some r'"
    using Cons.prems e by (force simp: map_of_map_entry')
  with Cons.IH [of ?al] Cons.prems
  have "asum rec_bytes (evict_all (map fst ev) ?al) = asum rec_bytes ?al - bytes_of ev" by simp
  moreover have "asum rec_bytes ?al = asum rec_bytes al - rec_bytes r"
    using Cons.prems e by (simp add: asum_map_entry [of al k r])
  ultimately show ?case
    using e evict_all_Cons [OF Cons.prems(1), of "map fst ev" k] by simp
qed simp

lemma record_budget_evict: "record_budget k r \<Longrightarrow> record_budget k (evict_record r)"
  by (simp add: record_budget_def)

lemma doc_bytes_nonneg: "\<forall>d \<in> set ds. 0 \<le> doc_size d \<Longrightarrow> 0 \<le> doc_bytes ds"
  by (auto simp: doc_bytes_def intro!: sum_list_nonneg)

lemma asum_unfinished_evict_all:
  "\<forall>(k, r) \<in> set al. k \<in> set ks \<longrightarrow> finished (status (rec_job r)) \<Longrightarrow>
   asum unfinished_bytes (evict_all ks al) = asum unfinished_bytes al"
  unfolding evict_all_def by (induction al) (auto simp: unfinished_bytes_def)

lemma make_room_frame:
  assumes "make_room_locked s = (t, ev)" "distinct (map fst (jobs s))"
  shows "max_bytes t = max_bytes s" "reservations t = reservations s" "store_closed t = store_closed s"
    "store_dir t = store_dir s" "store_ttl t = store_ttl s"
proof -
  obtain js u where "t = s\<lparr>jobs := js, used := u\<rparr>" using make_room_closed [OF assms] by metis
  then show "max_bytes t = max_bytes s" "reservations t = reservations s" "store_closed t = store_closed s"
    "store_dir t = store_dir s" "store_ttl t = store_ttl s" by simp_all
qed

lemma make_room_budget:
  assumes "books_ok s" "make_room_locked s = (t, ev)"
  shows "budget_ok t"
proof -
  from assms(1) have dj: "distinct (map fst (jobs s))" by (simp add: books_ok_def)
  obtain n where n: "ev = take n (candidates s)" "n \<le> length (candidates s)"
    and t: "t = s\<lparr>jobs := evict_all (map fst ev) (jobs s), used := used s - bytes_of ev\<rparr>"
    and fits: "held_bytes s - bytes_of ev \<le> max_bytes s \<or> n = length (candidates s)"
    by (rule make_room_closed [OF assms(2) dj])
  note cand = candidates_facts [OF dj]
  have ev_sub: "set ev \<subseteq> set (candidates s)" using n(1) by (simp add: set_take_subset)
  have dev: "distinct (map fst ev)" using cand(1) n(1) by (simp add: take_map [symmetric])
  have mev: "\<forall>(k, r) \<in> set ev. map_of (jobs s) k = Some r" using cand(2) ev_sub by auto
  have bytes: "asum rec_bytes (jobs t) = asum rec_bytes (jobs s) - bytes_of ev"
    using asum_evict_all [OF dj mev dev] t by simp
  have fin: "\<forall>(k, r) \<in> set (jobs s). k \<in> set (map fst ev) \<longrightarrow> finished (status (rec_job r))"
  proof (clarify)
    fix k r assume kr: "(k, r) \<in> set (jobs s)" "k \<in> set (map fst ev)"
    then obtain r' where r': "(k, r') \<in> set ev" by auto
    then have "r' = r" using mev kr(1) dj by (auto simp: map_of_Some_iff dest: eq_key_imp_eq_value)
    then show "finished (status (rec_job r))" using r' ev_sub cand(3) by auto
  qed
  have unf: "asum unfinished_bytes (jobs t) = asum unfinished_bytes (jobs s)"
    using asum_unfinished_evict_all [OF fin] t by simp
  have recs: "\<forall>(k, r) \<in> set (jobs t). record_budget k r"
    using books_recD [OF assms(1)] record_budget_evict unfolding t by (auto simp: in_evict_all)
  have books: "books_ok t"
    using assms(1) recs bytes unf unfolding t by (auto simp: books_ok_def)
  have "held_bytes t \<le> max_bytes t"
    using fits
  proof
    assume "held_bytes s - bytes_of ev \<le> max_bytes s"
    with t show ?thesis by (simp add: held_bytes_def)
  next
    assume "n = length (candidates s)"
    then have all: "set ev = set (candidates s)" using n(1) by simp
    have "rec_bytes r \<le> unfinished_bytes r" if kr: "(k, r) \<in> set (jobs t)" for k r
    proof -
      from kr t obtain r0 where r0: "(k, r0) \<in> set (jobs s)"
        "r = (if k \<in> set (map fst ev) then evict_record r0 else r0)"
        using in_evict_all by fastforce
      have "k \<in> set (map fst ev)" if "0 < rec_bytes r0" "finished (status (rec_job r0))"
        using that r0(1) all cand(3) by force
      moreover have "rec_bytes r0 \<le> 0" if "k \<notin> set (map fst ev)" "finished (status (rec_job r0))"
        using that calculation not_less by blast
      ultimately show ?thesis using r0(2) by (simp add: unfinished_bytes_def)
    qed
    then have "asum rec_bytes (jobs t) \<le> asum unfinished_bytes (jobs t)" by (rule asum_mono)
    moreover have "0 \<le> asum res_bytes (reservations t)"
      using books by (intro asum_nonneg) (auto simp: books_ok_def)
    ultimately show ?thesis
      using books held_bytes_books [OF books] by (simp add: books_ok_def)
  qed
  with books show ?thesis by (simp add: budget_ok_def)
qed

section \<open>Every operation keeps the books\<close>

lemma budget_books: "budget_ok s \<Longrightarrow> books_ok s"
  by (simp add: budget_ok_def)

lemma books_map_entry:
  assumes "books_ok s" "map_of (jobs s) k = Some r" "record_budget k (g r)"
    "unfinished_bytes (g r) \<le> unfinished_bytes r"
  shows "books_ok (s\<lparr>used := used s + (rec_bytes (g r) - rec_bytes r), jobs := AList.map_entry k g (jobs s)\<rparr>)"
proof -
  have ne: "jobs s \<noteq> []" using assms(2) by auto
  have dj: "distinct (map fst (jobs s))" using assms(1) by (simp add: books_ok_def)
  have "\<forall>(k', r') \<in> set (AList.map_entry k g (jobs s)). record_budget k' r'"
  proof (clarify)
    fix k' r' assume "(k', r') \<in> set (AList.map_entry k g (jobs s))"
    then show "record_budget k' r'"
      using books_recD [OF assms(1)] assms(2,3) dj
      by (auto simp: in_set_map_entry map_of_Some_iff dest: eq_key_imp_eq_value split: if_splits)
  qed
  then show ?thesis
    using assms ne by (simp add: books_ok_def asum_map_entry [OF assms(2)])
qed

lemma budget_map_entry:
  assumes "budget_ok s" "map_of (jobs s) k = Some r" "record_budget k (g r)"
    "unfinished_bytes (g r) \<le> unfinished_bytes r" "rec_bytes (g r) = rec_bytes r"
  shows "budget_ok (s\<lparr>jobs := AList.map_entry k g (jobs s)\<rparr>)"
  using books_map_entry [where g = g, OF budget_books [OF assms(1)] assms(2-4)] assms
  by (simp add: budget_ok_def held_bytes_def)

lemma record_budgetD: "books_ok s \<Longrightarrow> map_of (jobs s) k = Some r \<Longrightarrow> record_budget k r"
  by (auto simp: books_ok_def dest: map_of_SomeD)

lemma unfinished_nonneg: "books_ok s \<Longrightarrow> 0 \<le> asum unfinished_bytes (jobs s)"
  by (rule asum_nonneg) (auto simp: books_ok_def record_budget_def unfinished_bytes_def)

lemma freeable_unfinished: "freeable s = asum rec_bytes (jobs s) - asum unfinished_bytes (jobs s)"
proof -
  have "asum rec_bytes (jobs s) =
        asum (\<lambda>r. (if finished (status (rec_job r)) then rec_bytes r else 0) + unfinished_bytes r) (jobs s)"
    by (rule asum_cong) (simp add: unfinished_bytes_def)
  then show ?thesis unfolding asum_add by (simp add: freeable_def)
qed

text \<open>Admission in terms of what nobody can be asked to give up.\<close>

lemma admits_iff:
  assumes "books_ok s"
  shows "admits_locked s want \<longleftrightarrow>
         asum unfinished_bytes (jobs s) + asum res_bytes (reservations s) + want \<le> max_bytes s"
proof -
  have "asum unfinished_bytes (jobs s) \<le> asum rec_bytes (jobs s)"
    using assms by (intro asum_mono) (auto simp: books_ok_def record_budget_def unfinished_bytes_def)
  then show ?thesis
    using assms by (auto simp: admits_locked_def freeable_unfinished books_ok_def)
qed

lemma reserve_lock_budget:
  assumes "budget_ok s" "0 \<le> want" "\<And>i. idr = Some i \<Longrightarrow> i \<notin> fst ` set (reservations s)"
    "reserve_lock want idr now s = (r, t)"
  shows "budget_ok t"
proof -
  from assms(4) consider "t = s" |
    i where "idr = Some i" "\<not> store_closed s" "admits_locked s want"
      "t = s\<lparr>reservations := AList.update i
                \<lparr>res_dir = path_join (store_dir s) i, reserved_at = now, res_bytes = want\<rparr> (reservations s),
             used := used s + want\<rparr>"
    by (auto simp: reserve_lock_def split: if_splits option.splits)
  then show ?thesis
  proof cases
    case 1
    with assms(1) show ?thesis by simp
  next
    case (2 i)
    from assms(3) 2(1) have "i \<notin> fst ` set (reservations s)" by blast
    with 2 assms(1,2) show ?thesis
      by (auto simp: budget_ok_def books_ok_def held_bytes_def admits_iff [OF budget_books [OF assms(1)]]
               asum_update_fresh keys_update_fresh set_update_fresh)
  qed
qed

lemma release_budget: "budget_ok s \<Longrightarrow> budget_ok (release_reservation i s)"
proof (cases "map_of (reservations s) i")
  case (Some r)
  assume b: "budget_ok s"
  then have "0 \<le> res_bytes r" using Some by (auto simp: budget_ok_def books_ok_def dest: map_of_SomeD)
  with b Some show ?thesis
    by (auto simp: release_reservation_def budget_ok_def books_ok_def held_bytes_def asum_delete
                   in_set_delete distinct_delete)
qed (simp add: release_reservation_def)

lemma reserve_finish_budget:
  "budget_ok s \<Longrightarrow> reserve_finish i mk s = (r, t, e) \<Longrightarrow> budget_ok t"
  by (auto simp: reserve_finish_def Let_def release_budget split: if_splits)

lemma commit_reservation_budget:
  assumes "budget_ok s" "commit_reservation i j dir fs s = (r, t, e)"
    "job_id j \<notin> fst ` set (jobs s)" "status j = StatusPending" "job_error j = []"
    "\<forall>d \<in> set (documents j). 0 \<le> doc_size d"
  shows "budget_ok t"
proof (cases "\<exists>r0. map_of (reservations s) i = Some r0 \<and> \<not> store_closed s")
  case False
  with assms(1,2) show ?thesis by (auto simp: commit_reservation_def split: if_splits option.splits)
next
  case True
  then obtain r0 where r0: "map_of (reservations s) i = Some r0" and nc: "\<not> store_closed s" by auto
  let ?s = "s\<lparr>reservations := AList.delete i (reservations s),
      jobs := AList.update (job_id j)
        \<lparr>rec_job = j, rec_dir = dir, rec_bytes = res_bytes r0, rec_files = fs\<rparr> (jobs s)\<rparr>"
  have b: "books_ok s" using assms(1) by (rule budget_books)
  have "0 \<le> res_bytes r0" using b r0 by (auto simp: books_ok_def dest: map_of_SomeD)
  then have "record_budget (job_id j) \<lparr>rec_job = j, rec_dir = dir, rec_bytes = res_bytes r0, rec_files = fs\<rparr>"
    using assms(4-6) by (simp add: record_budget_def)
  then have "books_ok ?s"
    using b r0 nc assms(3,4)
    by (auto simp: books_ok_def asum_delete asum_update_fresh keys_update_fresh set_update_fresh
                   in_set_delete distinct_delete unfinished_bytes_def)
  moreover have "make_room_locked ?s = (t, snd (make_room_locked ?s))"
    using assms(2) r0 nc by (auto simp: commit_reservation_def Let_def split: prod.splits)
  ultimately show ?thesis by (rule make_room_budget)
qed

text \<open>\<open>SetStatus\<close> as one change of one record, then making room.\<close>

definition settle :: "status \<Rightarrow> string \<Rightarrow> time \<Rightarrow> document list \<Rightarrow> job_record \<Rightarrow> job_record" where
  "settle st err exp docs r =
     \<lparr>rec_job = (rec_job r)\<lparr>status := st, job_error := (if st = StatusFailed then err else []), expires_at := exp\<rparr>,
      rec_dir = rec_dir r, rec_bytes = doc_bytes docs,
      rec_files = filter (\<lambda>f. path_clean f \<in> (\<lambda>d. path_clean (doc_path d)) ` set docs) (rec_files r)\<rparr>"

lemma set_status_final:
  assumes "map_of (jobs s) k = Some r" "status (rec_job r) \<noteq> StatusEvicted" "finished st"
  shows "set_status k st err now s =
     (let docs = documents (rec_job r);
          (t, ev) = make_room_locked
            (s\<lparr>used := used s + (doc_bytes docs - rec_bytes r),
               jobs := AList.map_entry k (settle st err (now + store_ttl s) docs) (jobs s)\<rparr>)
      in (Inr (), t, drop_evicted ev @
            map Remove (filter (\<lambda>f. path_clean f \<notin> (\<lambda>d. path_clean (doc_path d)) ` set docs) (rec_files r))))"
proof -
  have settle: "(\<lambda>v. settle st err (now + store_ttl s) docs v) =
     (\<lambda>v. v\<lparr>rec_job := (rec_job v)\<lparr>status := st, job_error := (if st = StatusFailed then err else []),
            expires_at := now + store_ttl s\<rparr>, rec_bytes := doc_bytes docs,
            rec_files := filter (\<lambda>f. path_clean f \<in> (\<lambda>d. path_clean (doc_path d)) ` set docs) (rec_files v)\<rparr>)"
    for docs by (simp add: settle_def fun_eq_iff)
  show ?thesis
    using assms
    by (simp add: set_status_def update_job_def charge_def map_of_map_entry' map_entry_comp settle
                  Let_def comp_def image_image del: image_iff)
qed

lemma set_status_other:
  assumes "map_of (jobs s) k = Some r" "status (rec_job r) \<noteq> StatusEvicted" "\<not> finished st"
  shows "set_status k st err now s =
     (Inr (), update_job k (\<lambda>j. j\<lparr>status := st, job_error := []\<rparr>) s, [])"
  using assms by (auto simp: set_status_def finished_def Let_def)

lemma set_status_gone:
  assumes "\<And>r. map_of (jobs s) k = Some r \<Longrightarrow> status (rec_job r) = StatusEvicted"
  shows "set_status k st err now s = (Inl ErrNotFound, s, [])"
  using assms by (auto simp: set_status_def split: option.splits)

text \<open>The record of a job after a final status: settled, or evicted by the room that was made for it.\<close>

lemma set_status_final_record:
  assumes "books_ok s" "map_of (jobs s) k = Some r" "status (rec_job r) \<noteq> StatusEvicted" "finished st"
    "set_status k st err now s = (res, t, e)"
  shows "res = Inr () \<and>
    (map_of (jobs t) k = Some (settle st err (now + store_ttl s) (documents (rec_job r)) r) \<or>
     map_of (jobs t) k = Some (evict_record (settle st err (now + store_ttl s) (documents (rec_job r)) r)))"
proof -
  let ?docs = "documents (rec_job r)"
  let ?g = "settle st err (now + store_ttl s) ?docs"
  let ?s = "s\<lparr>used := used s + (doc_bytes ?docs - rec_bytes r), jobs := AList.map_entry k ?g (jobs s)\<rparr>"
  obtain ev where mr: "make_room_locked ?s = (t, ev)" and res: "res = Inr ()"
    using assms(5) set_status_final [OF assms(2-4)] by (auto simp: Let_def split: prod.splits)
  have "distinct (map fst (jobs ?s))" using assms(1) by (simp add: books_ok_def)
  then obtain u where t: "t = ?s\<lparr>jobs := evict_all (map fst ev) (jobs ?s), used := u\<rparr>"
    using make_room_closed [OF mr] by metis
  show ?thesis using assms(2) res by (simp add: t map_of_evict_all map_of_map_entry')
qed

text \<open>A status only moves forward: no caller sets an evicted status, or takes a final one back.\<close>

definition forward :: "status \<Rightarrow> status \<Rightarrow> bool" where
  "forward old new \<longleftrightarrow> new \<noteq> StatusEvicted \<and> (finished old \<longrightarrow> finished new)"

lemma doc_bytes_record: "record_budget k r \<Longrightarrow> 0 \<le> doc_bytes (documents (rec_job r))"
  by (simp add: record_budget_def doc_bytes_nonneg)

lemma set_status_budget:
  assumes b: "budget_ok s" and run: "set_status k st err now s = (r, t, e)"
    and fwd: "\<And>r0. map_of (jobs s) k = Some r0 \<Longrightarrow> forward (status (rec_job r0)) st"
  shows "budget_ok t"
proof (cases "\<exists>r0. map_of (jobs s) k = Some r0 \<and> status (rec_job r0) \<noteq> StatusEvicted")
  case False
  with b run set_status_gone [of s k st err now] show ?thesis by auto
next
  case True
  then obtain r0 where r0: "map_of (jobs s) k = Some r0" and ne: "status (rec_job r0) \<noteq> StatusEvicted" by auto
  note rb = record_budgetD [OF budget_books [OF b] r0]
  show ?thesis
  proof (cases "finished st")
    case False
    let ?g = "\<lambda>r. r\<lparr>rec_job := (rec_job r)\<lparr>status := st, job_error := []\<rparr>\<rparr>"
    have "record_budget k (?g r0)" "unfinished_bytes (?g r0) \<le> unfinished_bytes r0"
      using False fwd [OF r0] rb by (auto simp: record_budget_def forward_def unfinished_bytes_def)
    then have "budget_ok (s\<lparr>jobs := AList.map_entry k ?g (jobs s)\<rparr>)"
      by (intro budget_map_entry [OF b r0]) simp_all
    with set_status_other [OF r0 ne False] run show ?thesis by (simp add: update_job_def)
  next
    case True
    let ?docs = "documents (rec_job r0)"
    let ?g = "settle st err (now + store_ttl s) ?docs"
    let ?s = "s\<lparr>used := used s + (doc_bytes ?docs - rec_bytes r0), jobs := AList.map_entry k ?g (jobs s)\<rparr>"
    have g: "record_budget k (?g r0)" "unfinished_bytes (?g r0) \<le> unfinished_bytes r0" "rec_bytes (?g r0) = doc_bytes ?docs"
      using True rb doc_bytes_record [OF rb]
      by (auto simp: record_budget_def settle_def finished_def unfinished_bytes_def)
    have "books_ok ?s" using books_map_entry [where g = ?g, OF budget_books [OF b] r0 g(1,2)] g(3) by simp
    moreover have "make_room_locked ?s = (t, snd (make_room_locked ?s))"
      using run set_status_final [OF r0 ne True] by (auto simp: Let_def split: prod.splits)
    ultimately show ?thesis by (rule make_room_budget)
  qed
qed

lemma replace_doc_facts:
  "replace_doc did p sz ocr ds = Some (old, ds') \<Longrightarrow>
   \<exists>u d v. ds = u @ d # v \<and> (\<forall>x \<in> set u. doc_id x \<noteq> did) \<and> doc_id d = did \<and> old = doc_path d \<and>
     ds' = u @ d\<lparr>doc_path := p, doc_size := sz, ocr_applied := ocr\<rparr> # v"
proof (induction ds arbitrary: ds')
  case (Cons x ds)
  show ?case
  proof (cases "doc_id x = did")
    case True
    with Cons.prems show ?thesis by (intro exI [of _ "[]"]) auto
  next
    case False
    with Cons.prems obtain ds'' where r: "replace_doc did p sz ocr ds = Some (old, ds'')" "ds' = x # ds''"
      by (auto split: option.splits)
    then obtain u d v where "ds = u @ d # v \<and> (\<forall>x \<in> set u. doc_id x \<noteq> did) \<and> doc_id d = did \<and>
        old = doc_path d \<and> ds'' = u @ d\<lparr>doc_path := p, doc_size := sz, ocr_applied := ocr\<rparr> # v"
      using Cons.IH by blast
    with r False show ?thesis by (intro exI [of _ "x # u"] exI [of _ d] exI [of _ v]) auto
  qed
qed simp

lemma drop_evicted_Nil [simp]: "drop_evicted [] = []"
  by (simp add: drop_evicted_def)

lemma replace_document_cases:
  assumes "replace_document jid did np ocr lstat s = (r, t, e)"
  obtains (refused) err where "r = Inl err" "t = s" "e = []"
  | (replaced) fi r0 old docs where "lstat np = Some fi" "fs_regular fi" "map_of (jobs s) jid = Some r0"
      "path_clean np \<in> set (rec_files r0)"
      "replace_doc did (path_clean np) (fs_size fi) ocr (documents (rec_job r0)) = Some (old, docs)"
      "\<not> finished (status (rec_job r0))" "r = Inr ()" "t = update_job jid (\<lambda>j. j\<lparr>documents := docs\<rparr>) s"
      "e = (if old \<noteq> path_clean np then [Remove old] else [])"
  | (recharged) fi r0 old docs ev where "lstat np = Some fi" "fs_regular fi" "map_of (jobs s) jid = Some r0"
      "path_clean np \<in> set (rec_files r0)"
      "replace_doc did (path_clean np) (fs_size fi) ocr (documents (rec_job r0)) = Some (old, docs)"
      "finished (status (rec_job r0))" "r = Inr ()"
      "make_room_locked (s\<lparr>used := used s + (doc_bytes docs - rec_bytes r0),
         jobs := AList.map_entry jid
           (\<lambda>r. r\<lparr>rec_job := (rec_job r)\<lparr>documents := docs\<rparr>, rec_bytes := doc_bytes docs\<rparr>) (jobs s)\<rparr>) = (t, ev)"
      "e = drop_evicted ev @ (if old \<noteq> path_clean np then [Remove old] else [])"
  using assms
  by (auto simp: replace_document_def Let_def update_job_def charge_def map_of_map_entry' map_entry_comp
           split: option.splits if_splits prod.splits)

lemma replace_doc_sizes:
  "replace_doc did p sz ocr ds = Some (old, ds') \<Longrightarrow> 0 \<le> sz \<Longrightarrow> \<forall>d \<in> set ds. 0 \<le> doc_size d \<Longrightarrow>
   \<forall>d \<in> set ds'. 0 \<le> doc_size d"
  by (drule replace_doc_facts) auto

lemma replace_document_budget:
  assumes b: "budget_ok s" and run: "replace_document jid did np ocr lstat s = (r, t, e)"
    and sz: "\<And>fi. lstat np = Some fi \<Longrightarrow> 0 \<le> fs_size fi"
  shows "budget_ok t"
  using run
proof (cases rule: replace_document_cases)
  case refused
  with b show ?thesis by simp
next
  case (replaced fi r0 old docs)
  note rb = record_budgetD [OF budget_books [OF b] replaced(3)]
  let ?g = "\<lambda>r. r\<lparr>rec_job := (rec_job r)\<lparr>documents := docs\<rparr>\<rparr>"
  have "\<forall>d \<in> set docs. 0 \<le> doc_size d"
    using replace_doc_sizes [OF replaced(5)] sz [OF replaced(1)] rb by (simp add: record_budget_def)
  then have "record_budget jid (?g r0)"
    using rb replaced(4,6) by (auto simp: record_budget_def)
  then have "budget_ok (s\<lparr>jobs := AList.map_entry jid ?g (jobs s)\<rparr>)"
    by (intro budget_map_entry [OF b replaced(3)]) (simp_all add: unfinished_bytes_def)
  with replaced(8) show ?thesis by (simp add: update_job_def)
next
  case (recharged fi r0 old docs ev)
  note rb = record_budgetD [OF budget_books [OF b] recharged(3)]
  let ?g = "\<lambda>r. r\<lparr>rec_job := (rec_job r)\<lparr>documents := docs\<rparr>, rec_bytes := doc_bytes docs\<rparr>"
  have sizes: "\<forall>d \<in> set docs. 0 \<le> doc_size d"
    using replace_doc_sizes [OF recharged(5)] sz [OF recharged(1)] rb by (simp add: record_budget_def)
  then have "record_budget jid (?g r0)"
    using rb recharged(4,6) doc_bytes_nonneg [OF sizes] by (auto simp: record_budget_def)
  moreover have "unfinished_bytes (?g r0) \<le> unfinished_bytes r0"
    using recharged(6) by (simp add: unfinished_bytes_def)
  ultimately have "books_ok (s\<lparr>used := used s + (rec_bytes (?g r0) - rec_bytes r0),
      jobs := AList.map_entry jid ?g (jobs s)\<rparr>)"
    by (intro books_map_entry [OF budget_books [OF b] recharged(3)])
  then show ?thesis by (intro make_room_budget [OF _ recharged(8)]) simp
qed

lemma create_file_register_cases:
  assumes "create_file_register jid f s = (r, t, e)"
  obtains (gone) "r = Inl ErrNotFound" "t = s" "e = [Remove f]"
      "\<And>r0. map_of (jobs s) jid = Some r0 \<Longrightarrow> status (rec_job r0) = StatusEvicted"
  | (made) r0 where "map_of (jobs s) jid = Some r0" "status (rec_job r0) \<noteq> StatusEvicted" "r = Inr f" "e = []"
      "t = s\<lparr>jobs := AList.map_entry jid (\<lambda>r. r\<lparr>rec_files := List.insert f (rec_files r)\<rparr>) (jobs s)\<rparr>"
  using assms by (auto simp: create_file_register_def split: option.splits if_splits)

lemma create_file_register_budget:
  assumes b: "budget_ok s" and run: "create_file_register jid f s = (r, t, e)"
  shows "budget_ok t"
  using run
proof (cases rule: create_file_register_cases)
  case gone
  with b show ?thesis by simp
next
  case (made r0)
  let ?g = "\<lambda>r. r\<lparr>rec_files := List.insert f (rec_files r)\<rparr>"
  have "record_budget jid (?g r0)"
    using record_budgetD [OF budget_books [OF b] made(1)] made(2) by (simp add: record_budget_def)
  then have "budget_ok (s\<lparr>jobs := AList.map_entry jid ?g (jobs s)\<rparr>)"
    by (intro budget_map_entry [OF b made(1)]) (simp_all add: unfinished_bytes_def)
  with made(5) show ?thesis by simp
qed

lemma delete_map_entry: "AList.delete k (AList.map_entry k f al) = AList.delete k al"
  by (induction al) auto

lemma charge_delete:
  "map_of (jobs s) k = Some r \<Longrightarrow>
   (charge k 0 s)\<lparr>jobs := AList.delete k (jobs (charge k 0 s))\<rparr> =
   s\<lparr>used := used s - rec_bytes r, jobs := AList.delete k (jobs s)\<rparr>"
  by (simp add: charge_def delete_map_entry)

lemma budget_drop_job:
  assumes "budget_ok s" "map_of (jobs s) k = Some r"
  shows "budget_ok (s\<lparr>used := used s - rec_bytes r, jobs := AList.delete k (jobs s)\<rparr>)"
proof -
  have d: "distinct (map fst (jobs s))" using assms(1) by (simp add: budget_ok_def books_ok_def)
  note rb = record_budgetD [OF budget_books [OF assms(1)] assms(2)]
  then have "0 \<le> rec_bytes r" "0 \<le> unfinished_bytes r" by (auto simp: record_budget_def unfinished_bytes_def)
  with assms show ?thesis
    by (auto simp: budget_ok_def books_ok_def held_bytes_def asum_delete [OF d assms(2)]
                   in_set_delete distinct_delete)
qed

lemma budget_drop_reservation:
  assumes "budget_ok s" "map_of (reservations s) k = Some r"
  shows "budget_ok (s\<lparr>used := used s - res_bytes r, reservations := AList.delete k (reservations s)\<rparr>)"
  using release_budget [OF assms(1), of k] assms(2) by (simp add: release_reservation_def)

lemma delete_budget: "budget_ok s \<Longrightarrow> delete k s = (r, t, e) \<Longrightarrow> budget_ok t"
  by (auto simp: delete_def charge_delete budget_drop_job split: option.splits)

text \<open>What the sweeps leave: exactly the entries they did not find due.\<close>

lemma filter_delete:
  "(\<And>v. (k, v) \<in> set al \<Longrightarrow> \<not> P (k, v)) \<Longrightarrow> filter P (AList.delete k al) = filter P al"
  by (induction al) auto

lemma sweep_jobs_budget:
  assumes "sweep_jobs rs now s = (t, dirs)" "budget_ok s" "distinct (map fst rs)"
    "\<forall>(k, r) \<in> set rs. map_of (jobs s) k = Some r"
  shows "budget_ok t"
  using assms
proof (induction rs arbitrary: s t dirs)
  case (Cons p rs)
  obtain k r where p: "p = (k, r)" by (cases p)
  have r: "map_of (jobs s) k = Some r" using Cons.prems p by auto
  let ?s = "s\<lparr>used := used s - rec_bytes r, jobs := AList.delete k (jobs s)\<rparr>"
  show ?case
  proof (cases "live (rec_job r) now")
    case True
    with Cons.prems p have "sweep_jobs rs now s = (t, dirs)" by simp
    from Cons.IH [OF this] Cons.prems show ?thesis by auto
  next
    case False
    with Cons.prems(1) p obtain dirs' where sw: "sweep_jobs rs now ?s = (t, dirs')"
      by (auto simp: charge_delete [OF r] Let_def split: prod.splits)
    have "\<forall>(k', r') \<in> set rs. map_of (jobs ?s) k' = Some r'"
      using Cons.prems(3,4) p by (force simp: map_of_delete')
    with Cons.IH [OF sw budget_drop_job [OF Cons.prems(2) r]] Cons.prems(3) p show ?thesis by simp
  qed
qed simp

lemma sweep_reservations_budget:
  assumes "sweep_reservations rs now s = (t, dirs)" "budget_ok s" "distinct (map fst rs)"
    "\<forall>(k, r) \<in> set rs. map_of (reservations s) k = Some r"
  shows "budget_ok t"
  using assms
proof (induction rs arbitrary: s t dirs)
  case (Cons p rs)
  obtain k r where p: "p = (k, r)" by (cases p)
  have r: "map_of (reservations s) k = Some r" using Cons.prems p by auto
  let ?s = "s\<lparr>used := used s - res_bytes r, reservations := AList.delete k (reservations s)\<rparr>"
  show ?case
  proof (cases "now - reserved_at r > stale_reservation_after")
    case False
    with Cons.prems p have "sweep_reservations rs now s = (t, dirs)" by simp
    from Cons.IH [OF this] Cons.prems show ?thesis by auto
  next
    case True
    with Cons.prems(1) p obtain dirs' where sw: "sweep_reservations rs now ?s = (t, dirs')"
      by (auto split: prod.splits)
    have "\<forall>(k', r') \<in> set rs. map_of (reservations ?s) k' = Some r'"
      using Cons.prems(3,4) p by (force simp: map_of_delete')
    with Cons.IH [OF sw budget_drop_reservation [OF Cons.prems(2) r]] Cons.prems(3) p show ?thesis by simp
  qed
qed simp

lemma clean_expired_budget:
  assumes b: "budget_ok s" and run: "clean_expired now s = (n, t, e)"
  shows "budget_ok t"
proof -
  obtain s1 d1 where s1: "sweep_jobs (jobs s) now s = (s1, d1)" by (cases "sweep_jobs (jobs s) now s")
  have b1: "budget_ok s1"
    by (rule sweep_jobs_budget [OF s1 b]) (use b in \<open>auto simp: budget_ok_def books_ok_def\<close>)
  obtain s2 d2 where s2: "sweep_reservations (reservations s1) now s1 = (s2, d2)"
    by (cases "sweep_reservations (reservations s1) now s1")
  have "budget_ok s2"
    by (rule sweep_reservations_budget [OF s2 b1]) (use b1 in \<open>auto simp: budget_ok_def books_ok_def\<close>)
  with run s1 s2 show ?thesis by (simp add: clean_expired_def)
qed

lemma close_budget: "budget_ok s \<Longrightarrow> close_store s = (t, e) \<Longrightarrow> budget_ok t"
  by (auto simp: close_store_def budget_ok_def books_ok_def held_bytes_def split: if_splits)

lemma new_store_budget: "new_store root ab prep ttl mb = Inr s \<Longrightarrow> budget_ok s"
  by (auto simp: new_store_def Let_def budget_ok_def books_ok_def held_bytes_def
           split: if_splits option.splits)

lemma commit_docs_facts:
  "commit_docs low pr fs lstat ids i ds = Inr docs \<Longrightarrow>
   length docs = length ds \<and>
   (\<forall>n < length ds. nd_path (ds ! n) \<in> set fs \<and> ids (i + n) = Some (doc_id (docs ! n)) \<and>
      doc_path (docs ! n) = path_clean (nd_path (ds ! n)) \<and> \<not> ocr_applied (docs ! n) \<and>
      display_name (docs ! n) = sanitize_display_name low pr (nd_display_name (ds ! n)) \<and>
      (\<exists>fi. lstat (nd_path (ds ! n)) = Some fi \<and> fs_regular fi \<and> doc_size (docs ! n) = fs_size fi))"
proof (induction ds arbitrary: i docs)
  case (Cons d ds)
  from Cons.prems obtain fi did docs' where c: "nd_path d \<in> set fs" "lstat (nd_path d) = Some fi" "fs_regular fi"
    "ids i = Some did" "commit_docs low pr fs lstat ids (i + 1) ds = Inr docs'"
    "docs = \<lparr>doc_id = did, display_name = sanitize_display_name low pr (nd_display_name d),
             doc_path = path_clean (nd_path d), doc_size = fs_size fi, ocr_applied = False\<rparr> # docs'"
    by (auto split: if_splits option.splits sum.splits)
  from Cons.IH [OF c(5)] c show ?case by (auto simp: nth_Cons split: nat.splits)
qed simp

end
