(* ===== verification/Store_System.thy ===== *)
theory Store_System
  imports Store_Budget
begin

text \<open>
  The store together with the stagings its callers hold, as a transition system: one step per
  critical section of \<open>internal/jobs/store.go\<close>, labelled with what the step removes from disk after
  unlocking. The guards say what the callers and the operating system guarantee: random ids do not
  collide, \<open>os.CreateTemp\<close> makes a new file directly in the directory it is given, sizes are not
  negative, a status moves forward, and a processed document is a new file.
\<close>

section \<open>The system\<close>

record store_system =
  sys_store :: store
  sys_stagings :: "(string \<times> staging) list"
  sys_pending :: "string list"

definition dir_of :: "store \<Rightarrow> string \<Rightarrow> path" where
  "dir_of s i = store_dir s @ ''/'' @ i"

definition file_in :: "path \<Rightarrow> path \<Rightarrow> bool" where
  "file_in d f \<longleftrightarrow> prefix (d @ ''/'') f \<and> normal_comp (drop (length d + 1) f)"

definition unused_id :: "string \<Rightarrow> store_system \<Rightarrow> bool" where
  "unused_id i S \<longleftrightarrow> normal_comp i \<and> i \<notin> set (sys_pending S) \<and> map_of (sys_stagings S) i = None \<and>
     map_of (reservations (sys_store S)) i = None"

definition fresh_file :: "path \<Rightarrow> store \<Rightarrow> bool" where
  "fresh_file f s \<longleftrightarrow> (\<forall>(k, r) \<in> set (jobs s). f \<notin> set (rec_files r))"

inductive sys_step :: "store_system \<Rightarrow> effect list \<Rightarrow> store_system \<Rightarrow> bool" where
  step_reserve:
    "reserve_lock want (Some i) now (sys_store S) = (Inr i, t) \<Longrightarrow> 0 \<le> want \<Longrightarrow> unused_id i S \<Longrightarrow>
     sys_step S [] (S\<lparr>sys_store := t, sys_pending := i # sys_pending S\<rparr>)"
| step_reserve_done:
    "i \<in> set (sys_pending S) \<Longrightarrow> reserve_finish i mk (sys_store S) = (Inr g, t, e) \<Longrightarrow>
     sys_step S e (S\<lparr>sys_store := t, sys_stagings := AList.update i g (sys_stagings S),
                     sys_pending := removeAll i (sys_pending S)\<rparr>)"
| step_reserve_failed:
    "i \<in> set (sys_pending S) \<Longrightarrow> reserve_finish i mk (sys_store S) = (Inl err, t, e) \<Longrightarrow>
     sys_step S e (S\<lparr>sys_store := t, sys_pending := removeAll i (sys_pending S)\<rparr>)"
| step_stage_file:
    "map_of (sys_stagings S) i = Some g \<Longrightarrow> staging_create_file pre mk g = (Inr f, g') \<Longrightarrow>
     file_in (stg_dir g) f \<Longrightarrow>
     sys_step S [] (S\<lparr>sys_stagings := AList.update i g' (sys_stagings S)\<rparr>)"
| step_commit:
    "map_of (sys_stagings S) i = Some g \<Longrightarrow>
     commit low pr lstat ids now n g (sys_store S) = (r, g', t, e) \<Longrightarrow>
     (\<And>p fi. lstat p = Some fi \<Longrightarrow> 0 \<le> fs_size fi) \<Longrightarrow>
     distinct (map nd_path (nj_documents n)) \<Longrightarrow>
     (\<And>jid. ids (length (nj_documents n)) = Some jid \<Longrightarrow> map_of (jobs (sys_store S)) jid = None) \<Longrightarrow>
     sys_step S e (S\<lparr>sys_store := t, sys_stagings := AList.update i g' (sys_stagings S)\<rparr>)"
| step_abort:
    "map_of (sys_stagings S) i = Some g \<Longrightarrow> abort g (sys_store S) = (g', t, e) \<Longrightarrow>
     sys_step S e (S\<lparr>sys_store := t, sys_stagings := AList.update i g' (sys_stagings S)\<rparr>)"
| step_set_status:
    "set_status k st err now (sys_store S) = (r, t, e) \<Longrightarrow>
     (\<And>r0. map_of (jobs (sys_store S)) k = Some r0 \<Longrightarrow> forward (status (rec_job r0)) st) \<Longrightarrow>
     sys_step S e (S\<lparr>sys_store := t\<rparr>)"
| step_replace:
    "replace_document k did np ocr lstat (sys_store S) = (r, t, e) \<Longrightarrow>
     (\<And>fi. lstat np = Some fi \<Longrightarrow> 0 \<le> fs_size fi) \<Longrightarrow>
     (\<And>r0. map_of (jobs (sys_store S)) k = Some r0 \<Longrightarrow> path_clean np \<notin> doc_path ` set (documents (rec_job r0))) \<Longrightarrow>
     sys_step S e (S\<lparr>sys_store := t\<rparr>)"
| step_register:
    "create_file_register k f (sys_store S) = (r, t, e) \<Longrightarrow> fresh_file f (sys_store S) \<Longrightarrow>
     (\<And>r0. map_of (jobs (sys_store S)) k = Some r0 \<Longrightarrow> file_in (rec_dir r0) f) \<Longrightarrow>
     sys_step S e (S\<lparr>sys_store := t\<rparr>)"
| step_delete:
    "delete k (sys_store S) = (r, t, e) \<Longrightarrow> sys_step S e (S\<lparr>sys_store := t\<rparr>)"
| step_clean:
    "clean_expired now (sys_store S) = (n, t, e) \<Longrightarrow> sys_step S e (S\<lparr>sys_store := t\<rparr>)"
| step_close:
    "close_store (sys_store S) = (t, e) \<Longrightarrow> sys_step S e (S\<lparr>sys_store := t\<rparr>)"

definition sys_init :: "store_system \<Rightarrow> bool" where
  "sys_init S \<longleftrightarrow>
     (\<exists>root ab prep ttl mb cs. new_store root ab prep ttl mb = Inr (sys_store S) \<and>
        ab root = Some (abs_path cs) \<and> list_all normal_comp cs) \<and>
     sys_stagings S = [] \<and> sys_pending S = []"

definition sys_next :: "store_system \<Rightarrow> store_system \<Rightarrow> bool" where
  "sys_next S T \<longleftrightarrow> (\<exists>e. sys_step S e T)"

section \<open>The budget holds in every reachable state\<close>

lemma commit_cases:
  assumes "commit low pr lstat ids now n g s = (r, g', t, e)"
  obtains (refused) err where "r = Inl err" "g' = g" "t = s" "e = []"
  | (committed) docs jid j r0 ev where "stg_state g = StagingOpen" "nj_documents n \<noteq> []"
      "commit_docs low pr (stg_files g) lstat ids 0 (nj_documents n) = Inr docs"
      "ids (length (nj_documents n)) = Some jid"
      "j = \<lparr>job_id = jid, received_at = now, expires_at = now + store_ttl s, job_profile = nj_profile n,
            caps = nj_caps n, subject = sanitize_subject pr (nj_subject n), recipients = nj_recipients n,
            documents = docs, status = StatusPending, job_error = []\<rparr>"
      "\<not> store_closed s" "map_of (reservations s) (stg_id g) = Some r0"
      "make_room_locked (s\<lparr>reservations := AList.delete (stg_id g) (reservations s),
         jobs := AList.update jid \<lparr>rec_job = j, rec_dir = stg_dir g, rec_bytes = res_bytes r0,
                                  rec_files = stg_files g\<rparr> (jobs s)\<rparr>) = (t, ev)"
      "r = Inr j" "g' = g\<lparr>stg_state := StagingCommitted\<rparr>" "e = drop_evicted ev"
      "commit_reservation (stg_id g) j (stg_dir g) (stg_files g) s = (Inr (), t, e)"
proof (cases "\<exists>docs jid r0. stg_state g = StagingOpen \<and> nj_documents n \<noteq> [] \<and>
    commit_docs low pr (stg_files g) lstat ids 0 (nj_documents n) = Inr docs \<and>
    ids (length (nj_documents n)) = Some jid \<and> \<not> store_closed s \<and> map_of (reservations s) (stg_id g) = Some r0")
  case False
  with assms have "\<exists>err. r = Inl err \<and> g' = g \<and> t = s \<and> e = []"
    by (auto simp: commit_def commit_reservation_def Let_def
             split: staging_state.splits if_splits sum.splits option.splits)
  with refused show thesis by blast
next
  case True
  then obtain docs jid r0 where c: "stg_state g = StagingOpen" "nj_documents n \<noteq> []"
    "commit_docs low pr (stg_files g) lstat ids 0 (nj_documents n) = Inr docs"
    "ids (length (nj_documents n)) = Some jid" "\<not> store_closed s" "map_of (reservations s) (stg_id g) = Some r0"
    by blast
  let ?j = "\<lparr>job_id = jid, received_at = now, expires_at = now + store_ttl s, job_profile = nj_profile n,
            caps = nj_caps n, subject = sanitize_subject pr (nj_subject n), recipients = nj_recipients n,
            documents = docs, status = StatusPending, job_error = []\<rparr>"
  obtain t' ev where mr: "make_room_locked (s\<lparr>reservations := AList.delete (stg_id g) (reservations s),
         jobs := AList.update jid \<lparr>rec_job = ?j, rec_dir = stg_dir g, rec_bytes = res_bytes r0,
                                  rec_files = stg_files g\<rparr> (jobs s)\<rparr>) = (t', ev)"
    by (cases "make_room_locked (s\<lparr>reservations := AList.delete (stg_id g) (reservations s),
         jobs := AList.update jid \<lparr>rec_job = ?j, rec_dir = stg_dir g, rec_bytes = res_bytes r0,
                                  rec_files = stg_files g\<rparr> (jobs s)\<rparr>)")
  then have cr: "commit_reservation (stg_id g) ?j (stg_dir g) (stg_files g) s = (Inr (), t', drop_evicted ev)"
    using c by (simp add: commit_reservation_def Let_def)
  with assms c have "r = Inr ?j" "g' = g\<lparr>stg_state := StagingCommitted\<rparr>" "t = t'" "e = drop_evicted ev"
    by (simp_all add: commit_def Let_def)
  with committed [OF c(1-4) refl c(5,6)] mr cr show thesis by simp
qed

lemma commit_budget:
  assumes b: "budget_ok s" and run: "commit low pr lstat ids now n g s = (r, g', t, e)"
    and sz: "\<And>p fi. lstat p = Some fi \<Longrightarrow> 0 \<le> fs_size fi"
    and fresh: "\<And>jid. ids (length (nj_documents n)) = Some jid \<Longrightarrow> map_of (jobs s) jid = None"
  shows "budget_ok t"
  using run
proof (cases rule: commit_cases)
  case refused
  with b show ?thesis by simp
next
  case (committed docs jid j r0 ev)
  have "\<forall>d \<in> set docs. 0 \<le> doc_size d"
    using commit_docs_facts [OF committed(3)] sz by (auto simp: in_set_conv_nth) metis
  with committed(5) fresh [OF committed(4)] show ?thesis
    by (intro commit_reservation_budget [OF b committed(12)]) (auto simp: map_of_None_iff_fst)
qed

lemma sys_step_budget:
  assumes "sys_step S e T" "budget_ok (sys_store S)"
  shows "budget_ok (sys_store T)"
  using assms
proof cases
  case (step_reserve want i now t)
  with assms(2) show ?thesis
    by (auto intro!: reserve_lock_budget [OF assms(2) step_reserve(4) _ step_reserve(3)]
             simp: unused_id_def map_of_None_iff_fst)
next
  case (step_commit i g low pr lstat ids now n r g' t)
  with assms(2) commit_budget [OF assms(2) step_commit(3,4,6)] show ?thesis by simp
next
  case (step_reserve_done i mk g t)
  with assms(2) show ?thesis by (simp add: reserve_finish_budget [OF assms(2) step_reserve_done(3)])
next
  case (step_reserve_failed i mk err t)
  with assms(2) show ?thesis by (simp add: reserve_finish_budget [OF assms(2) step_reserve_failed(3)])
next
  case (step_abort i g g' t)
  with assms(2) show ?thesis by (auto simp: abort_def release_budget split: if_splits)
next
  case (step_set_status k st err now r t)
  then show ?thesis by (simp add: set_status_budget [OF assms(2) step_set_status(2,3)])
next
  case (step_replace k did np ocr lstat r t)
  then show ?thesis by (simp add: replace_document_budget [OF assms(2) step_replace(2,3)])
next
  case (step_register k f r t)
  then show ?thesis by (simp add: create_file_register_budget [OF assms(2) step_register(2)])
next
  case (step_delete k r t)
  then show ?thesis by (simp add: delete_budget [OF assms(2) step_delete(2)])
next
  case (step_clean now n t)
  then show ?thesis by (simp add: clean_expired_budget [OF assms(2) step_clean(2)])
next
  case (step_close t)
  then show ?thesis by (simp add: close_budget [OF assms(2) step_close(2)])
qed (use assms(2) in simp)

lemma sys_init_budget: "sys_init S \<Longrightarrow> budget_ok (sys_store S)"
  by (auto simp: sys_init_def intro: new_store_budget)

interpretation store_budget: invariant_system sys_init sys_next "\<lambda>S. budget_ok (sys_store S)"
  by unfold_locales (auto simp: sys_next_def intro: sys_init_budget sys_step_budget)

abbreviation reachable_store :: "store_system \<Rightarrow> bool" where
  "reachable_store \<equiv> reachable_by sys_init sys_next"

end
