(* ===== verification/Store_Files.thy ===== *)
theory Store_Files
  imports Store_System
begin

text \<open>
  Files and directories of the store: every document of a job is a file the store created in that
  job's own directory, no two jobs share a directory, and no operation of the store removes a file
  that a job still listed afterwards points at.
\<close>

section \<open>Directories\<close>

definition removes :: "effect list \<Rightarrow> path \<Rightarrow> bool" where
  "removes es p \<longleftrightarrow>
     (\<exists>x \<in> set es. case x of RemoveAll d \<Rightarrow> p = d \<or> prefix (d @ ''/'') p | Remove f \<Rightarrow> p = f)"

lemma removes_simps [simp]:
  "\<not> removes [] p"
  "removes (RemoveAll d # es) p \<longleftrightarrow> p = d \<or> prefix (d @ ''/'') p \<or> removes es p"
  "removes (Remove f # es) p \<longleftrightarrow> p = f \<or> removes es p"
  "removes (es @ fs) p \<longleftrightarrow> removes es p \<or> removes fs p"
  by (auto simp: removes_def)

lemma removes_map_Remove: "removes (map Remove fs) p \<longleftrightarrow> p \<in> set fs"
  by (induction fs) auto

lemma removes_RemoveAll: "removes (map RemoveAll ds) p \<longleftrightarrow> (\<exists>d \<in> set ds. p = d \<or> prefix (d @ ''/'') p)"
  by (induction ds) auto

lemma removes_drop_evicted:
  "removes (drop_evicted ev) p \<longleftrightarrow> (\<exists>(k, r) \<in> set ev. p = rec_dir r \<or> prefix (rec_dir r @ ''/'') p)"
  by (induction ev) (auto simp: drop_evicted_def)

lemma slash_split:
  "CHR ''/'' \<notin> set i \<Longrightarrow> CHR ''/'' \<notin> set j \<Longrightarrow> i @ CHR ''/'' # u = j @ CHR ''/'' # v \<Longrightarrow> i = j"
proof (induction i arbitrary: j)
  case Nil
  then show ?case by (cases j) auto
next
  case (Cons c i)
  then show ?case by (cases j) auto
qed

lemma file_inD: "file_in d f \<Longrightarrow> \<exists>c. f = d @ ''/'' @ c \<and> normal_comp c"
  by (auto simp: file_in_def prefix_def)

lemma file_in_dirs:
  assumes "file_in (dir_of s i) f" "normal_comp i" "normal_comp j"
    "f = dir_of s j \<or> prefix (dir_of s j @ ''/'') f"
  shows "i = j"
proof -
  obtain c where f: "f = dir_of s i @ ''/'' @ c" using assms(1) file_inD by blast
  have ns: "CHR ''/'' \<notin> set i" "CHR ''/'' \<notin> set j" using assms(2,3) by (simp_all add: normal_comp_def)
  from assms(4) show ?thesis
  proof
    assume "f = dir_of s j"
    with f have "i @ CHR ''/'' # c = j" by (simp add: dir_of_def)
    with ns show ?thesis by auto
  next
    assume "prefix (dir_of s j @ ''/'') f"
    with f obtain u where "i @ CHR ''/'' # c = j @ CHR ''/'' # u" by (auto simp: prefix_def dir_of_def)
    with ns slash_split show ?thesis by blast
  qed
qed

definition root_ok :: "store \<Rightarrow> bool" where
  "root_ok s \<longleftrightarrow> (\<exists>cs. cs \<noteq> [] \<and> list_all normal_comp cs \<and> store_dir s = abs_path cs)"

lemma path_join_dir: "root_ok s \<Longrightarrow> normal_comp i \<Longrightarrow> path_join (store_dir s) i = dir_of s i"
  by (auto simp: root_ok_def dir_of_def path_join_abs)

lemma path_clean_file:
  assumes "root_ok s" "normal_comp i" "file_in (dir_of s i) f"
  shows "path_clean f = f"
proof -
  obtain cs where cs: "cs \<noteq> []" "list_all normal_comp cs" "store_dir s = abs_path cs"
    using assms(1) by (auto simp: root_ok_def)
  obtain c where c: "f = dir_of s i @ ''/'' @ c" "normal_comp c" using assms(3) file_inD by blast
  have "f = abs_path ((cs @ [i]) @ [c])"
    using cs c abs_path_snoc [of "cs @ [i]" c] abs_path_snoc [OF cs(1), of i] by (simp add: dir_of_def)
  moreover have "path_clean (abs_path ((cs @ [i]) @ [c])) = abs_path ((cs @ [i]) @ [c])"
    using cs assms(2) c(2) by (intro path_clean_abs) simp
  ultimately show ?thesis by simp
qed

section \<open>The invariant\<close>

definition record_files :: "job_record \<Rightarrow> bool" where
  "record_files r \<longleftrightarrow>
     distinct (map doc_path (documents (rec_job r))) \<and>
     doc_path ` set (documents (rec_job r)) \<subseteq> set (rec_files r) \<and>
     (\<forall>f \<in> set (rec_files r). file_in (rec_dir r) f)"

definition job_dir_ok :: "store_system \<Rightarrow> path \<Rightarrow> bool" where
  "job_dir_ok S d \<longleftrightarrow>
     (\<exists>i g. normal_comp i \<and> d = dir_of (sys_store S) i \<and>
        map_of (sys_stagings S) i = Some g \<and> stg_state g = StagingCommitted)"

definition staging_ok :: "store_system \<Rightarrow> string \<Rightarrow> staging \<Rightarrow> bool" where
  "staging_ok S i g \<longleftrightarrow>
     normal_comp i \<and> stg_id g = i \<and> stg_dir g = dir_of (sys_store S) i \<and> i \<notin> set (sys_pending S) \<and>
     (\<forall>f \<in> set (stg_files g). file_in (stg_dir g) f)"

definition reservation_ok :: "store_system \<Rightarrow> string \<Rightarrow> reservation \<Rightarrow> bool" where
  "reservation_ok S i r \<longleftrightarrow>
     normal_comp i \<and> res_dir r = dir_of (sys_store S) i \<and>
     (i \<in> set (sys_pending S) \<or> (\<exists>g. map_of (sys_stagings S) i = Some g \<and> stg_state g = StagingOpen))"

definition files_ok :: "store_system \<Rightarrow> bool" where
  "files_ok S \<longleftrightarrow>
     root_ok (sys_store S) \<and>
     (\<forall>k r. (k, r) \<in> set (jobs (sys_store S)) \<longrightarrow> record_files r \<and> job_dir_ok S (rec_dir r)) \<and>
     (\<forall>k r k' r'. (k, r) \<in> set (jobs (sys_store S)) \<longrightarrow> (k', r') \<in> set (jobs (sys_store S)) \<longrightarrow>
        rec_dir r = rec_dir r' \<longrightarrow> k = k') \<and>
     (\<forall>i g. map_of (sys_stagings S) i = Some g \<longrightarrow> staging_ok S i g) \<and>
     (\<forall>i r. (i, r) \<in> set (reservations (sys_store S)) \<longrightarrow> reservation_ok S i r) \<and>
     (\<forall>i \<in> set (sys_pending S). normal_comp i \<and> map_of (sys_stagings S) i = None)"

text \<open>A step that only rewrites, drops or evicts records, and only drops reservations.\<close>

definition refines_files :: "store \<Rightarrow> store \<Rightarrow> bool" where
  "refines_files s t \<longleftrightarrow>
     store_dir t = store_dir s \<and> set (reservations t) \<subseteq> set (reservations s) \<and>
     (\<forall>k r'. (k, r') \<in> set (jobs t) \<longrightarrow>
        record_files r' \<and> (\<exists>r. (k, r) \<in> set (jobs s) \<and> rec_dir r' = rec_dir r))"

lemma dir_of_cong: "store_dir t = store_dir s \<Longrightarrow> dir_of t = dir_of s"
  by (simp add: dir_of_def fun_eq_iff)

lemma refines_files_inv:
  assumes "files_ok S" "refines_files (sys_store S) t"
  shows "files_ok (S\<lparr>sys_store := t\<rparr>)"
proof -
  have d: "dir_of t = dir_of (sys_store S)" using assms(2) by (intro dir_of_cong) (simp add: refines_files_def)
  have r: "root_ok t" using assms unfolding files_ok_def refines_files_def root_ok_def by metis
  have jd: "job_dir_ok (S\<lparr>sys_store := t\<rparr>) = job_dir_ok S" by (simp add: job_dir_ok_def d fun_eq_iff)
  have st: "staging_ok (S\<lparr>sys_store := t\<rparr>) = staging_ok S" by (simp add: staging_ok_def d fun_eq_iff)
  have rs: "reservation_ok (S\<lparr>sys_store := t\<rparr>) = reservation_ok S" by (simp add: reservation_ok_def d fun_eq_iff)
  have recs: "record_files r' \<and> job_dir_ok S (rec_dir r')" if "(k, r') \<in> set (jobs t)" for k r'
    using assms that unfolding refines_files_def files_ok_def by metis
  have dirs: "k = k'" if kk: "(k, r) \<in> set (jobs t)" "(k', r') \<in> set (jobs t)" "rec_dir r = rec_dir r'" for k r k' r'
  proof -
    obtain q q' where "(k, q) \<in> set (jobs (sys_store S))" "(k', q') \<in> set (jobs (sys_store S))"
      "rec_dir r = rec_dir q" "rec_dir r' = rec_dir q'"
      using assms(2) kk unfolding refines_files_def by metis
    with assms(1) kk(3) show ?thesis unfolding files_ok_def by metis
  qed
  have res: "reservation_ok S i x" if "(i, x) \<in> set (reservations t)" for i x
    using assms that unfolding refines_files_def files_ok_def by blast
  have rest: "\<forall>i g. map_of (sys_stagings S) i = Some g \<longrightarrow> staging_ok S i g"
    "\<forall>i \<in> set (sys_pending S). normal_comp i \<and> map_of (sys_stagings S) i = None"
    using assms(1) unfolding files_ok_def by blast+
  show ?thesis
    unfolding files_ok_def jd st rs using recs dirs res rest r by simp
qed

lemma refines_files_refl: "files_ok S \<Longrightarrow> refines_files (sys_store S) (sys_store S)"
  by (auto simp: refines_files_def files_ok_def)

lemma refines_files_trans: "refines_files s t \<Longrightarrow> refines_files t u \<Longrightarrow> refines_files s u"
  unfolding refines_files_def by (metis subset_trans)

definition recs_ok :: "store \<Rightarrow> bool" where
  "recs_ok s \<longleftrightarrow> distinct (map fst (jobs s)) \<and> (\<forall>k r. (k, r) \<in> set (jobs s) \<longrightarrow> record_files r)"

lemma recs_ok_I: "files_ok S \<Longrightarrow> budget_ok (sys_store S) \<Longrightarrow> recs_ok (sys_store S)"
  by (auto simp: recs_ok_def files_ok_def budget_ok_def books_ok_def)

lemma record_files_evict: "record_files (evict_record r)"
  by (simp add: record_files_def)

lemma refines_files_evict:
  assumes "recs_ok s" "make_room_locked s = (t, ev)"
  shows "refines_files s t"
proof -
  obtain u where t: "t = s\<lparr>jobs := evict_all (map fst ev) (jobs s), used := u\<rparr>"
    using make_room_closed [OF assms(2)] assms(1) unfolding recs_ok_def by metis
  show ?thesis
    using assms(1) record_files_evict unfolding t refines_files_def recs_ok_def by (fastforce simp: in_evict_all)
qed

lemma refines_files_map_entry:
  assumes "recs_ok s" "map_of (jobs s) k = Some r" "record_files (g r)" "rec_dir (g r) = rec_dir r"
  shows "refines_files s (s\<lparr>used := u, jobs := AList.map_entry k g (jobs s)\<rparr>)"
    "recs_ok (s\<lparr>used := u, jobs := AList.map_entry k g (jobs s)\<rparr>)"
proof -
  have dj: "distinct (map fst (jobs s))" using assms(1) by (simp add: recs_ok_def)
  have "record_files v \<and> (\<exists>r. (k', r) \<in> set (jobs s) \<and> rec_dir v = rec_dir r)"
    if "(k', v) \<in> set (AList.map_entry k g (jobs s))" for k' v
  proof (cases "k' = k")
    case True
    with that dj obtain w where w: "(k, w) \<in> set (jobs s)" "v = g w" by (auto simp: in_set_map_entry)
    with assms(2) dj have "w = r" by (auto simp: map_of_Some_iff dest: eq_key_imp_eq_value)
    with w assms(3,4) True show ?thesis by auto
  next
    case False
    with that dj assms(1) show ?thesis by (auto simp: in_set_map_entry recs_ok_def)
  qed
  then show "refines_files s (s\<lparr>used := u, jobs := AList.map_entry k g (jobs s)\<rparr>)"
    "recs_ok (s\<lparr>used := u, jobs := AList.map_entry k g (jobs s)\<rparr>)"
    using dj by (auto simp: refines_files_def recs_ok_def)
qed

text \<open>The directories made room from belong to jobs that afterwards have no documents.\<close>

lemma evicted_dirs:
  assumes "make_room_locked s = (t, ev)" "distinct (map fst (jobs s))" "(k, r) \<in> set (jobs t)"
    "documents (rec_job r) \<noteq> []" "(k', r') \<in> set ev"
  shows "k \<noteq> k' \<and> (k', r') \<in> set (jobs s) \<and> (k, r) \<in> set (jobs s)"
proof -
  obtain n u where ev: "ev = take n (candidates s)"
    and t: "t = s\<lparr>jobs := evict_all (map fst ev) (jobs s), used := u\<rparr>"
    using make_room_closed [OF assms(1,2)] by metis
  obtain r0 where r0: "(k, r0) \<in> set (jobs s)" "r = (if k \<in> set (map fst ev) then evict_record r0 else r0)"
    using assms(3) unfolding t by (auto simp: in_evict_all)
  then have "k \<notin> set (map fst ev)" "r = r0" using assms(4) by (auto split: if_splits)
  moreover have "(k', r') \<in> set (jobs s)"
    using assms(5) ev candidates_facts(3) [OF assms(2)] by (auto dest: in_set_takeD)
  ultimately show ?thesis using r0(1) assms(5) by force
qed

section \<open>No step removes a file a job still points at\<close>

definition keeps_documents :: "store \<Rightarrow> effect list \<Rightarrow> bool" where
  "keeps_documents t e \<longleftrightarrow>
     (\<forall>k r d. (k, r) \<in> set (jobs t) \<longrightarrow> d \<in> set (documents (rec_job r)) \<longrightarrow> \<not> removes e (doc_path d))"

lemma keeps_Nil [simp]: "keeps_documents t []"
  by (simp add: keeps_documents_def)

lemma files_okD:
  assumes "files_ok S" "(k, r) \<in> set (jobs (sys_store S))"
  shows "record_files r" "job_dir_ok S (rec_dir r)"
  using assms unfolding files_ok_def by blast+

lemma doc_in_dir:
  assumes "files_ok S" "(k, r) \<in> set (jobs (sys_store S))" "f \<in> set (rec_files r)"
  obtains i where "normal_comp i" "rec_dir r = dir_of (sys_store S) i" "file_in (dir_of (sys_store S) i) f"
    "\<exists>g. map_of (sys_stagings S) i = Some g \<and> stg_state g = StagingCommitted"
  using files_okD [OF assms(1,2)] assms(3) unfolding record_files_def job_dir_ok_def by auto

lemma other_dir:
  assumes "files_ok S" "(k, r) \<in> set (jobs (sys_store S))" "f \<in> set (rec_files r)"
    "(k', r') \<in> set (jobs (sys_store S))" "f = rec_dir r' \<or> prefix (rec_dir r' @ ''/'') f"
  shows "k = k'"
proof -
  obtain i where i: "normal_comp i" "rec_dir r = dir_of (sys_store S) i" "file_in (dir_of (sys_store S) i) f"
    by (rule doc_in_dir [OF assms(1-3)])
  obtain j where j: "normal_comp j" "rec_dir r' = dir_of (sys_store S) j"
    using files_okD(2) [OF assms(1,4)] by (auto simp: job_dir_ok_def)
  have "i = j" using file_in_dirs [OF i(3,1) j(1)] assms(5) j(2) by simp
  with i(2) j(2) assms(1,2,4) show ?thesis unfolding files_ok_def by metis
qed

lemma doc_file: "record_files r \<Longrightarrow> d \<in> set (documents (rec_job r)) \<Longrightarrow> doc_path d \<in> set (rec_files r)"
  by (auto simp: record_files_def)

lemma clean_record_file:
  assumes "files_ok S" "(k, r) \<in> set (jobs (sys_store S))" "f \<in> set (rec_files r)"
  shows "path_clean f = f"
proof -
  have "root_ok (sys_store S)" using assms(1) by (simp add: files_ok_def)
  with doc_in_dir [OF assms] show ?thesis by (metis path_clean_file)
qed

text \<open>Making room after a change that keeps keys and directories evicts directories of other jobs only.\<close>

lemma make_room_keeps:
  assumes f: "files_ok S" and ref: "refines_files (sys_store S) s" "recs_ok s"
    and mr: "make_room_locked s = (t, ev)"
  shows "refines_files (sys_store S) t" "keeps_documents t (drop_evicted ev)"
proof -
  show "refines_files (sys_store S) t"
    using refines_files_trans [OF ref(1) refines_files_evict [OF ref(2) mr]] .
  have dj: "distinct (map fst (jobs s))" using ref(2) by (simp add: recs_ok_def)
  have fs: "files_ok (S\<lparr>sys_store := s\<rparr>)" by (rule refines_files_inv [OF f ref(1)])
  show "keeps_documents t (drop_evicted ev)"
    unfolding keeps_documents_def removes_drop_evicted
  proof (intro allI impI notI, clarsimp)
    fix k r d k' r'
    assume kr: "(k, r) \<in> set (jobs t)" and d: "d \<in> set (documents (rec_job r))" and ev: "(k', r') \<in> set ev"
      and hit: "doc_path d = rec_dir r' \<or> prefix (rec_dir r' @ ''/'') (doc_path d)"
    from d have ne: "documents (rec_job r) \<noteq> []" by auto
    have e: "k \<noteq> k'" "(k', r') \<in> set (jobs s)" "(k, r) \<in> set (jobs s)"
      using evicted_dirs [OF mr dj kr ne ev] by auto
    have "doc_path d \<in> set (rec_files r)" using ref(2) e(3) d doc_file by (auto simp: recs_ok_def)
    with other_dir [OF fs, of k r "doc_path d" k' r'] e hit show False by simp
  qed
qed

lemma record_files_settle:
  assumes "record_files r" "\<And>f. f \<in> set (rec_files r) \<Longrightarrow> path_clean f = f"
  shows "record_files (settle st err ex (documents (rec_job r)) r)"
proof -
  have "doc_path d \<in> set (rec_files (settle st err ex (documents (rec_job r)) r))"
    if "d \<in> set (documents (rec_job r))" for d
    using doc_file [OF assms(1) that] that by (auto simp: settle_def)
  then show ?thesis using assms(1) by (auto simp: record_files_def settle_def)
qed

lemma keeps_append: "keeps_documents t e \<Longrightarrow> keeps_documents t e' \<Longrightarrow> keeps_documents t (e @ e')"
  by (auto simp: keeps_documents_def)

lemma set_status_files:
  assumes f: "files_ok S" "budget_ok (sys_store S)"
    and run: "set_status k st err now (sys_store S) = (r, t, e)"
  shows "refines_files (sys_store S) t \<and> keeps_documents t e"
proof (cases "\<exists>r0. map_of (jobs (sys_store S)) k = Some r0 \<and> status (rec_job r0) \<noteq> StatusEvicted")
  case False
  with run set_status_gone [of "sys_store S" k st err now] refines_files_refl [OF f(1)] show ?thesis by auto
next
  case True
  let ?s = "sys_store S"
  from True obtain r0 where r0: "map_of (jobs ?s) k = Some r0" and ne: "status (rec_job r0) \<noteq> StatusEvicted" by auto
  then have in0: "(k, r0) \<in> set (jobs ?s)" by (simp add: map_of_SomeD)
  note rf = files_okD(1) [OF f(1) in0]
  note ok = recs_ok_I [OF f]
  note cl = clean_record_file [OF f(1) in0]
  show ?thesis
  proof (cases "finished st")
    case False
    let ?g = "\<lambda>r. r\<lparr>rec_job := (rec_job r)\<lparr>status := st, job_error := []\<rparr>\<rparr>"
    have "refines_files ?s (?s\<lparr>used := used ?s, jobs := AList.map_entry k ?g (jobs ?s)\<rparr>)"
      by (rule refines_files_map_entry [OF ok r0]) (use rf in \<open>simp_all add: record_files_def\<close>)
    then show ?thesis using set_status_other [OF r0 ne False] run by (simp add: update_job_def)
  next
    case True
    let ?docs = "documents (rec_job r0)"
    let ?g = "settle st err (now + store_ttl ?s) ?docs"
    let ?s1 = "?s\<lparr>used := used ?s + (doc_bytes ?docs - rec_bytes r0), jobs := AList.map_entry k ?g (jobs ?s)\<rparr>"
    let ?left = "filter (\<lambda>f. path_clean f \<notin> (\<lambda>d. path_clean (doc_path d)) ` set ?docs) (rec_files r0)"
    obtain ev where mr: "make_room_locked ?s1 = (t, ev)" and e: "e = drop_evicted ev @ map Remove ?left"
      using run set_status_final [OF r0 ne True] by (auto simp: Let_def split: prod.splits)
    have gf: "record_files (?g r0)" by (rule record_files_settle [OF rf cl])
    note s1 = refines_files_map_entry [where g = ?g, OF ok r0 gf]
    have s1': "refines_files ?s ?s1" "recs_ok ?s1" by (rule s1; simp add: settle_def)+
    note mk = make_room_keeps [OF f(1) s1' mr]
    have "keeps_documents t (map Remove ?left)"
      unfolding keeps_documents_def removes_map_Remove
    proof (intro allI impI notI)
      fix k' r' d assume kr: "(k', r') \<in> set (jobs t)" "d \<in> set (documents (rec_job r'))"
        and hit: "doc_path d \<in> set ?left"
      obtain u where t: "t = ?s1\<lparr>jobs := evict_all (map fst ev) (jobs ?s1), used := u\<rparr>"
        using make_room_closed [OF mr] s1'(2) unfolding recs_ok_def by metis
      obtain r1 where r1: "(k', r1) \<in> set (jobs ?s1)" "documents (rec_job r1) = documents (rec_job r')"
        using kr unfolding t by (auto simp: in_evict_all split: if_splits)
      have dj: "distinct (map fst (jobs ?s))" using ok by (simp add: recs_ok_def)
      show False
      proof (cases "k' = k")
        case True
        with r1 dj obtain q where "(k, q) \<in> set (jobs ?s)" "r1 = ?g q" by (auto simp: in_set_map_entry)
        with in0 dj have "r1 = ?g r0" by (auto dest: eq_key_imp_eq_value)
        with r1(2) kr(2) have "d \<in> set ?docs" by (simp add: settle_def)
        with hit show False by auto
      next
        case False
        with r1 dj have q: "(k', r1) \<in> set (jobs ?s)" by (simp add: in_set_map_entry)
        have p: "doc_path d \<in> set (rec_files r1)" using doc_file files_okD(1) [OF f(1) q] r1(2) kr(2) by simp
        have "prefix (rec_dir r0 @ ''/'') (doc_path d)"
          using hit rf by (auto simp: record_files_def file_in_def)
        with other_dir [OF f(1) q p in0] False show False by simp
      qed
    qed
    with mk e show ?thesis by (simp add: keeps_append)
  qed
qed

lemma replace_doc_paths:
  assumes "replace_doc did p sz ocr ds = Some (old, ds')" "distinct (map doc_path ds)" "p \<notin> doc_path ` set ds"
  shows "distinct (map doc_path ds')" "doc_path ` set ds' \<subseteq> insert p (doc_path ` set ds)"
    "old \<notin> doc_path ` set ds'" "old \<in> doc_path ` set ds" "old \<noteq> p"
proof -
  obtain u d v where "ds = u @ d # v" "old = doc_path d"
    "ds' = u @ d\<lparr>doc_path := p, doc_size := sz, ocr_applied := ocr\<rparr> # v"
    using replace_doc_facts [OF assms(1)] by blast
  with assms(2,3) show "distinct (map doc_path ds')" "doc_path ` set ds' \<subseteq> insert p (doc_path ` set ds)"
    "old \<notin> doc_path ` set ds'" "old \<in> doc_path ` set ds" "old \<noteq> p" by auto
qed

text \<open>Removing the file a document used to have: nobody else points at it.\<close>

lemma keeps_replaced:
  assumes f: "files_ok S" and k: "(k, r0) \<in> set (jobs (sys_store S))"
    and dj: "distinct (map fst (jobs (sys_store S)))"
    and jobs: "\<And>k' r' d. (k', r') \<in> set (jobs t) \<Longrightarrow> d \<in> set (documents (rec_job r')) \<Longrightarrow>
      (if k' = k then d \<in> set docs
       else \<exists>r1. (k', r1) \<in> set (jobs (sys_store S)) \<and> d \<in> set (documents (rec_job r1)))"
    and old: "old \<notin> doc_path ` set docs" "old \<in> set (rec_files r0)"
  shows "keeps_documents t [Remove old]"
  unfolding keeps_documents_def
proof (intro allI impI notI)
  fix k' r' d assume kr: "(k', r') \<in> set (jobs t)" "d \<in> set (documents (rec_job r'))"
    and "removes [Remove old] (doc_path d)"
  then have hit: "doc_path d = old" by simp
  show False
  proof (cases "k' = k")
    case True
    with jobs [OF kr] hit old(1) show False by auto
  next
    case False
    with jobs [OF kr] obtain r1 where r1: "(k', r1) \<in> set (jobs (sys_store S))" "d \<in> set (documents (rec_job r1))"
      by auto
    have p: "doc_path d \<in> set (rec_files r1)" using doc_file files_okD(1) [OF f r1(1)] r1(2) by simp
    have "prefix (rec_dir r0 @ ''/'') (doc_path d)"
      using old(2) hit files_okD(1) [OF f k] by (auto simp: record_files_def file_in_def)
    with other_dir [OF f r1(1) p k] False show False by simp
  qed
qed

lemma map_entry_docs:
  assumes "distinct (map fst al)" "(k, r0) \<in> set al" "documents (rec_job (g r0)) = docs"
    "(k', r') \<in> set (AList.map_entry k g al)" "d \<in> set (documents (rec_job r'))"
  shows "if k' = k then d \<in> set docs else \<exists>r1. (k', r1) \<in> set al \<and> d \<in> set (documents (rec_job r1))"
  using assms by (auto simp: in_set_map_entry dest: eq_key_imp_eq_value)

lemma evict_docs:
  assumes "make_room_locked s = (t, ev)" "distinct (map fst (jobs s))" "(k, r) \<in> set (jobs t)"
    "d \<in> set (documents (rec_job r))"
  shows "(k, r) \<in> set (jobs s)"
proof -
  obtain u where t: "t = s\<lparr>jobs := evict_all (map fst ev) (jobs s), used := u\<rparr>"
    using make_room_closed [OF assms(1,2)] by metis
  with assms(3,4) show ?thesis by (auto simp: in_evict_all split: if_splits)
qed

lemma replace_document_files:
  assumes f: "files_ok S" "budget_ok (sys_store S)"
    and run: "replace_document k did np ocr lstat (sys_store S) = (r, t, e)"
    and fresh: "\<And>r0. map_of (jobs (sys_store S)) k = Some r0 \<Longrightarrow>
       path_clean np \<notin> doc_path ` set (documents (rec_job r0))"
  shows "refines_files (sys_store S) t \<and> keeps_documents t e"
  using run
proof (cases rule: replace_document_cases)
  case refused
  with refines_files_refl [OF f(1)] show ?thesis by simp
next
  case (replaced fi r0 old docs)
  let ?s = "sys_store S"
  let ?g = "\<lambda>r. r\<lparr>rec_job := (rec_job r)\<lparr>documents := docs\<rparr>\<rparr>"
  have in0: "(k, r0) \<in> set (jobs ?s)" using replaced(3) by (simp add: map_of_SomeD)
  note ok = recs_ok_I [OF f] and rf = files_okD(1) [OF f(1) in0]
  have dj: "distinct (map fst (jobs ?s))" using ok by (simp add: recs_ok_def)
  note p = replace_doc_paths [OF replaced(5) _ fresh [OF replaced(3)]]
  have "distinct (map doc_path (documents (rec_job r0)))" using rf by (simp add: record_files_def)
  note p = p [OF this]
  have sub: "doc_path ` set docs \<subseteq> set (rec_files r0)"
    using replaced(4) rf by (intro subset_trans [OF p(2)]) (simp add: record_files_def)
  have g: "record_files (?g r0)" using p(1) rf sub by (simp add: record_files_def)
  have "refines_files ?s (?s\<lparr>used := used ?s, jobs := AList.map_entry k ?g (jobs ?s)\<rparr>)"
    by (rule refines_files_map_entry [OF ok replaced(3)]) (use g in simp_all)
  moreover have "keeps_documents t [Remove old]"
  proof (rule keeps_replaced [OF f(1) in0 dj _ p(3)])
    show "old \<in> set (rec_files r0)" using p(4) rf by (auto simp: record_files_def)
    show "if k' = k then d \<in> set docs else \<exists>r1. (k', r1) \<in> set (jobs ?s) \<and> d \<in> set (documents (rec_job r1))"
      if "(k', r') \<in> set (jobs t)" "d \<in> set (documents (rec_job r'))" for k' r' d
      using map_entry_docs [OF dj in0, where g = ?g and docs = docs] that replaced(8)
      by (simp add: update_job_def)
  qed
  ultimately show ?thesis using replaced p(5) by (simp add: update_job_def)
next
  case (recharged fi r0 old docs ev)
  let ?s = "sys_store S"
  let ?g = "\<lambda>r. r\<lparr>rec_job := (rec_job r)\<lparr>documents := docs\<rparr>, rec_bytes := doc_bytes docs\<rparr>"
  let ?s1 = "?s\<lparr>used := used ?s + (doc_bytes docs - rec_bytes r0), jobs := AList.map_entry k ?g (jobs ?s)\<rparr>"
  have in0: "(k, r0) \<in> set (jobs ?s)" using recharged(3) by (simp add: map_of_SomeD)
  note ok = recs_ok_I [OF f] and rf = files_okD(1) [OF f(1) in0]
  have dj: "distinct (map fst (jobs ?s))" using ok by (simp add: recs_ok_def)
  have "distinct (map doc_path (documents (rec_job r0)))" using rf by (simp add: record_files_def)
  note p = replace_doc_paths [OF recharged(5) this fresh [OF recharged(3)]]
  have sub: "doc_path ` set docs \<subseteq> set (rec_files r0)"
    using recharged(4) rf by (intro subset_trans [OF p(2)]) (simp add: record_files_def)
  have g: "record_files (?g r0)" using p(1) rf sub by (simp add: record_files_def)
  have s1: "refines_files ?s ?s1" "recs_ok ?s1"
    by (rule refines_files_map_entry [where g = ?g, OF ok recharged(3) g]; simp)+
  note mk = make_room_keeps [OF f(1) s1 recharged(8)]
  have d1: "distinct (map fst (jobs ?s1))" using dj by simp
  have "keeps_documents t [Remove old]"
  proof (rule keeps_replaced [OF f(1) in0 dj _ p(3)])
    show "old \<in> set (rec_files r0)" using p(4) rf by (auto simp: record_files_def)
    show "if k' = k then d \<in> set docs else \<exists>r1. (k', r1) \<in> set (jobs ?s) \<and> d \<in> set (documents (rec_job r1))"
      if "(k', r') \<in> set (jobs t)" "d \<in> set (documents (rec_job r'))" for k' r' d
      using map_entry_docs [OF dj in0, where g = ?g and docs = docs] that evict_docs [OF recharged(8) d1 that] by simp
  qed
  with mk recharged p(5) show ?thesis by (simp add: keeps_append)
qed

lemma register_files:
  assumes f: "files_ok S" "budget_ok (sys_store S)"
    and run: "create_file_register k p (sys_store S) = (r, t, e)"
    and fresh: "fresh_file p (sys_store S)"
    and dir: "\<And>r0. map_of (jobs (sys_store S)) k = Some r0 \<Longrightarrow> file_in (rec_dir r0) p"
  shows "refines_files (sys_store S) t \<and> keeps_documents t e"
  using run
proof (cases rule: create_file_register_cases)
  case gone
  have "doc_path d \<noteq> p" if "(k', r') \<in> set (jobs (sys_store S))" "d \<in> set (documents (rec_job r'))" for k' r' d
    using doc_file [OF files_okD(1) [OF f(1) that(1)] that(2)] fresh that(1) unfolding fresh_file_def by auto
  then have "keeps_documents t e" using gone(2,3) by (auto simp: keeps_documents_def)
  with gone(2) refines_files_refl [OF f(1)] show ?thesis by simp
next
  case (made r0)
  let ?g = "\<lambda>r. r\<lparr>rec_files := List.insert p (rec_files r)\<rparr>"
  have "record_files r0" using files_okD(1) [OF f(1)] made(1) by (blast dest: map_of_SomeD)
  then have "record_files (?g r0)" using dir [OF made(1)] by (auto simp: record_files_def)
  then have "refines_files (sys_store S)
      (sys_store S\<lparr>used := used (sys_store S), jobs := AList.map_entry k ?g (jobs (sys_store S))\<rparr>)"
    by (rule refines_files_map_entry [OF recs_ok_I [OF f] made(1)]) simp
  with made(4,5) show ?thesis by simp
qed

section \<open>The sweep in closed form\<close>

abbreviation dead :: "time \<Rightarrow> string \<times> job_record \<Rightarrow> bool" where
  "dead now p \<equiv> \<not> live (rec_job (snd p)) now"

abbreviation stale :: "time \<Rightarrow> string \<times> reservation \<Rightarrow> bool" where
  "stale now p \<equiv> now - reserved_at (snd p) > stale_reservation_after"

lemma filter_keys:
  "distinct (map fst al) \<Longrightarrow> filter (\<lambda>p. fst p \<notin> fst ` set (filter P al)) al = filter (\<lambda>p. \<not> P p) al"
  by (rule filter_cong [OF refl]) (force dest: eq_key_imp_eq_value)

lemma filter_fst_neq: "k \<notin> set ks \<Longrightarrow>
  filter (\<lambda>p. fst p \<notin> set ks) (AList.delete k al) = filter (\<lambda>p. fst p \<notin> set (k # ks)) al"
  by (induction al) auto

lemma sweep_jobs_closed:
  assumes "sweep_jobs rs now s = (t, dirs)" "distinct (map fst rs)"
    "\<forall>(k, r) \<in> set rs. map_of (jobs s) k = Some r"
  shows "t = s\<lparr>used := used s - asum rec_bytes (filter (dead now) rs),
                jobs := filter (\<lambda>p. fst p \<notin> set (map fst (filter (dead now) rs))) (jobs s)\<rparr> \<and>
         dirs = map (\<lambda>p. rec_dir (snd p)) (filter (dead now) rs)"
  using assms
proof (induction rs arbitrary: s t dirs)
  case (Cons p rs)
  obtain k r where p: "p = (k, r)" by (cases p)
  have r: "map_of (jobs s) k = Some r" using Cons.prems(3) p by auto
  show ?case
  proof (cases "live (rec_job r) now")
    case True
    with Cons p show ?thesis by simp
  next
    case False
    let ?s = "s\<lparr>used := used s - rec_bytes r, jobs := AList.delete k (jobs s)\<rparr>"
    obtain dirs' where sw: "sweep_jobs rs now ?s = (t, dirs')" "dirs = rec_dir r # dirs'"
      using Cons.prems(1) p False by (auto simp: charge_delete [OF r] Let_def split: prod.splits)
    have look: "\<forall>(k', r') \<in> set rs. map_of (jobs ?s) k' = Some r'"
      using Cons.prems(2,3) p by (force simp: map_of_delete')
    have "k \<notin> set (map fst (filter (dead now) rs))" using Cons.prems(2) p by auto
    note fd = filter_fst_neq [OF this]
    show ?thesis
      using Cons.IH [OF sw(1) _ look] Cons.prems(2) p False sw(2) fd [of "jobs s"] by simp
  qed
qed simp

lemma sweep_reservations_closed:
  assumes "sweep_reservations rs now s = (t, dirs)" "distinct (map fst rs)"
  shows "t = s\<lparr>used := used s - asum res_bytes (filter (stale now) rs),
                reservations := filter (\<lambda>p. fst p \<notin> set (map fst (filter (stale now) rs))) (reservations s)\<rparr> \<and>
         dirs = map (\<lambda>p. res_dir (snd p)) (filter (stale now) rs)"
  using assms
proof (induction rs arbitrary: s t dirs)
  case (Cons p rs)
  obtain k r where p: "p = (k, r)" by (cases p)
  show ?case
  proof (cases "stale now p")
    case False
    with Cons p show ?thesis by simp
  next
    case True
    let ?s = "s\<lparr>used := used s - res_bytes r, reservations := AList.delete k (reservations s)\<rparr>"
    obtain dirs' where sw: "sweep_reservations rs now ?s = (t, dirs')" "dirs = res_dir r # dirs'"
      using Cons.prems(1) p True by (auto split: prod.splits)
    have "k \<notin> set (map fst (filter (stale now) rs))" using Cons.prems(2) p by auto
    note fd = filter_fst_neq [OF this]
    show ?thesis using Cons.IH [OF sw(1)] Cons.prems(2) p True sw(2) fd [of "reservations s"] by simp
  qed
qed simp

lemma clean_expired_closed:
  assumes "clean_expired now s = (n, t, e)" "distinct (map fst (jobs s))" "distinct (map fst (reservations s))"
  shows "jobs t = filter (\<lambda>p. live (rec_job (snd p)) now) (jobs s)"
    "reservations t = filter (\<lambda>p. \<not> stale now p) (reservations s)"
    "n = length (filter (dead now) (jobs s))"
    "e = map RemoveAll (map (\<lambda>p. rec_dir (snd p)) (filter (dead now) (jobs s)) @
                        map (\<lambda>p. res_dir (snd p)) (filter (stale now) (reservations s)))"
    "store_dir t = store_dir s"
    "used t = used s - asum rec_bytes (filter (dead now) (jobs s)) - asum res_bytes (filter (stale now) (reservations s))"
proof -
  obtain s1 d1 where s1: "sweep_jobs (jobs s) now s = (s1, d1)" by (cases "sweep_jobs (jobs s) now s")
  have look: "\<forall>(k, r) \<in> set (jobs s). map_of (jobs s) k = Some r" using assms(2) by auto
  note c1 = conjunct1 [OF sweep_jobs_closed [OF s1 assms(2) look]] conjunct2 [OF sweep_jobs_closed [OF s1 assms(2) look]]
  obtain s2 d2 where s2: "sweep_reservations (reservations s1) now s1 = (s2, d2)"
    by (cases "sweep_reservations (reservations s1) now s1")
  have r1: "reservations s1 = reservations s" using c1(1) by simp
  note c2 = sweep_reservations_closed [OF s2, unfolded r1, OF assms(3)]
  have run: "n = length d1" "t = s2" "e = map RemoveAll (d1 @ d2)"
    using assms(1) s1 s2 by (simp_all add: clean_expired_def)
  show "jobs t = filter (\<lambda>p. live (rec_job (snd p)) now) (jobs s)"
    using c1(1) c2 run(2) filter_keys [OF assms(2), of "dead now"] by simp
  show "reservations t = filter (\<lambda>p. \<not> stale now p) (reservations s)"
    using c2 run(2) filter_keys [OF assms(3), of "stale now"] by simp
  show "n = length (filter (dead now) (jobs s))"
    "e = map RemoveAll (map (\<lambda>p. rec_dir (snd p)) (filter (dead now) (jobs s)) @
                        map (\<lambda>p. res_dir (snd p)) (filter (stale now) (reservations s)))"
    "store_dir t = store_dir s"
    "used t = used s - asum rec_bytes (filter (dead now) (jobs s)) - asum res_bytes (filter (stale now) (reservations s))"
    using c1 c2 run by simp_all
qed

end
