(* ===== verification/Store_Safety.thy ===== *)
theory Store_Safety
  imports Store_Files
begin

text \<open>
  The file invariant over the whole transition system of the store: the remaining steps, and the
  interpretation of \<open>invariant_system\<close> from which the safety theorems about removal follow.
\<close>

lemma refines_subset:
  assumes "files_ok S" "set (jobs t) \<subseteq> set (jobs (sys_store S))"
    "set (reservations t) \<subseteq> set (reservations (sys_store S))" "store_dir t = store_dir (sys_store S)"
  shows "refines_files (sys_store S) t"
  using assms files_okD(1) [OF assms(1)] unfolding refines_files_def by blast

text \<open>Removing whole directories none of the remaining jobs lives in.\<close>

lemma keeps_dirs:
  assumes f: "files_ok S" and sub: "set (jobs t) \<subseteq> set (jobs (sys_store S))"
    and ds: "\<And>d k r. d \<in> set ds \<Longrightarrow> (k, r) \<in> set (jobs t) \<Longrightarrow>
      (\<exists>k' r'. k' \<noteq> k \<and> (k', r') \<in> set (jobs (sys_store S)) \<and> d = rec_dir r') \<or>
      (\<exists>j. normal_comp j \<and> d = dir_of (sys_store S) j \<and>
         (\<forall>g. map_of (sys_stagings S) j = Some g \<longrightarrow> stg_state g \<noteq> StagingCommitted))"
  shows "keeps_documents t (map RemoveAll ds)"
  unfolding keeps_documents_def removes_RemoveAll
proof (intro allI impI notI, elim bexE)
  fix k r d x assume kr: "(k, r) \<in> set (jobs t)" and d: "d \<in> set (documents (rec_job r))"
    and x: "x \<in> set ds" and hit: "doc_path d = x \<or> prefix (x @ ''/'') (doc_path d)"
  have kr': "(k, r) \<in> set (jobs (sys_store S))" using kr sub by blast
  have p: "doc_path d \<in> set (rec_files r)" using doc_file files_okD(1) [OF f kr'] d by blast
  from ds [OF x kr] show False
  proof (elim disjE exE conjE)
    fix k' r' assume "k' \<noteq> k" "(k', r') \<in> set (jobs (sys_store S))" "x = rec_dir r'"
    with other_dir [OF f kr' p] hit show False by blast
  next
    fix j assume j: "normal_comp j" "x = dir_of (sys_store S) j"
      and nc: "\<forall>g. map_of (sys_stagings S) j = Some g \<longrightarrow> stg_state g \<noteq> StagingCommitted"
    obtain i where i: "normal_comp i" "file_in (dir_of (sys_store S) i) (doc_path d)"
      "\<exists>g. map_of (sys_stagings S) i = Some g \<and> stg_state g = StagingCommitted"
      by (rule doc_in_dir [OF f kr' p])
    have "i = j" by (rule file_in_dirs [OF i(2,1) j(1)]) (use hit j(2) in simp)
    with i(3) nc show False by auto
  qed
qed

lemma delete_files:
  assumes f: "files_ok S" "budget_ok (sys_store S)" and run: "delete k (sys_store S) = (r, t, e)"
  shows "refines_files (sys_store S) t \<and> keeps_documents t e"
proof (cases "map_of (jobs (sys_store S)) k")
  case None
  with run refines_files_refl [OF f(1)] show ?thesis by (simp add: delete_def)
next
  case (Some r0)
  let ?s = "sys_store S"
  have t: "t = ?s\<lparr>used := used ?s - rec_bytes r0, jobs := AList.delete k (jobs ?s)\<rparr>" "e = map RemoveAll [rec_dir r0]"
    using run Some by (simp_all add: delete_def charge_delete [OF Some] Let_def)
  have in0: "(k, r0) \<in> set (jobs ?s)" using Some by (simp add: map_of_SomeD)
  have sub: "set (jobs t) \<subseteq> set (jobs ?s)" using t by (auto simp: in_set_delete)
  have "refines_files ?s t" by (rule refines_subset [OF f(1) sub]) (simp_all add: t)
  moreover have "keeps_documents t e"
    unfolding t(2)
  proof (rule keeps_dirs [OF f(1) sub])
    fix d k' r' assume "d \<in> set [rec_dir r0]" "(k', r') \<in> set (jobs t)"
    moreover from this t(1) have "k \<noteq> k'" by (auto simp: in_set_delete)
    ultimately show "(\<exists>k'' r''. k'' \<noteq> k' \<and> (k'', r'') \<in> set (jobs ?s) \<and> d = rec_dir r'') \<or>
        (\<exists>j. normal_comp j \<and> d = dir_of ?s j \<and>
          (\<forall>g. map_of (sys_stagings S) j = Some g \<longrightarrow> stg_state g \<noteq> StagingCommitted))"
      using in0 by auto
  qed
  ultimately show ?thesis by simp
qed

lemma reservation_dir:
  assumes f: "files_ok S" and r: "(i, r) \<in> set (reservations (sys_store S))"
  shows "normal_comp i \<and> res_dir r = dir_of (sys_store S) i \<and>
    (\<forall>g. map_of (sys_stagings S) i = Some g \<longrightarrow> stg_state g \<noteq> StagingCommitted)"
proof -
  have ro: "reservation_ok S i r" using f r unfolding files_ok_def by blast
  have "map_of (sys_stagings S) i = None" if "i \<in> set (sys_pending S)"
    using f that unfolding files_ok_def by blast
  with ro show ?thesis unfolding reservation_ok_def by auto
qed

lemma clean_files:
  assumes f: "files_ok S" "budget_ok (sys_store S)" and run: "clean_expired now (sys_store S) = (n, t, e)"
  shows "refines_files (sys_store S) t \<and> keeps_documents t e"
proof -
  let ?s = "sys_store S"
  have d: "distinct (map fst (jobs ?s))" "distinct (map fst (reservations ?s))"
    using f(2) by (simp_all add: budget_ok_def books_ok_def)
  note c = clean_expired_closed [OF run d]
  have sub: "set (jobs t) \<subseteq> set (jobs ?s)" using c(1) by auto
  have "refines_files ?s t" by (rule refines_subset [OF f(1) sub]) (simp_all add: c)
  moreover have "keeps_documents t e"
    unfolding c(4)
  proof (rule keeps_dirs [OF f(1) sub])
    fix x k r
    assume x: "x \<in> set (map (\<lambda>p. rec_dir (snd p)) (filter (dead now) (jobs ?s)) @
                        map (\<lambda>p. res_dir (snd p)) (filter (stale now) (reservations ?s)))"
      and kr: "(k, r) \<in> set (jobs t)"
    then have kl: "(k, r) \<in> set (jobs ?s)" "live (rec_job r) now" using c(1) by auto
    from x consider k' r' where "(k', r') \<in> set (jobs ?s)" "\<not> live (rec_job r') now" "x = rec_dir r'"
      | i r' where "(i, r') \<in> set (reservations ?s)" "x = res_dir r'" by auto
    then show "(\<exists>k' r'. k' \<noteq> k \<and> (k', r') \<in> set (jobs ?s) \<and> x = rec_dir r') \<or>
        (\<exists>j. normal_comp j \<and> x = dir_of ?s j \<and>
          (\<forall>g. map_of (sys_stagings S) j = Some g \<longrightarrow> stg_state g \<noteq> StagingCommitted))"
    proof cases
      case (1 k' r')
      with kl d(1) have "k' \<noteq> k" by (metis eq_key_imp_eq_value)
      with 1 show ?thesis by blast
    next
      case (2 i r')
      with reservation_dir [OF f(1) 2(1)] show ?thesis by auto
    qed
  qed
  ultimately show ?thesis by simp
qed

lemma close_files:
  assumes f: "files_ok S" and run: "close_store (sys_store S) = (t, e)"
  shows "refines_files (sys_store S) t \<and> keeps_documents t e"
proof (cases "store_closed (sys_store S)")
  case True
  with run refines_files_refl [OF f] show ?thesis by (simp add: close_store_def)
next
  case False
  with run show ?thesis by (auto simp: close_store_def refines_files_def keeps_documents_def)
qed

lemma delete_absent: "map_of al k = None \<Longrightarrow> AList.delete k al = al"
  by (induction al) (auto split: if_splits)

lemma release_simps [simp]:
  "jobs (release_reservation i s) = jobs s" "store_dir (release_reservation i s) = store_dir s"
  "store_closed (release_reservation i s) = store_closed s"
  "reservations (release_reservation i s) = AList.delete i (reservations s)"
  by (simp_all add: release_reservation_def delete_absent split: option.splits)

lemma job_dir_keep:
  assumes "job_dir_ok S d" "store_dir (sys_store T) = store_dir (sys_store S)"
    "\<And>j g. map_of (sys_stagings S) j = Some g \<Longrightarrow> stg_state g = StagingCommitted \<Longrightarrow>
       map_of (sys_stagings T) j = Some g"
  shows "job_dir_ok T d"
  using assms unfolding job_dir_ok_def dir_of_def by metis

section \<open>Steps that change the stagings\<close>

lemma files_ok_I:
  assumes "root_ok (sys_store T)"
    "\<And>k r. (k, r) \<in> set (jobs (sys_store T)) \<Longrightarrow> record_files r"
    "\<And>k r. (k, r) \<in> set (jobs (sys_store T)) \<Longrightarrow> job_dir_ok T (rec_dir r)"
    "\<And>k r k' r'. (k, r) \<in> set (jobs (sys_store T)) \<Longrightarrow> (k', r') \<in> set (jobs (sys_store T)) \<Longrightarrow>
       rec_dir r = rec_dir r' \<Longrightarrow> k = k'"
    "\<And>i g. map_of (sys_stagings T) i = Some g \<Longrightarrow> staging_ok T i g"
    "\<And>i r. (i, r) \<in> set (reservations (sys_store T)) \<Longrightarrow> reservation_ok T i r"
    "\<And>i. i \<in> set (sys_pending T) \<Longrightarrow> normal_comp i \<and> map_of (sys_stagings T) i = None"
  shows "files_ok T"
  unfolding files_ok_def using assms by blast

lemma files_okE:
  assumes "files_ok S"
  shows "root_ok (sys_store S)"
    "\<And>k r k' r'. (k, r) \<in> set (jobs (sys_store S)) \<Longrightarrow> (k', r') \<in> set (jobs (sys_store S)) \<Longrightarrow>
       rec_dir r = rec_dir r' \<Longrightarrow> k = k'"
    "\<And>i g. map_of (sys_stagings S) i = Some g \<Longrightarrow> staging_ok S i g"
    "\<And>i r. (i, r) \<in> set (reservations (sys_store S)) \<Longrightarrow> reservation_ok S i r"
    "\<And>i. i \<in> set (sys_pending S) \<Longrightarrow> normal_comp i \<and> map_of (sys_stagings S) i = None"
  using assms unfolding files_ok_def by blast+

lemma reserve_files:
  assumes f: "files_ok S" and run: "reserve_lock want (Some i) now (sys_store S) = (Inr i, t)"
    and new: "unused_id i S"
  shows "files_ok (S\<lparr>sys_store := t, sys_pending := i # sys_pending S\<rparr>)" (is "files_ok ?T")
proof -
  let ?s = "sys_store S"
  note fe = files_okE [OF f]
  have i: "normal_comp i" "map_of (sys_stagings S) i = None" using new by (simp_all add: unused_id_def)
  have t: "t = ?s\<lparr>reservations := AList.update i
              \<lparr>res_dir = dir_of ?s i, reserved_at = now, res_bytes = want\<rparr> (reservations ?s), used := used ?s + want\<rparr>"
    using run path_join_dir [OF fe(1) i(1)] by (auto simp: reserve_lock_def split: if_splits)
  then have d: "dir_of t = dir_of ?s" by (intro dir_of_cong) simp
  have fresh: "i \<notin> fst ` set (reservations ?s)" using new by (simp add: unused_id_def map_of_None_iff_fst)
  show ?thesis
  proof (rule files_ok_I)
    show "root_ok (sys_store ?T)" using fe(1) t by (simp add: root_ok_def)
    show "record_files r" "job_dir_ok ?T (rec_dir r)" if "(k, r) \<in> set (jobs (sys_store ?T))" for k r
      using that t d files_okD [OF f, of k r] by (auto simp: job_dir_ok_def)
    show "k = k'" if "(k, r) \<in> set (jobs (sys_store ?T))" "(k', r') \<in> set (jobs (sys_store ?T))" "rec_dir r = rec_dir r'"
      for k r k' r' using that t fe(2) by simp
    show "staging_ok ?T j g" if "map_of (sys_stagings ?T) j = Some g" for j g
      using that i fe(3) [of j g] d by (auto simp: staging_ok_def)
    show "reservation_ok ?T j r" if "(j, r) \<in> set (reservations (sys_store ?T))" for j r
      using that t i d fe(4) [of j r] by (auto simp: reservation_ok_def set_update_fresh [OF fresh])
    show "normal_comp j \<and> map_of (sys_stagings ?T) j = None" if "j \<in> set (sys_pending ?T)" for j
      using that i fe(5) [of j] by auto
  qed
qed

lemma reserve_done_files:
  assumes f: "files_ok S" and i: "i \<in> set (sys_pending S)"
    and run: "reserve_finish i mk (sys_store S) = (Inr g, t, e)"
  shows "files_ok (S\<lparr>sys_store := t, sys_stagings := AList.update i g (sys_stagings S),
            sys_pending := removeAll i (sys_pending S)\<rparr>)" (is "files_ok ?T") "e = []"
proof -
  let ?s = "sys_store S"
  note fe = files_okE [OF f]
  have ni: "normal_comp i" "map_of (sys_stagings S) i = None" using fe(5) i by auto
  have t: "t = ?s" "e = []" "g = \<lparr>stg_id = i, stg_dir = dir_of ?s i, stg_state = StagingOpen, stg_files = []\<rparr>"
    using run path_join_dir [OF fe(1) ni(1)] by (auto simp: reserve_finish_def Let_def split: if_splits)
  show "e = []" using t by simp
  show "files_ok ?T"
  proof (rule files_ok_I)
    show "root_ok (sys_store ?T)" using fe(1) t by simp
    show "record_files r" if "(k, r) \<in> set (jobs (sys_store ?T))" for k r
      using that t files_okD [OF f, of k r] by simp
    show "job_dir_ok ?T (rec_dir r)" if "(k, r) \<in> set (jobs (sys_store ?T))" for k r
      by (rule job_dir_keep [OF files_okD(2) [OF f, of k]]) (use that t ni in \<open>auto simp: map_of_update'\<close>)
    show "k = k'" if "(k, r) \<in> set (jobs (sys_store ?T))" "(k', r') \<in> set (jobs (sys_store ?T))" "rec_dir r = rec_dir r'"
      for k r k' r' using that t fe(2) by simp
    show "staging_ok ?T j g'" if "map_of (sys_stagings ?T) j = Some g'" for j g'
      using that t ni fe(3) [of j g'] by (auto simp: staging_ok_def map_of_update' split: if_splits)
    show "reservation_ok ?T j r" if "(j, r) \<in> set (reservations (sys_store ?T))" for j r
      using that t ni fe(4) [of j r] by (auto simp: reservation_ok_def map_of_update')
    show "normal_comp j \<and> map_of (sys_stagings ?T) j = None" if "j \<in> set (sys_pending ?T)" for j
      using that fe(5) [of j] by (auto simp: map_of_update')
  qed
qed

text \<open>Dropping the reservation of an id that is no longer pending, and setting its staging.\<close>

lemma release_files:
  assumes f: "files_ok S"
    and t: "jobs t = jobs (sys_store S)" "store_dir t = store_dir (sys_store S)"
      "set (reservations t) \<subseteq> {p \<in> set (reservations (sys_store S)). fst p \<noteq> i}"
    and gs: "\<And>j. j \<noteq> i \<Longrightarrow> map_of gs j = map_of (sys_stagings S) j"
    and gi: "\<And>g. map_of gs i = Some g \<Longrightarrow>
      \<exists>g0. map_of (sys_stagings S) i = Some g0 \<and> stg_id g = stg_id g0 \<and> stg_dir g = stg_dir g0 \<and>
        stg_files g = stg_files g0"
    and keep: "\<And>g0. map_of (sys_stagings S) i = Some g0 \<Longrightarrow> stg_state g0 \<noteq> StagingCommitted"
    and ps: "set ps = set (sys_pending S) - {i}"
  shows "files_ok (S\<lparr>sys_store := t, sys_stagings := gs, sys_pending := ps\<rparr>)" (is "files_ok ?T")
proof -
  note fe = files_okE [OF f]
  have d: "dir_of t = dir_of (sys_store S)" by (intro dir_of_cong) (rule t(2))
  show ?thesis
  proof (rule files_ok_I)
    show "root_ok (sys_store ?T)" using fe(1) t(2) by (simp add: root_ok_def)
    show "record_files r" if "(k, r) \<in> set (jobs (sys_store ?T))" for k r
      using that t(1) files_okD(1) [OF f] by simp
    show "job_dir_ok ?T (rec_dir r)" if "(k, r) \<in> set (jobs (sys_store ?T))" for k r
    proof (rule job_dir_keep [OF files_okD(2) [OF f, of k]])
      fix j g assume "map_of (sys_stagings S) j = Some g" "stg_state g = StagingCommitted"
      moreover from this keep have "j \<noteq> i" by auto
      ultimately show "map_of (sys_stagings ?T) j = Some g" using gs by simp
    qed (use that t in simp_all)
    show "k = k'" if "(k, r) \<in> set (jobs (sys_store ?T))" "(k', r') \<in> set (jobs (sys_store ?T))" "rec_dir r = rec_dir r'"
      for k r k' r' using that t(1) fe(2) by simp
    show "staging_ok ?T j g" if "map_of (sys_stagings ?T) j = Some g" for j g
    proof (cases "j = i")
      case True
      with gi that obtain g0 where g0: "map_of (sys_stagings S) i = Some g0" "stg_id g = stg_id g0"
        "stg_dir g = stg_dir g0" "stg_files g = stg_files g0" by auto
      from fe(3) [OF g0(1)] g0 True ps d show ?thesis by (auto simp: staging_ok_def)
    next
      case False
      with that gs have "map_of (sys_stagings S) j = Some g" by simp
      from fe(3) [OF this] ps d show ?thesis by (auto simp: staging_ok_def)
    qed
    show "reservation_ok ?T j r" if "(j, r) \<in> set (reservations (sys_store ?T))" for j r
    proof -
      have j: "(j, r) \<in> set (reservations (sys_store S))" "j \<noteq> i" using that t(3) by auto
      from fe(4) [OF j(1)] j(2) ps gs d show ?thesis by (auto simp: reservation_ok_def)
    qed
    show "normal_comp j \<and> map_of (sys_stagings ?T) j = None" if "j \<in> set (sys_pending ?T)" for j
      using that ps gs fe(5) [of j] by auto
  qed
qed

lemma stage_files:
  assumes f: "files_ok S" and g: "map_of (sys_stagings S) i = Some g"
    and run: "staging_create_file pre mk g = (Inr p, g')" and p: "file_in (stg_dir g) p"
  shows "files_ok (S\<lparr>sys_stagings := AList.update i g' (sys_stagings S)\<rparr>)" (is "files_ok ?T")
proof -
  note fe = files_okE [OF f]
  have g': "stg_state g = StagingOpen" "g' = g\<lparr>stg_files := List.insert p (stg_files g)\<rparr>"
    using run by (auto simp: staging_create_file_def split: if_splits sum.splits)
  show ?thesis
  proof (rule files_ok_I)
    show "root_ok (sys_store ?T)" using fe(1) by simp
    show "record_files r" if "(k, r) \<in> set (jobs (sys_store ?T))" for k r
      using that files_okD(1) [OF f] by simp
    show "job_dir_ok ?T (rec_dir r)" if "(k, r) \<in> set (jobs (sys_store ?T))" for k r
      by (rule job_dir_keep [OF files_okD(2) [OF f, of k]]) (use that g g' in \<open>auto simp: map_of_update'\<close>)
    show "k = k'" if "(k, r) \<in> set (jobs (sys_store ?T))" "(k', r') \<in> set (jobs (sys_store ?T))" "rec_dir r = rec_dir r'"
      for k r k' r' using that fe(2) by simp
    show "staging_ok ?T j h" if "map_of (sys_stagings ?T) j = Some h" for j h
      using that g' p fe(3) [OF g] fe(3) [of j h] by (auto simp: staging_ok_def map_of_update' split: if_splits)
    show "reservation_ok ?T j r" if "(j, r) \<in> set (reservations (sys_store ?T))" for j r
      using that g g' fe(4) [of j r] by (auto simp: reservation_ok_def map_of_update')
    show "normal_comp j \<and> map_of (sys_stagings ?T) j = None" if "j \<in> set (sys_pending ?T)" for j
      using that g fe(5) [of j] by (auto simp: map_of_update')
  qed
qed

lemma files_ok_cong:
  assumes "files_ok S" "\<And>j. map_of gs j = map_of (sys_stagings S) j"
  shows "files_ok (S\<lparr>sys_stagings := gs\<rparr>)"
proof -
  have "job_dir_ok (S\<lparr>sys_stagings := gs\<rparr>) = job_dir_ok S" "staging_ok (S\<lparr>sys_stagings := gs\<rparr>) = staging_ok S"
    "reservation_ok (S\<lparr>sys_stagings := gs\<rparr>) = reservation_ok S"
    by (simp_all add: job_dir_ok_def staging_ok_def reservation_ok_def fun_eq_iff assms(2))
  with assms(1) show ?thesis by (simp add: files_ok_def assms(2))
qed

lemma commit_docs_paths:
  assumes "commit_docs low pr fs lstat ids i ds = Inr docs" "\<And>f. f \<in> set fs \<Longrightarrow> path_clean f = f"
  shows "map doc_path docs = map nd_path ds" "nd_path ` set ds \<subseteq> set fs"
proof -
  note c = commit_docs_facts [OF assms(1)]
  show "nd_path ` set ds \<subseteq> set fs" using c by (auto simp: in_set_conv_nth)
  show "map doc_path docs = map nd_path ds"
    using c assms(2) by (intro nth_equalityI) auto
qed

text \<open>A commit before it makes room: the record and the staging change together.\<close>

lemma commit_record_files:
  assumes f: "files_ok S" and g: "map_of (sys_stagings S) i = Some g" and op: "stg_state g = StagingOpen"
    and docs: "commit_docs low pr (stg_files g) lstat ids 0 ds = Inr docs" "distinct (map nd_path ds)"
    and jid: "map_of (jobs (sys_store S)) jid = None" and d: "documents j = docs"
    and t: "t = (sys_store S)\<lparr>reservations := AList.delete (stg_id g) (reservations (sys_store S)),
         jobs := AList.update jid \<lparr>rec_job = j, rec_dir = stg_dir g, rec_bytes = b, rec_files = stg_files g\<rparr>
           (jobs (sys_store S))\<rparr>"
  shows "files_ok (S\<lparr>sys_store := t,
           sys_stagings := AList.update i (g\<lparr>stg_state := StagingCommitted\<rparr>) (sys_stagings S)\<rparr>)" (is "files_ok ?T")
proof -
  let ?s = "sys_store S"
  let ?rec = "\<lparr>rec_job = j, rec_dir = stg_dir g, rec_bytes = b, rec_files = stg_files g\<rparr>"
  note fe = files_okE [OF f]
  have sg: "normal_comp i" "stg_id g = i" "stg_dir g = dir_of ?s i" "\<forall>x \<in> set (stg_files g). file_in (dir_of ?s i) x"
    "i \<notin> set (sys_pending S)"
    using fe(3) [OF g] by (auto simp: staging_ok_def)
  have clean: "path_clean x = x" if "x \<in> set (stg_files g)" for x
    using path_clean_file [OF fe(1) sg(1)] sg(4) that by simp
  note paths = commit_docs_paths [OF docs(1) clean]
  have rec: "record_files ?rec"
    using paths docs(2) sg d by (simp add: record_files_def image_image [symmetric] del: set_map)
      (metis list.set_map)
  have dd: "dir_of t = dir_of ?s" by (intro dir_of_cong) (simp add: t)
  have js: "set (jobs t) = insert (jid, ?rec) (set (jobs ?s))"
    using jid by (simp add: t set_update_fresh map_of_None_iff_fst)
  have other: "rec_dir r \<noteq> stg_dir g" if "(k, r) \<in> set (jobs ?s)" for k r
  proof
    assume eq: "rec_dir r = stg_dir g"
    obtain m h where m: "normal_comp m" "rec_dir r = dir_of ?s m" "map_of (sys_stagings S) m = Some h"
      "stg_state h = StagingCommitted" using files_okD(2) [OF f \<open>(k, r) \<in> set (jobs ?s)\<close>]
      by (auto simp: job_dir_ok_def)
    then have "m = i" using eq sg(3) by (simp add: dir_of_def)
    with m g op show False by simp
  qed
  show ?thesis
  proof (rule files_ok_I)
    show "root_ok (sys_store ?T)" using fe(1) by (simp add: root_ok_def t)
    show "record_files r" if "(k, r) \<in> set (jobs (sys_store ?T))" for k r
      using that rec files_okD(1) [OF f] js by auto
    show "job_dir_ok ?T (rec_dir r)" if "(k, r) \<in> set (jobs (sys_store ?T))" for k r
    proof (cases "(k, r) \<in> set (jobs ?s)")
      case True
      show ?thesis
        by (rule job_dir_keep [OF files_okD(2) [OF f True]]) (use g op t in \<open>auto simp: map_of_update'\<close>)
    next
      case False
      with that js have "rec_dir r = dir_of t i" using sg(3) dd by simp
      with sg(1) show ?thesis by (auto simp: job_dir_ok_def map_of_update')
    qed
    show "k = k'" if "(k, r) \<in> set (jobs (sys_store ?T))" "(k', r') \<in> set (jobs (sys_store ?T))" "rec_dir r = rec_dir r'"
      for k r k' r'
      using that js other [of k r] other [of k' r'] fe(2) [of k r k' r'] by auto
    show "staging_ok ?T m h" if "map_of (sys_stagings ?T) m = Some h" for m h
      using that dd fe(3) [OF g] fe(3) [of m h] by (auto simp: staging_ok_def map_of_update' split: if_splits)
    show "reservation_ok ?T m r" if "(m, r) \<in> set (reservations (sys_store ?T))" for m r
    proof -
      have "(m, r) \<in> set (reservations ?s)" "m \<noteq> i" using that sg(2) by (auto simp: t in_set_delete)
      with fe(4) [of m r] dd show ?thesis by (auto simp: reservation_ok_def map_of_update')
    qed
    show "normal_comp m \<and> map_of (sys_stagings ?T) m = None" if "m \<in> set (sys_pending ?T)" for m
      using that fe(5) [of m] sg(5) by (auto simp: map_of_update')
  qed
qed

lemma update_same_look: "map_of al i = Some g \<Longrightarrow> map_of (AList.update i g al) j = map_of al j"
  by (simp add: map_of_update')

section \<open>The invariant over the system\<close>

definition store_inv :: "store_system \<Rightarrow> bool" where
  "store_inv S \<longleftrightarrow> budget_ok (sys_store S) \<and> files_ok S"

lemma sys_init_files: "sys_init S \<Longrightarrow> files_ok S"
proof -
  assume "sys_init S"
  then obtain root ab prep ttl mb cs where n: "new_store root ab prep ttl mb = Inr (sys_store S)"
    "ab root = Some (abs_path cs)" "list_all normal_comp cs" "sys_stagings S = []" "sys_pending S = []"
    by (auto simp: sys_init_def)
  have nc: "normal_comp ''scan2graph''" by (simp add: normal_comp_def)
  have p: "path_join (abs_path cs) ''scan2graph'' = abs_path (cs @ [''scan2graph''])"
  proof (cases "cs = []")
    case True
    have "path_clean (abs_path [''scan2graph'']) = abs_path [''scan2graph'']"
      using nc by (intro path_clean_abs) simp
    moreover have "path_join ''/'' ''scan2graph'' = abs_path [''scan2graph'']"
      by code_simp
    ultimately show ?thesis using True by (simp add: abs_path_def)
  next
    case False
    with n(3) nc show ?thesis by (simp add: path_join_abs abs_path_snoc)
  qed
  have s: "store_dir (sys_store S) = abs_path (cs @ [''scan2graph''])" "jobs (sys_store S) = []"
    "reservations (sys_store S) = []"
    using n(1,2) p by (auto simp: new_store_def Let_def split: if_splits dest!: sym [of _ "sys_store S"])
  have "root_ok (sys_store S)"
    unfolding root_ok_def by (rule exI [of _ "cs @ [''scan2graph'']"]) (use s n(3) nc in simp)
  with s n(4,5) show "files_ok S" by (simp add: files_ok_def)
qed

lemma store_only:
  assumes "files_ok S" "refines_files (sys_store S) t \<and> keeps_documents t e"
  shows "files_ok (S\<lparr>sys_store := t\<rparr>) \<and> keeps_documents t e"
  using assms refines_files_inv by blast

lemma commit_files:
  assumes f: "files_ok S" "budget_ok (sys_store S)" and g: "map_of (sys_stagings S) i = Some g"
    and run: "commit low pr lstat ids now n g (sys_store S) = (r, g', t, e)"
    and dist: "distinct (map nd_path (nj_documents n))"
    and fresh: "\<And>jid. ids (length (nj_documents n)) = Some jid \<Longrightarrow> map_of (jobs (sys_store S)) jid = None"
  shows "files_ok (S\<lparr>sys_store := t, sys_stagings := AList.update i g' (sys_stagings S)\<rparr>) \<and> keeps_documents t e"
  using run
proof (cases rule: commit_cases)
  case refused
  with files_ok_cong [OF f(1) update_same_look [OF g]] show ?thesis by simp
next
  case (committed docs jid j r0 ev)
  let ?s1 = "(sys_store S)\<lparr>reservations := AList.delete (stg_id g) (reservations (sys_store S)),
     jobs := AList.update jid \<lparr>rec_job = j, rec_dir = stg_dir g, rec_bytes = res_bytes r0, rec_files = stg_files g\<rparr>
       (jobs (sys_store S))\<rparr>"
  let ?S1 = "S\<lparr>sys_store := ?s1, sys_stagings := AList.update i g' (sys_stagings S)\<rparr>"
  have f1: "files_ok ?S1"
    unfolding committed(10)
    by (rule commit_record_files [OF f(1) g committed(1,3) dist fresh [OF committed(4)] _ refl])
       (simp add: committed(5))
  have "distinct (map fst (jobs (sys_store S)))" using f(2) by (simp add: budget_ok_def books_ok_def)
  then have "distinct (map fst (jobs ?s1))" by (simp add: distinct_update)
  then have "recs_ok ?s1" using files_okD(1) [OF f1] by (simp add: recs_ok_def)
  then have r1: "refines_files (sys_store ?S1) ?s1" "recs_ok ?s1"
    using refines_files_refl [OF f1] by simp_all
  note mk = make_room_keeps [OF f1 r1 committed(8)]
  have "?S1\<lparr>sys_store := t\<rparr> = S\<lparr>sys_store := t, sys_stagings := AList.update i g' (sys_stagings S)\<rparr>" by simp
  with refines_files_inv [OF f1 mk(1)] mk(2) committed(11) show ?thesis by metis
qed

lemma abort_files:
  assumes f: "files_ok S" and g: "map_of (sys_stagings S) i = Some g"
    and run: "abort g (sys_store S) = (g', t, e)"
  shows "files_ok (S\<lparr>sys_store := t, sys_stagings := AList.update i g' (sys_stagings S)\<rparr>) \<and> keeps_documents t e"
proof (cases "stg_state g = StagingOpen")
  case False
  with run have "g' = g" "t = sys_store S" "e = []" by (simp_all add: abort_def)
  with files_ok_cong [OF f update_same_look [OF g]] show ?thesis by simp
next
  case True
  have sg: "normal_comp i" "stg_id g = i" "stg_dir g = dir_of (sys_store S) i" "i \<notin> set (sys_pending S)"
    using files_okE(3) [OF f g] by (auto simp: staging_ok_def)
  have t: "g' = g\<lparr>stg_state := StagingAborted\<rparr>" "t = release_reservation i (sys_store S)"
    "e = map RemoveAll [dir_of (sys_store S) i]"
    using run True sg by (simp_all add: abort_def)
  have "files_ok (S\<lparr>sys_store := t, sys_stagings := AList.update i g' (sys_stagings S),
      sys_pending := sys_pending S\<rparr>)"
    by (rule release_files [OF f, where i = i])
       (use t g True sg(4) in \<open>auto simp: map_of_update' in_set_delete\<close>)
  moreover have "keeps_documents t e"
    unfolding t(3) by (rule keeps_dirs [OF f]) (use t(2) sg(1) g True in auto)
  ultimately show ?thesis by simp
qed

lemma reserve_failed_files:
  assumes f: "files_ok S" "budget_ok (sys_store S)" and i: "i \<in> set (sys_pending S)"
    and run: "reserve_finish i mk (sys_store S) = (Inl err, t, e)"
  shows "files_ok (S\<lparr>sys_store := t, sys_pending := removeAll i (sys_pending S)\<rparr>) \<and> keeps_documents t e"
proof -
  have t: "t = release_reservation i (sys_store S)" "store_closed (sys_store S) \<or> e = []"
    using run by (auto simp: reserve_finish_def Let_def split: if_splits)
  have "jobs (sys_store S) = []" if "store_closed (sys_store S)"
    using that f(2) by (simp add: budget_ok_def books_ok_def)
  then have "keeps_documents t e" using t by (auto simp: keeps_documents_def)
  moreover have none: "map_of (sys_stagings S) i = None" using files_okE(5) [OF f(1) i] by simp
  have "files_ok (S\<lparr>sys_store := t, sys_stagings := sys_stagings S, sys_pending := removeAll i (sys_pending S)\<rparr>)"
    by (rule release_files [OF f(1), where i = i]) (use t none in \<open>auto simp: in_set_delete\<close>)
  ultimately show ?thesis by simp
qed

lemma sys_step_files:
  assumes "sys_step S e T" "store_inv S"
  shows "files_ok T \<and> keeps_documents (sys_store T) e"
proof -
  from assms(2) have b: "budget_ok (sys_store S)" and f: "files_ok S" by (simp_all add: store_inv_def)
  from assms(1) show ?thesis
  proof cases
    case (step_reserve want i now t)
    with reserve_files [OF f step_reserve(3,5)] show ?thesis by simp
  next
    case (step_reserve_done i mk g t)
    with reserve_done_files [OF f step_reserve_done(2,3)] show ?thesis by simp
  next
    case (step_reserve_failed i mk err t)
    with reserve_failed_files [OF f b step_reserve_failed(2,3)] show ?thesis by simp
  next
    case (step_stage_file i g pre mk p g')
    with stage_files [OF f step_stage_file(3,4,5)] show ?thesis by simp
  next
    case (step_commit i g low pr lstat ids now n r g' t)
    with commit_files [OF f b step_commit(2,3,5,6)] show ?thesis by simp
  next
    case (step_abort i g g' t)
    with abort_files [OF f step_abort(2,3)] show ?thesis by simp
  next
    case (step_set_status k st err now r t)
    with store_only [OF f set_status_files [OF f b step_set_status(2)]] show ?thesis by simp
  next
    case (step_replace k did np ocr lstat r t)
    with store_only [OF f replace_document_files [OF f b step_replace(2,4)]] show ?thesis by simp
  next
    case (step_register k p r t)
    with store_only [OF f register_files [OF f b step_register(2,3,4)]] show ?thesis by simp
  next
    case (step_delete k r t)
    with store_only [OF f delete_files [OF f b step_delete(2)]] show ?thesis by simp
  next
    case (step_clean now n t)
    with store_only [OF f clean_files [OF f b step_clean(2)]] show ?thesis by simp
  next
    case (step_close t)
    with store_only [OF f close_files [OF f step_close(2)]] show ?thesis by simp
  qed
qed

lemma store_inv_init: "sys_init S \<Longrightarrow> store_inv S"
  by (simp add: store_inv_def sys_init_budget sys_init_files)

lemma store_inv_step: "sys_next S T \<Longrightarrow> store_inv S \<Longrightarrow> store_inv T"
  unfolding sys_next_def store_inv_def using sys_step_budget sys_step_files by (auto simp: store_inv_def)

interpretation store_safe: invariant_system sys_init sys_next store_inv
  by unfold_locales (auto intro: store_inv_init store_inv_step)

lemma reachable_store_step: "reachable_store S \<Longrightarrow> sys_step S e T \<Longrightarrow> reachable_store T"
  by (rule reach_step) (auto simp: sys_next_def)

end
