(* ===== verification/Store_Properties.thy ===== *)
theory Store_Properties
  imports Store_Safety
begin

text \<open>
  What the job store promises: the disk budget, which files may be removed, who is evicted, what is
  admitted, who sees which job, and the life of a staging. The example states at the end of each
  section show that the hypotheses hold of real states.
\<close>

section \<open>An example store\<close>

definition ex_store :: store where
  "ex_store = \<lparr>store_dir = ''/t/scan2graph'', store_ttl = 100, max_bytes = 50, jobs = [], reservations = [],
               used = 0, store_closed = False\<rparr>"

definition ex_job :: "string \<Rightarrow> time \<Rightarrow> status \<Rightarrow> int \<Rightarrow> job" where
  "ex_job k recv st sz =
     \<lparr>job_id = k, received_at = recv, expires_at = recv + 100, job_profile = ''scan@x.org'',
      caps = \<lparr>Email = True, Web = True, OCR = False\<rparr>, subject = ''Scan'', recipients = [''a@x.org''],
      documents = [\<lparr>doc_id = ''d'', display_name = ''scan.pdf'', doc_path = ''/t/scan2graph/'' @ k @ ''/f'',
                    doc_size = sz, ocr_applied = False\<rparr>],
      status = st, job_error = []\<rparr>"

definition ex_record :: "string \<Rightarrow> time \<Rightarrow> status \<Rightarrow> int \<Rightarrow> job_record" where
  "ex_record k recv st sz =
     \<lparr>rec_job = ex_job k recv st sz, rec_dir = ''/t/scan2graph/'' @ k, rec_bytes = sz,
      rec_files = [''/t/scan2graph/'' @ k @ ''/f'']\<rparr>"

text \<open>Two finished scans of 20 bytes, one of 30 bytes the pipeline still owns: above the budget by 20.\<close>

definition ex_full :: store where
  "ex_full = ex_store\<lparr>jobs := [(''B'', ex_record ''B'' 20 StatusReady 20), (''A'', ex_record ''A'' 10 StatusFailed 20),
                               (''C'', ex_record ''C'' 30 StatusProcessing 30)], used := 70\<rparr>"

definition ex_reserved :: store_system where
  "ex_reserved = \<lparr>sys_store = ex_store\<lparr>reservations :=
       [(''A'', \<lparr>res_dir = ''/t/scan2graph/A'', reserved_at = 5, res_bytes = 30\<rparr>)], used := 30\<rparr>,
     sys_stagings = [], sys_pending = [''A'']\<rparr>"

lemma ex_store_new: "new_store ''/t'' (\<lambda>_. Some ''/t'') (\<lambda>_. True) 100 50 = Inr ex_store"
  by code_simp

lemma ex_init: "sys_init \<lparr>sys_store = ex_store, sys_stagings = [], sys_pending = []\<rparr>"
proof -
  have "abs_path [''t''] = ''/t''" "list_all normal_comp [''t'']"
    by (simp_all add: abs_path_def normal_comp_def)
  then show ?thesis unfolding sys_init_def using ex_store_new
    by (intro conjI exI [of _ "''/t''"] exI [of _ "\<lambda>_. Some ''/t''"] exI [of _ "\<lambda>_. True"]
        exI [of _ 100] exI [of _ 50] exI [of _ "[''t'']"]) simp_all
qed

definition ex_dir :: path where
  "ex_dir = ''/t/scan2graph/A''"

definition ex_staged :: store_system where
  "ex_staged = ex_reserved\<lparr>sys_pending := [], sys_stagings :=
     [(''A'', \<lparr>stg_id = ''A'', stg_dir = ex_dir, stg_state = StagingOpen, stg_files = [ex_dir @ ''/f'']\<rparr>)]\<rparr>"

definition ex_new_job :: new_job where
  "ex_new_job = \<lparr>nj_profile = ''scan@x.org'', nj_caps = \<lparr>Email = True, Web = True, OCR = False\<rparr>, nj_subject = ''Scan'',
     nj_recipients = [''a@x.org''], nj_documents = [\<lparr>nd_display_name = ''s.pdf'', nd_path = ex_dir @ ''/f''\<rparr>]\<rparr>"

definition ex_lstat :: "path \<Rightarrow> fstat option" where
  "ex_lstat p = Some \<lparr>fs_regular = True, fs_size = 20\<rparr>"

definition ex_committed_job :: job where
  "ex_committed_job = \<lparr>job_id = ''J'', received_at = 6, expires_at = 106, job_profile = ''scan@x.org'',
     caps = \<lparr>Email = True, Web = True, OCR = False\<rparr>, subject = sanitize_subject (\<lambda>_. False) ''Scan'',
     recipients = [''a@x.org''],
     documents = [\<lparr>doc_id = ''D'', display_name = sanitize_display_name (\<lambda>r. r) (\<lambda>_. False) ''s.pdf'',
                   doc_path = ex_dir @ ''/f'', doc_size = 20, ocr_applied = False\<rparr>],
     status = StatusPending, job_error = []\<rparr>"

definition ex_committed :: "path list \<Rightarrow> store_system" where
  "ex_committed fs = \<lparr>sys_store = ex_store\<lparr>jobs :=
       [(''J'', \<lparr>rec_job = ex_committed_job, rec_dir = ex_dir, rec_bytes = 30, rec_files = fs\<rparr>)], used := 30\<rparr>,
     sys_stagings = [(''A'', \<lparr>stg_id = ''A'', stg_dir = ex_dir, stg_state = StagingCommitted,
                              stg_files = [ex_dir @ ''/f'']\<rparr>)], sys_pending = []\<rparr>"

lemma ex_clean: "path_clean (ex_dir @ ''/f'') = ex_dir @ ''/f''" "path_clean (ex_dir @ ''/o'') = ex_dir @ ''/o''"
  "path_join ''/t/scan2graph'' ''A'' = ex_dir"
  by code_simp+

lemma ex_file_in: "file_in ex_dir (ex_dir @ ''/f'')" "file_in ex_dir (ex_dir @ ''/o'')"
  by (simp_all add: file_in_def normal_comp_def)

lemma ex_reserved_reachable: "reachable_store ex_reserved"
proof -
  let ?S = "\<lparr>sys_store = ex_store, sys_stagings = [], sys_pending = []\<rparr>"
  have "sys_step ?S [] (?S\<lparr>sys_store := sys_store ex_reserved, sys_pending := ''A'' # sys_pending ?S\<rparr>)"
    by (rule step_reserve [where want = 30 and now = 5])
       (simp_all add: reserve_lock_def ex_store_def ex_reserved_def admits_locked_def unused_id_def
          normal_comp_def ex_clean(3) ex_dir_def)
  then have "sys_next ?S ex_reserved" by (auto simp: sys_next_def ex_reserved_def)
  moreover have "reachable_store ?S" by (rule reach_init) (rule ex_init)
  ultimately show ?thesis by (blast intro: reach_step)
qed

lemma ex_staged_reachable: "reachable_store ex_staged"
proof -
  let ?g = "\<lparr>stg_id = ''A'', stg_dir = ex_dir, stg_state = StagingOpen, stg_files = []\<rparr>"
  let ?S = "ex_reserved\<lparr>sys_store := sys_store ex_reserved,
     sys_stagings := AList.update ''A'' ?g (sys_stagings ex_reserved),
     sys_pending := removeAll ''A'' (sys_pending ex_reserved)\<rparr>"
  have "sys_step ex_reserved [] ?S"
    by (rule step_reserve_done [where mk = "\<lambda>_. True"])
       (simp_all add: reserve_finish_def ex_reserved_def ex_store_def ex_clean(3))
  from reachable_store_step [OF ex_reserved_reachable this] have r: "reachable_store ?S" .
  let ?g' = "?g\<lparr>stg_files := [ex_dir @ ''/f'']\<rparr>"
  have "sys_step ?S [] (?S\<lparr>sys_stagings := AList.update ''A'' ?g' (sys_stagings ?S)\<rparr>)"
    by (rule step_stage_file [where g = ?g and pre = "[]" and mk = "\<lambda>_ _. Some (ex_dir @ ''/f'')" and
          f = "ex_dir @ ''/f''"])
       (simp_all add: staging_create_file_def create_temp_file_def ex_reserved_def ex_file_in)
  moreover have "?S\<lparr>sys_stagings := AList.update ''A'' ?g' (sys_stagings ?S)\<rparr> = ex_staged"
    by (simp add: ex_staged_def ex_reserved_def)
  ultimately show ?thesis using reachable_store_step [OF r] by metis
qed

lemma ex_commit:
  "commit (\<lambda>r. r) (\<lambda>_. False) ex_lstat (\<lambda>n. Some (if n = 0 then ''D'' else ''J'')) 6 ex_new_job
     \<lparr>stg_id = ''A'', stg_dir = ex_dir, stg_state = StagingOpen, stg_files = [ex_dir @ ''/f'']\<rparr> (sys_store ex_staged) =
   (Inr ex_committed_job,
    \<lparr>stg_id = ''A'', stg_dir = ex_dir, stg_state = StagingCommitted, stg_files = [ex_dir @ ''/f'']\<rparr>,
    sys_store (ex_committed [ex_dir @ ''/f'']), [])"
  by (simp add: commit_def ex_new_job_def ex_lstat_def commit_reservation_def ex_staged_def ex_reserved_def
        ex_store_def ex_committed_def ex_committed_job_def make_room_locked_def held_bytes_def ex_clean
        ex_dir_def [symmetric] Let_def)

lemma ex_committed_reachable:
  "reachable_store (ex_committed [ex_dir @ ''/f''])" "reachable_store (ex_committed [ex_dir @ ''/o'', ex_dir @ ''/f''])"
proof -
  let ?S = "ex_committed [ex_dir @ ''/f'']"
  have "sys_step ex_staged [] (ex_staged\<lparr>sys_store := sys_store ?S,
     sys_stagings := AList.update ''A'' \<lparr>stg_id = ''A'', stg_dir = ex_dir, stg_state = StagingCommitted,
       stg_files = [ex_dir @ ''/f'']\<rparr> (sys_stagings ex_staged)\<rparr>)"
    by (rule step_commit [OF _ ex_commit])
       (simp_all add: ex_staged_def ex_lstat_def ex_new_job_def ex_reserved_def ex_store_def)
  moreover have "ex_staged\<lparr>sys_store := sys_store ?S,
     sys_stagings := AList.update ''A'' \<lparr>stg_id = ''A'', stg_dir = ex_dir, stg_state = StagingCommitted,
       stg_files = [ex_dir @ ''/f'']\<rparr> (sys_stagings ex_staged)\<rparr> = ?S"
    by (simp add: ex_staged_def ex_reserved_def ex_committed_def)
  ultimately show r: "reachable_store ?S" using reachable_store_step [OF ex_staged_reachable] by metis
  have "sys_step ?S [] (?S\<lparr>sys_store := sys_store (ex_committed [ex_dir @ ''/o'', ex_dir @ ''/f''])\<rparr>)"
    by (rule step_register [where k = "''J''" and f = "ex_dir @ ''/o''"])
       (auto simp: create_file_register_def ex_committed_def ex_committed_job_def ex_store_def fresh_file_def ex_file_in)
  moreover have "?S\<lparr>sys_store := sys_store (ex_committed [ex_dir @ ''/o'', ex_dir @ ''/f''])\<rparr> =
      ex_committed [ex_dir @ ''/o'', ex_dir @ ''/f'']" by (simp add: ex_committed_def)
  ultimately show "reachable_store (ex_committed [ex_dir @ ''/o'', ex_dir @ ''/f''])"
    using reachable_store_step [OF r] by metis
qed

lemma ex_full_books: "books_ok ex_full"
  by (simp add: books_ok_def ex_full_def ex_store_def ex_record_def ex_job_def record_budget_def
                doc_bytes_def unfinished_bytes_def)

section \<open>The budget\<close>

text \<open>C3: In every state the store can reach, whatever order its callers' operations take, the byte
  counter is exactly the sum of the charges, it is never negative, what the committed jobs hold fits in
  the budget, and even with every open reservation added the counter stays within twice the budget, so
  the 64-bit counter cannot wrap for any budget below 2^62.\<close>

theorem store_budget_invariant:
  assumes "reachable_store S"
  shows "used (sys_store S) = asum rec_bytes (jobs (sys_store S)) + asum res_bytes (reservations (sys_store S)) \<and>
         asum rec_bytes (jobs (sys_store S)) \<le> max_bytes (sys_store S) \<and>
         0 \<le> used (sys_store S) \<and> used (sys_store S) \<le> 2 * max_bytes (sys_store S)"
proof -
  have b: "budget_ok (sys_store S)" using store_budget.reachable_inv [OF assms] .
  note bk = budget_books [OF b]
  have "0 \<le> asum rec_bytes (jobs (sys_store S))" "0 \<le> asum res_bytes (reservations (sys_store S))"
    using bk by (auto intro!: asum_nonneg simp: books_ok_def record_budget_def)
  with b unfinished_nonneg [OF bk] held_bytes_books [OF bk] show ?thesis
    by (auto simp: budget_ok_def books_ok_def)
qed

theorem store_budget_invariant_witness:
  "used (sys_store ex_reserved) = 30 \<and>
   used (sys_store ex_reserved) \<le> 2 * max_bytes (sys_store ex_reserved)"
  using store_budget_invariant [OF ex_reserved_reachable] by (simp add: ex_reserved_def ex_store_def)

text \<open>C6: Making room evicts finished jobs only, oldest arrivals first and no more of them than it takes:
  without the last one evicted the store would still be over its budget. Every other job is untouched,
  and afterwards what is held fits in the budget.\<close>

theorem make_room_evicts_oldest_finished:
  assumes "books_ok s" "make_room_locked s = (t, ev)"
  shows "held_bytes t \<le> max_bytes t \<and>
    (\<forall>(k, r) \<in> set ev. (k, r) \<in> set (jobs s) \<and> finished (status (rec_job r)) \<and> (k, evict_record r) \<in> set (jobs t)) \<and>
    (\<forall>(k, r) \<in> set (jobs s). (k, r) \<notin> set ev \<longrightarrow> (k, r) \<in> set (jobs t)) \<and>
    (\<forall>(k, r) \<in> set ev. \<forall>(k', r') \<in> set (jobs s).
       0 < rec_bytes r' \<and> finished (status (rec_job r')) \<and> (k', r') \<notin> set ev \<longrightarrow>
       received_at (rec_job r) \<le> received_at (rec_job r')) \<and>
    (ev \<noteq> [] \<longrightarrow> max_bytes s < held_bytes s - bytes_of (butlast ev))"
proof -
  have dj: "distinct (map fst (jobs s))" using assms(1) by (simp add: books_ok_def)
  obtain n where n: "n \<le> length (candidates s)" "ev = take n (candidates s)"
    and t: "t = s\<lparr>jobs := evict_all (map fst ev) (jobs s), used := used s - bytes_of ev\<rparr>"
    and short: "\<forall>m < n. max_bytes s < held_bytes s - bytes_of (take m (candidates s))"
    by (rule make_room_closed [OF assms(2) dj])
  note c = candidates_facts [OF dj]
  have ev: "(k, r) \<in> set (jobs s) \<and> finished (status (rec_job r))" if "(k, r) \<in> set ev" for k r
    using that n(2) c(3) by (auto dest: in_set_takeD)
  have gone: "(k, evict_record r) \<in> set (jobs t)" if "(k, r) \<in> set ev" for k r
    using ev [OF that] that unfolding t by (force simp: in_evict_all)
  have stay: "(k, r) \<in> set (jobs t)" if kr: "(k, r) \<in> set (jobs s)" "(k, r) \<notin> set ev" for k r
  proof -
    have "k \<notin> set (map fst ev)"
    proof
      assume "k \<in> set (map fst ev)"
      then obtain b where "(k, b) \<in> set ev" by auto
      with ev kr dj show False by (metis eq_key_imp_eq_value)
    qed
    with kr show ?thesis unfolding t by (force simp: in_evict_all)
  qed
  have oldest: "received_at (rec_job r) \<le> received_at (rec_job r')"
    if "(k, r) \<in> set ev" "(k', r') \<in> set (candidates s)" "(k', r') \<notin> set ev" for k r k' r'
  proof -
    have "(k', r') \<in> set (drop n (candidates s))"
      using that n(2) by (metis Un_iff append_take_drop_id set_append)
    moreover have "sorted (map (\<lambda>p. received_at (rec_job (snd p))) (take n (candidates s) @ drop n (candidates s)))"
      using c(4) by simp
    ultimately show ?thesis
      using that(1) n(2) unfolding map_append sorted_append by force
  qed
  have last: "max_bytes s < held_bytes s - bytes_of (butlast ev)" if "ev \<noteq> []"
  proof -
    have "0 < n" using that n(2) by (cases n) auto
    moreover from this n have "butlast ev = take (n - 1) (candidates s)" by (simp add: butlast_take)
    ultimately show ?thesis using short by simp
  qed
  have "held_bytes t \<le> max_bytes t" using make_room_budget [OF assms] by (simp add: budget_ok_def)
  with ev gone stay oldest last c(3) show ?thesis by blast
qed

theorem make_room_evicts_oldest_finished_witness:
  "held_bytes (fst (make_room_locked ex_full)) \<le> 50 \<and>
   map fst (snd (make_room_locked ex_full)) = [''A'']"
proof -
  have m: "max_bytes (fst (make_room_locked ex_full)) = 50 \<and> map fst (snd (make_room_locked ex_full)) = [''A'']"
    by code_simp
  from make_room_evicts_oldest_finished [OF ex_full_books, of "fst (make_room_locked ex_full)"
      "snd (make_room_locked ex_full)"] m show ?thesis by simp
qed

text \<open>C7: \<open>Reserve\<close> refuses a job for lack of room exactly when it would not fit even after every finished
  job had given way, and admitting one never costs anybody a scan: the jobs are untouched either way.\<close>

theorem reserve_admits_iff_freeable:
  assumes "budget_ok s" "\<not> store_closed s"
  shows "(fst (reserve_lock want (Some i) now s) = Inl ErrCapacity \<longleftrightarrow>
            max_bytes s < asum unfinished_bytes (jobs s) + asum res_bytes (reservations s) + want) \<and>
         (fst (reserve_lock want (Some i) now s) \<noteq> Inl ErrCapacity \<longleftrightarrow>
            fst (reserve_lock want (Some i) now s) = Inr i) \<and>
         jobs (snd (reserve_lock want (Some i) now s)) = jobs s"
  using admits_iff [OF budget_books [OF assms(1)], of want] assms(2) by (auto simp: reserve_lock_def)

theorem reserve_admits_iff_freeable_witness:
  "fst (reserve_lock 51 (Some ''A'') 5 ex_store) = Inl ErrCapacity"
proof -
  have "budget_ok ex_store" using new_store_budget [OF ex_store_new] .
  from reserve_admits_iff_freeable [OF this, of 51 "''A''" 5] show ?thesis
    by (simp add: ex_store_def)
qed

section \<open>Files\<close>

text \<open>C4: No step of the store removes a file that a document of a job still in the store points at:
  neither eviction, nor the sweep of expired jobs and leaked reservations, nor an abort, a deletion, a
  replaced document or the clean-up of leftovers when a job is finished.\<close>

theorem store_never_removes_referenced:
  assumes "reachable_store S" "sys_step S e T" "(k, r) \<in> set (jobs (sys_store T))"
    "d \<in> set (documents (rec_job r))"
  shows "\<not> removes e (doc_path d)"
proof -
  have "keeps_documents (sys_store T) e"
    using sys_step_files [OF assms(2) store_safe.reachable_inv [OF assms(1)]] by simp
  with assms(3,4) show ?thesis unfolding keeps_documents_def by blast
qed

theorem store_never_removes_referenced_witness:
  "snd (snd (set_status ''J'' StatusReady [] 7 (sys_store (ex_committed [ex_dir @ ''/o'', ex_dir @ ''/f''])))) =
     [Remove (ex_dir @ ''/o'')] \<and>
   \<not> removes [Remove (ex_dir @ ''/o'')] (ex_dir @ ''/f'')"
proof -
  let ?S = "ex_committed [ex_dir @ ''/o'', ex_dir @ ''/f'']"
  let ?doc = "\<lparr>doc_id = ''D'', display_name = sanitize_display_name (\<lambda>r. r) (\<lambda>_. False) ''s.pdf'',
                   doc_path = ex_dir @ ''/f'', doc_size = 20, ocr_applied = False\<rparr>"
  let ?r = "\<lparr>rec_job = ex_committed_job\<lparr>status := StatusReady, expires_at := 107\<rparr>, rec_dir = ex_dir,
             rec_bytes = 20, rec_files = [ex_dir @ ''/f'']\<rparr>"
  let ?t = "(sys_store ?S)\<lparr>used := 20, jobs := [(''J'', ?r)]\<rparr>"
  have run: "set_status ''J'' StatusReady [] 7 (sys_store ?S) = (Inr (), ?t, [Remove (ex_dir @ ''/o'')])"
    by (simp add: set_status_def update_job_def charge_def ex_committed_def ex_committed_job_def ex_store_def
          make_room_locked_def held_bytes_def doc_bytes_def ex_clean)
  have step: "sys_step ?S [Remove (ex_dir @ ''/o'')] (?S\<lparr>sys_store := ?t\<rparr>)"
    by (rule step_set_status [OF run])
       (auto simp: ex_committed_def ex_committed_job_def forward_def)
  have "\<not> removes [Remove (ex_dir @ ''/o'')] (doc_path ?doc)"
    by (rule store_never_removes_referenced [OF ex_committed_reachable(2) step, of "''J''" ?r])
       (simp_all add: ex_committed_job_def)
  with run show ?thesis by simp
qed

text \<open>C5: Every document of every job in a reachable store is a file the store itself created directly in
  that job's own directory, and no two jobs share a directory: no path from outside can be served.\<close>

theorem store_documents_are_own_files:
  assumes "reachable_store S" "(k, r) \<in> set (jobs (sys_store S))" "d \<in> set (documents (rec_job r))"
  shows "doc_path d \<in> set (rec_files r) \<and> file_in (rec_dir r) (doc_path d) \<and>
         prefix (store_dir (sys_store S) @ ''/'') (rec_dir r) \<and>
         (\<forall>(k', r') \<in> set (jobs (sys_store S)). rec_dir r' = rec_dir r \<longrightarrow> k' = k)"
proof -
  have f: "files_ok S" using store_safe.reachable_inv [OF assms(1)] by (simp add: store_inv_def)
  note p = doc_file [OF files_okD(1) [OF f assms(2)] assms(3)]
  have "file_in (rec_dir r) (doc_path d)" using files_okD(1) [OF f assms(2)] p by (simp add: record_files_def)
  moreover have "prefix (store_dir (sys_store S) @ ''/'') (rec_dir r)"
    using files_okD(2) [OF f assms(2)] by (auto simp: job_dir_ok_def dir_of_def)
  moreover have "\<forall>(k', r') \<in> set (jobs (sys_store S)). rec_dir r' = rec_dir r \<longrightarrow> k' = k"
    using files_okE(2) [OF f _ assms(2)] by blast
  ultimately show ?thesis using p by blast
qed

theorem store_documents_are_own_files_witness:
  "file_in ex_dir (ex_dir @ ''/f'') \<and> prefix ''/t/scan2graph/'' ex_dir"
proof -
  let ?doc = "\<lparr>doc_id = ''D'', display_name = sanitize_display_name (\<lambda>r. r) (\<lambda>_. False) ''s.pdf'',
                   doc_path = ex_dir @ ''/f'', doc_size = 20, ocr_applied = False\<rparr>"
  from store_documents_are_own_files [OF ex_committed_reachable(1), of "''J''" _ ?doc]
  show ?thesis by (simp add: ex_committed_def ex_committed_job_def ex_store_def)
qed

section \<open>Who sees which job\<close>

text \<open>The web UI's listing is exactly the live, web-visible jobs that have the user among their
  recipients by one of the user's non-empty identities, newest first; a user without identities sees
  nothing.\<close>

theorem list_for_user_authorised:
  "(j \<in> set (list_for_user identities now s) \<longleftrightarrow>
      (\<exists>(k, r) \<in> set (jobs s). rec_job r = j) \<and> Web (caps j) \<and> live j now \<and>
      (\<exists>i \<in> set identities. i \<noteq> [] \<and> i \<in> set (recipients j))) \<and>
   sorted_wrt (\<lambda>a b. received_at b \<le> received_at a) (list_for_user identities now s)"
proof -
  let ?want = "filter (\<lambda>i. i \<noteq> []) identities"
  let ?js = "filter (\<lambda>j. Web (caps j) \<and> live j now \<and> list_ex (\<lambda>r. r \<in> set ?want) (recipients j))
               (map (\<lambda>p. rec_job (snd p)) (jobs s))"
  have eq: "list_for_user identities now s = sort_key (\<lambda>j. - received_at j) ?js"
  proof (cases "?want = []")
    case True
    then have "?js = []" by (simp add: list_ex_iff)
    with True show ?thesis by (simp add: list_for_user_def)
  next
    case False
    have "map clone_job xs = xs" for xs by (induction xs) simp_all
    with False show ?thesis by (auto simp: list_for_user_def)
  qed
  have "sorted_wrt (\<lambda>a b. - received_at a \<le> - received_at b) (list_for_user identities now s)"
    unfolding eq using sorted_sort_key [of "\<lambda>j. - received_at j" ?js] by (simp add: sorted_map)
  then show ?thesis unfolding eq by (force simp: list_ex_iff)
qed

text \<open>C8: The sweep and the readers agree on what is expired: the sweep deletes exactly the jobs that no
  reader can see any more, says how many, and from then on every lookup, at this or a later time, gives
  what it gave before; what it frees is subtracted from the counter.\<close>

theorem clean_expired_exact:
  assumes "books_ok s" "clean_expired now s = (n, t, e)" "now \<le> later"
  shows "jobs t = filter (\<lambda>p. live (rec_job (snd p)) now) (jobs s) \<and>
         n + length (jobs t) = length (jobs s) \<and>
         get k later t = get k later s \<and>
         used t = asum rec_bytes (jobs t) + asum res_bytes (reservations t)"
proof -
  have d: "distinct (map fst (jobs s))" "distinct (map fst (reservations s))"
    using assms(1) by (simp_all add: books_ok_def)
  note c = clean_expired_closed [OF assms(2) d]
  have live: "live j now" if "live j later" for j
    using that assms(3) by (auto simp: live_def split: status.splits)
  have "map_of (jobs t) k = (case map_of (jobs s) k of None \<Rightarrow> None
      | Some r \<Rightarrow> if live (rec_job r) now then Some r else None)"
    unfolding c(1) by (rule map_of_filter_val [OF d(1)])
  then have get: "get k later t = get k later s"
    using live by (auto simp: get_def split: option.splits)
  have "length (filter (\<lambda>p. live (rec_job (snd p)) now) (jobs s)) + length (filter (dead now) (jobs s)) = length (jobs s)"
    by (rule sum_length_filter_compl)
  moreover have "used t = asum rec_bytes (jobs t) + asum res_bytes (reservations t)"
    using assms(1) asum_filter_split [of rec_bytes "jobs s" "\<lambda>r. live (rec_job r) now"]
      asum_filter_split [of res_bytes "reservations s" "\<lambda>r. now - reserved_at r > stale_reservation_after"]
    by (simp add: c books_ok_def)
  ultimately show ?thesis using c(1,3) get by simp
qed

theorem clean_expired_exact_witness:
  "get ''A'' 130 (fst (snd (clean_expired 115 ex_full))) = get ''A'' 130 ex_full \<and>
   fst (clean_expired 115 ex_full) = 1"
proof -
  have one: "fst (clean_expired 115 ex_full) = 1"
    by (simp add: clean_expired_def ex_full_def ex_store_def ex_record_def ex_job_def live_def charge_def)
  obtain n t e where c: "clean_expired 115 ex_full = (n, t, e)" by (cases "clean_expired 115 ex_full")
  from clean_expired_exact [OF ex_full_books c, of 130 "''A''"] c one show ?thesis by simp
qed

section \<open>Status changes\<close>

text \<open>A final status starts the download window afresh: whatever the arrival time was, the job is
  visible to \<open>Get\<close> for exactly the TTL after the call (unless making room evicted it), an error text is
  kept for a failed job only, and the job is charged what its documents occupy.\<close>

theorem set_status_final_window:
  assumes "books_ok s" "map_of (jobs s) k = Some r" "status (rec_job r) \<noteq> StatusEvicted" "finished st"
    "set_status k st err now s = (res, t, e)"
  shows "res = Inr () \<and>
    (\<exists>r'. map_of (jobs t) k = Some r' \<and>
       (status (rec_job r') = StatusEvicted \<and> rec_bytes r' = 0 \<or>
        status (rec_job r') = st \<and> job_error (rec_job r') = (if st = StatusFailed then err else []) \<and>
        rec_bytes r' = doc_bytes (documents (rec_job r)) \<and> documents (rec_job r') = documents (rec_job r) \<and>
        (\<forall>at. get k at t \<noteq> None \<longleftrightarrow> at < now + store_ttl s)))"
proof -
  let ?g = "settle st err (now + store_ttl s) (documents (rec_job r)) r"
  have m: "res = Inr ()" "map_of (jobs t) k = Some ?g \<or> map_of (jobs t) k = Some (evict_record ?g)"
    using set_status_final_record [OF assms] by auto
  have "live (rec_job ?g) at \<longleftrightarrow> at < now + store_ttl s" for at
    using assms(4) by (auto simp: live_def settle_def finished_def)
  then have "map_of (jobs t) k = Some ?g \<Longrightarrow> get k at t \<noteq> None \<longleftrightarrow> at < now + store_ttl s" for at
    by (simp add: get_def)
  with m show ?thesis by (auto simp: settle_def)
qed

theorem set_status_final_window_witness:
  "fst (set_status ''C'' StatusFailed ''no'' 40 ex_full) = Inr ()"
proof -
  obtain res t e where c: "set_status ''C'' StatusFailed ''no'' 40 ex_full = (res, t, e)"
    by (cases "set_status ''C'' StatusFailed ''no'' 40 ex_full")
  have m: "map_of (jobs ex_full) ''C'' = Some (ex_record ''C'' 30 StatusProcessing 30)" by (simp add: ex_full_def)
  show ?thesis
    using set_status_final_window [OF ex_full_books m _ _ c] c by (simp add: ex_record_def ex_job_def)
qed

section \<open>Stagings\<close>

text \<open>A staging is committed or aborted at most once. A successful commit yields a pending job with
  exactly the staged documents, under sanitized names, whose files the staging created; afterwards a
  second commit is refused and an abort does nothing, and neither touches the store.\<close>

theorem commit_once:
  assumes "commit low pr lstat ids now n g s = (Inr j, g', t, e)"
  shows "status j = StatusPending \<and> nj_documents n \<noteq> [] \<and>
    map display_name (documents j) = map (sanitize_display_name low pr \<circ> nd_display_name) (nj_documents n) \<and>
    nd_path ` set (nj_documents n) \<subseteq> set (stg_files g) \<and>
    commit low pr lstat' ids' now' n' g' t' = (Inl ErrAlreadyCommitted, g', t', []) \<and>
    abort g' t' = (g', t', [])"
  using assms
proof (cases rule: commit_cases)
  case (committed docs jid j' r0 ev)
  note c = commit_docs_facts [OF committed(3)]
  have "map display_name docs = map (sanitize_display_name low pr \<circ> nd_display_name) (nj_documents n)"
    using c by (intro nth_equalityI) auto
  moreover have "nd_path ` set (nj_documents n) \<subseteq> set (stg_files g)"
    using c by (auto simp: in_set_conv_nth)
  ultimately show ?thesis using committed by (simp add: commit_def abort_def)
qed simp

theorem commit_once_witness:
  "status ex_committed_job = StatusPending \<and>
   abort \<lparr>stg_id = ''A'', stg_dir = ex_dir, stg_state = StagingCommitted, stg_files = [ex_dir @ ''/f'']\<rparr> ex_store =
     (\<lparr>stg_id = ''A'', stg_dir = ex_dir, stg_state = StagingCommitted, stg_files = [ex_dir @ ''/f'']\<rparr>, ex_store, [])"
  using commit_once [OF ex_commit, where t' = ex_store] by simp

end
