(* ===== verification/Jobs_Properties.thy ===== *)
theory Jobs_Properties
  imports Jobs
begin

text \<open>
  What the two sanitizers of \<open>internal/jobs/job.go\<close> promise about any input, hostile or not: a subject
  and a display name that are safe in a mail header, a Content-Disposition header and the web UI.
\<close>

section \<open>Subjects\<close>

text \<open>Whatever a scanner sends as subject, the sanitized one is valid UTF-8 of at most 200 runes, each of
  them a plain space or a printable character that is not white space; in particular no control
  character, hence no line break that could start another header.\<close>

theorem sanitize_subject_safe:
  "\<exists>rs. sanitize_subject pr s = utf8 rs \<and> list_all valid_rune rs \<and> length rs \<le> 200 \<and>
        list_all (\<lambda>r. (r = 32 \<or> (is_print pr r \<and> \<not> is_space r)) \<and> \<not> is_control r) rs"
proof -
  obtain rs where rs: "sanitize_subject pr s = utf8 rs" "valid_runes rs" "length rs \<le> max_subject_runes"
    "\<forall>r \<in> set rs. r = 32 \<or> (is_print pr r \<and> \<not> is_space r)"
    by (rule subject_runes)
  have "\<not> is_control r" if "r \<in> set rs" for r
    using rs(4) that is_print_not_control [of pr r] by (auto simp: is_control_def)
  with rs show ?thesis by (intro exI [of _ rs]) (auto simp: list_all_iff max_subject_runes_def)
qed

section \<open>Display names\<close>

lemma dot_rune: "valid_rune r \<Longrightarrow> (hd (encode_rune r) = CHR ''.'') = (r = 46)"
proof
  assume v: "valid_rune r" and h: "hd (encode_rune r) = CHR ''.''"
  obtain c cs where e: "encode_rune r = c # cs" using encode_rune_nonempty by (cases "encode_rune r") auto
  have "decode_rune (CHR ''.'' # cs) = (46, 1)" using decode_rune_ascii [of "CHR ''.''" cs] by simp
  with decode_encode [OF v, of "[]"] e h show "r = 46" by simp
next
  assume "r = 46"
  then show "hd (encode_rune r) = CHR ''.''"
    by (simp add: encode_rune_def valid_rune_def char_of_nat_ascii)
qed

lemma encode_dot: "encode_rune 46 = ''.''"
  by (simp add: encode_rune_def valid_rune_def char_of_nat_ascii)

lemma trim_left_dots: "valid_runes rs \<Longrightarrow> trim_left_set ''.'' (utf8 rs) = utf8 (dropWhile (\<lambda>r. r = 46) rs)"
proof (induction rs)
  case (Cons r rs)
  obtain c cs where e: "encode_rune r = c # cs" using encode_rune_nonempty by (cases "encode_rune r") auto
  show ?case
  proof (cases "r = 46")
    case True
    with Cons show ?thesis by (simp add: trim_left_set_def encode_dot)
  next
    case False
    with dot_rune [of r] Cons.prems e have "c \<noteq> CHR ''.''" by simp
    with False e show ?thesis by (simp add: trim_left_set_def)
  qed
qed (simp add: trim_left_set_def)

lemma utf8_append [simp]: "utf8 (rs @ qs) = utf8 rs @ utf8 qs"
  by (simp add: utf8_def)

lemma lower_pdf: "map (lower_rune low) [46, 112, 100, 102] = [46, 112, 100, 102]"
  by (simp add: lower_rune_def)

lemma to_lower_pdf: "valid_runes rs \<Longrightarrow> suffix ''.pdf'' (to_lower low (utf8 (rs @ [46, 112, 100, 102])))"
proof -
  assume v: "valid_runes rs"
  have "valid_runes (rs @ [46, 112, 100, 102])" using v by (simp add: valid_rune_def)
  then have "runes (utf8 (rs @ [46, 112, 100, 102])) = rs @ [46, 112, 100, 102]" by (rule runes_utf8_valid)
  then have "to_lower low (utf8 (rs @ [46, 112, 100, 102])) = utf8 (map (lower_rune low) rs @ [46, 112, 100, 102])"
    by (simp only: to_lower_def map_append lower_pdf)
  also have "\<dots> = utf8 (map (lower_rune low) rs) @ ''.pdf''" by (simp only: utf8_append utf8_dot_pdf)
  finally show ?thesis unfolding suffix_def by blast
qed

definition name_rune_safe :: "(rune \<Rightarrow> bool) \<Rightarrow> rune \<Rightarrow> bool" where
  "name_rune_safe pr r \<longleftrightarrow> r \<notin> {34, 39, 47, 92} \<and> (is_print pr r \<or> r = 32)"

lemma name_body:
  fixes pr low name
  defines "n3 \<equiv> trim_space (trim_left_set ''.'' (join_with '' '' (str_fields
                  (utf8 (filter (name_rune_kept pr) (runes (base_name (to_valid_utf8 name))))))))"
  obtains rs where "n3 = utf8 rs" "valid_runes rs" "list_all (name_rune_safe pr) rs"
proof -
  let ?q = "filter (name_rune_kept pr) (runes (base_name (to_valid_utf8 name)))"
  have q: "valid_runes ?q" using runes_valid by (auto simp: list_all_iff)
  let ?j = "join_with [32] (rune_fields_from [] ?q)"
  have sub: "r = 32 \<or> r \<in> set ?q" if "r \<in> set ?j" for r
    using set_join_fields [OF that] by blast
  have kept: "name_rune_safe pr r" if "r \<in> set ?q" for r
    using that by (auto simp: name_rune_safe_def name_rune_kept_def)
  have "set ?j \<subseteq> insert 32 (set ?q)" using sub by blast
  then have j1: "valid_runes ?j" by (rule valid_runes_subset [OF _ q])
  have j2: "\<forall>r \<in> set ?j. name_rune_safe pr r"
  proof
    fix r assume "r \<in> set ?j"
    from sub [OF this] kept show "name_rune_safe pr r" by (auto simp: name_rune_safe_def)
  qed
  note j = j1 j2
  let ?d = "dropWhile (\<lambda>r. r = 46) ?j"
  have d: "valid_runes ?d" using j(1) by (auto simp: list_all_iff dest: set_dropWhileD)
  have "n3 = utf8 (rune_trim ?d)"
    unfolding n3_def using q j d by (simp add: join_fields_utf8 trim_left_dots trim_space_utf8)
  moreover have sub: "set (rune_trim ?d) \<subseteq> set ?j"
    using set_rune_trim [of ?d] by (auto dest: set_dropWhileD)
  ultimately show thesis
    using that [of "rune_trim ?d"] j by (auto simp: list_all_iff)
qed

text \<open>Whatever a scanner calls its attachment, the display name is non-empty valid UTF-8 of at most 100
  runes that ends in .pdf in any letter case; each rune is printable or a plain space, and none is a
  quote, a slash or a backslash, so no directory component, header injection or quoting trick survives.\<close>

theorem sanitize_display_name_safe:
  "\<exists>rs. sanitize_display_name low pr name = utf8 rs \<and> list_all valid_rune rs \<and> rs \<noteq> [] \<and> length rs \<le> 100 \<and>
        list_all (name_rune_safe pr) rs \<and> suffix ''.pdf'' (to_lower low (sanitize_display_name low pr name))"
proof -
  let ?n3 = "trim_space (trim_left_set ''.'' (join_with '' '' (str_fields
               (utf8 (filter (name_rune_kept pr) (runes (base_name (to_valid_utf8 name))))))))"
  let ?pdf = "[46, 112, 100, 102] :: rune list"
  have pdf: "valid_runes ?pdf" "list_all (name_rune_safe pr) ?pdf"
    by (simp_all add: valid_rune_def name_rune_safe_def is_print_def)
  have fallback: ?thesis if "sanitize_display_name low pr name = ''scan.pdf''"
  proof -
    have c: "char_of (115 :: nat) = CHR ''s''" "char_of (99 :: nat) = CHR ''c''" "char_of (97 :: nat) = CHR ''a''"
      "char_of (110 :: nat) = CHR ''n''" by code_simp+
    have s: "''scan.pdf'' = utf8 ([115, 99, 97, 110] @ ?pdf)"
      unfolding utf8_append utf8_dot_pdf by (simp add: encode_rune_def valid_rune_def c)
    have v: "valid_runes [115, 99, 97, 110]" by (simp add: valid_rune_def)
    from to_lower_pdf [OF v, of low] s have "suffix ''.pdf'' (to_lower low ''scan.pdf'')" by simp
    with that s v pdf show ?thesis
      by (intro exI [of _ "[115, 99, 97, 110] @ ?pdf"]) (simp add: name_rune_safe_def is_print_def)
  qed
  obtain rs where rs: "?n3 = utf8 rs" "valid_runes rs" "list_all (name_rune_safe pr) rs" by (rule name_body)
  show ?thesis
  proof (cases "rs = []")
    case True
    with rs(1) have "sanitize_display_name low pr name = ''scan.pdf''" by (simp add: sanitize_display_name_def)
    then show ?thesis by (rule fallback)
  next
    case False
    let ?has = "suffix ''.pdf'' (to_lower low (utf8 rs))"
    define qs where "qs = (if ?has then rs else rs @ ?pdf)"
    have qs: "valid_runes qs" "list_all (name_rune_safe pr) qs" "qs \<noteq> []" using rs pdf False by (auto simp: qs_def)
    have low: "suffix ''.pdf'' (to_lower low (utf8 qs))" using to_lower_pdf [OF rs(2), of low] by (auto simp: qs_def)
    have n4: "(if ?has then utf8 rs else utf8 rs @ ''.pdf'') = utf8 qs" by (auto simp: qs_def utf8_dot_pdf [symmetric])
    have s: "sanitize_display_name low pr name =
        (if 100 < length qs then utf8 (take 96 qs) @ ''.pdf'' else utf8 qs)"
      unfolding sanitize_display_name_def Let_def rs(1) n4
      using False qs by (simp add: max_name_runes_def)
    show ?thesis
    proof (cases "100 < length qs")
      case True
      have v: "valid_runes (take 96 qs)" "list_all (name_rune_safe pr) (take 96 qs)"
        using qs by (auto simp: list_all_iff dest: in_set_takeD)
      have "utf8 (take 96 qs) @ ''.pdf'' = utf8 (take 96 qs @ ?pdf)"
        by (simp only: utf8_append utf8_dot_pdf)
      with to_lower_pdf [OF v(1), of low] True s v pdf show ?thesis
        by (intro exI [of _ "take 96 qs @ ?pdf"]) (simp del: utf8_append)
    next
      case False
      with s low qs show ?thesis by (intro exI [of _ qs]) simp
    qed
  qed
qed

text \<open>Leading dots are stripped before the name is trimmed a last time, so one can come to the front again.\<close>

lemma display_name_keeps_leading_dot:
  "sanitize_display_name (\<lambda>r. r) (\<lambda>_. False) ''. .pdf'' = ''.pdf''"
proof -
  let ?rs = "[46, 32, 46, 112, 100, 102] :: rune list"
  have v: "valid_runes ?rs" "valid_runes [32, 46, 112, 100, 102]" "valid_runes [46, 112, 100, 102]"
    by (simp_all add: valid_rune_def)
  have "to_valid_utf8 ''. .pdf'' = ''. .pdf''" by (simp add: rune_error_def)
  moreover have "base_name ''. .pdf'' = ''. .pdf''" by (simp add: base_name_def replace_all_no_old)
  moreover have "runes ''. .pdf'' = ?rs" by simp
  moreover have "filter (name_rune_kept (\<lambda>_. False)) ?rs = ?rs" by (simp add: name_rune_kept_def is_print_def)
  moreover have "join_with [32] (rune_fields_from [] ?rs) = ?rs" by (simp add: is_space_def)
  moreover have "dropWhile (\<lambda>r. r = 46) ?rs = [32, 46, 112, 100, 102]" by simp
  moreover have "rune_trim [32, 46, 112, 100, 102] = [46, 112, 100, 102]" by (simp add: rune_trim_def is_space_def)
  ultimately have n3: "trim_space (trim_left_set ''.'' (join_with '' '' (str_fields (utf8
      (filter (name_rune_kept (\<lambda>_. False)) (runes (base_name (to_valid_utf8 ''. .pdf'')))))))) = ''.pdf''"
    using v by (simp only: join_fields_utf8 trim_left_dots trim_space_utf8 utf8_dot_pdf)
  have "suffix ''.pdf'' (to_lower (\<lambda>r. r) ''.pdf'')"
    using to_lower_pdf [of "[]" "\<lambda>r. r"] by (simp only: append_Nil utf8_dot_pdf list.pred_inject)
  with n3 show ?thesis
    unfolding sanitize_display_name_def Let_def n3 by (simp add: max_name_runes_def)
qed

end
