(* ===== verification/Config_Address.thy ===== *)
theory Config_Address
  imports Go_Strings
begin

text \<open>
  The configuration record and the address rules of \<open>internal/config/config.go\<close>: sender profiles,
  the canonical form of an address and the recipient-domain allowlist. The SMTP listener, the web UI
  and the loader all go through these.
\<close>

section \<open>The configuration\<close>

record capabilities =
  cap_email :: bool
  cap_web :: bool
  cap_ocr :: bool

definition no_caps :: capabilities where
  "no_caps = \<lparr>cap_email = False, cap_web = False, cap_ocr = False\<rparr>"

record limits =
  max_message_bytes :: int
  max_stored_bytes :: int
  max_concurrent_jobs :: int

datatype log_level = LevelDebug | LevelInfo | LevelWarn | LevelError

record config =
  http_addr :: string
  smtp_addr :: string
  public_base_url :: string
  path_prefix :: string
  temp_dir :: string
  cfg_log_level :: log_level
  cfg_log_format :: string
  ui_title :: string
  smtp_username :: string
  smtp_password :: string
  smtp_allow_anonymous :: bool
  smtp_password_generated :: bool
  profiles :: "(string \<times> capabilities) list"
  default_profile :: capabilities
  allowed_recipient_domains :: "string list"
  tenant_id :: string
  client_id :: string
  client_secret :: string
  authority_url :: string
  token_url :: string
  graph_base_url :: string
  graph_scope :: string
  graph_sender :: string
  di_endpoint :: string
  di_api_version :: string
  di_scope :: string
  job_ttl :: duration
  cfg_limits :: limits

section \<open>NormalizeAddress\<close>

definition strip_angle :: "string \<Rightarrow> string" where
  "strip_angle s =
     (if 2 \<le> length s \<and> prefix ''<'' s \<and> suffix ''>'' s then trim_space (butlast (tl s)) else s)"

definition normalize_address :: "(rune \<Rightarrow> rune) \<Rightarrow> string \<Rightarrow> string" where
  "normalize_address low s0 =
     (let s = strip_angle (trim_space s0) in
      if s = [] \<or> 254 < length s then []
      else if list_ex (\<lambda>r. is_space r \<or> is_control r) (runes s) then []
      else if count_list s (CHR ''@'') \<noteq> 1 then []
      else (let lcl = before (CHR ''@'') s; domain = after (CHR ''@'') s in
            if lcl = [] \<or> domain = [] \<or> \<not> contains ''.'' domain then []
            else to_lower low s))"

text \<open>
  What the callers rely on: one @ with something on both sides, a dot in the domain, no white space or
  control character, and letters already lowered.
\<close>

definition canonical :: "(rune \<Rightarrow> rune) \<Rightarrow> string \<Rightarrow> bool" where
  "canonical low a \<longleftrightarrow>
     count_list a (CHR ''@'') = 1 \<and> before (CHR ''@'') a \<noteq> [] \<and>
     CHR ''.'' \<in> set (after (CHR ''@'') a) \<and>
     list_all (\<lambda>r. \<not> is_space r \<and> \<not> is_control r) (runes a) \<and> to_lower low a = a"

lemma contains_dot: "contains ''.'' s \<longleftrightarrow> CHR ''.'' \<in> set s"
  by (induction s) auto

lemma runes_append_ascii: "byte c < 128 \<Longrightarrow> runes (u @ c # v) = runes u @ byte c # runes v"
proof (induction u rule: runes.induct)
  case (2 d ds)
  obtain r w where d: "decode_rune (d # ds) = (r, w)" by (cases "decode_rune (d # ds)")
  then have "w \<le> length (d # ds)" "1 \<le> w" using decode_rune_width [of "d # ds" r w] by auto
  then have w: "w - 1 \<le> length ds" by simp
  have "decode_rune (d # ds @ c # v) = (r, w)"
    using decode_append_ascii [of "d # ds" c v] 2 d by simp
  moreover have "drop (w - 1) (ds @ c # v) = drop (w - 1) ds @ c # v" using w by simp
  ultimately show ?case using 2 d by simp
qed simp

lemma to_lower_append_ascii:
  "byte c < 128 \<Longrightarrow>
   to_lower low (u @ c # v) = to_lower low u @ encode_rune (lower_rune low (byte c)) @ to_lower low v"
  by (simp add: to_lower_def runes_append_ascii utf8_def)

lemma to_lower_at:
  "to_lower low (u @ CHR ''@'' # v) = to_lower low u @ CHR ''@'' # to_lower low v"
proof -
  have "char_of (64 :: nat) = CHR ''@''" by code_simp
  then have "encode_rune (lower_rune low 64) = ''@''"
    by (simp add: lower_rune_def encode_rune_def valid_rune_def)
  then show ?thesis by (simp add: to_lower_append_ascii)
qed

lemma to_lower_mem:
  assumes "lower_table low"
  shows "CHR ''@'' \<in> set (to_lower low s) \<longleftrightarrow> CHR ''@'' \<in> set s"
    and "CHR ''.'' \<in> set (to_lower low s) \<longleftrightarrow> CHR ''.'' \<in> set s"
proof -
  have l: "r \<in> set (runes s) \<Longrightarrow> (lower_rune low r = 64 \<longleftrightarrow> r = 64) \<and> (lower_rune low r = 46 \<longleftrightarrow> r = 46)" for r
    using lower_rune_props(5,6) [OF assms runes_valid [of r s]] by simp
  have "64 \<in> set (runes (to_lower low s)) \<longleftrightarrow> 64 \<in> set (runes s)"
    unfolding runes_to_lower [OF assms] using l by (force simp: image_iff)
  then show "CHR ''@'' \<in> set (to_lower low s) \<longleftrightarrow> CHR ''@'' \<in> set s"
    using set_runes_ascii [of "CHR ''@''"] by simp
  have "46 \<in> set (runes (to_lower low s)) \<longleftrightarrow> 46 \<in> set (runes s)"
    unfolding runes_to_lower [OF assms] using l by (force simp: image_iff)
  then show "CHR ''.'' \<in> set (to_lower low s) \<longleftrightarrow> CHR ''.'' \<in> set s"
    using set_runes_ascii [of "CHR ''.''"] by simp
qed

lemma to_lower_Nil_iff [simp]: "to_lower low s = [] \<longleftrightarrow> s = []"
proof (cases s)
  case (Cons c cs)
  obtain r w where "decode_rune (c # cs) = (r, w)" by (cases "decode_rune (c # cs)")
  with Cons show ?thesis by (simp add: to_lower_def utf8_def)
qed (simp add: to_lower_def utf8_def)

lemma count_one_split:
  assumes "count_list s c = 1"
  shows "s = before c s @ c # after c s" "c \<notin> set (before c s)" "c \<notin> set (after c s)"
proof -
  from assms have "c \<in> set s" by (metis count_notin zero_neq_one)
  then show s: "s = before c s @ c # after c s" by (simp add: before_after)
  show "c \<notin> set (before c s)" by simp
  have "count_list (before c s @ c # after c s) c = 1" using assms s by simp
  then show "c \<notin> set (after c s)" by (simp add: count_list_0_iff)
qed

text \<open>The accepting branch of \<open>NormalizeAddress\<close>, as one fact.\<close>

lemma normalize_address_accepts:
  assumes "normalize_address low s0 = n" "n \<noteq> []"
  obtains s where "s = strip_angle (trim_space s0)" "n = to_lower low s" "length s \<le> 254"
    "list_all (\<lambda>r. \<not> is_space r \<and> \<not> is_control r) (runes s)" "count_list s (CHR ''@'') = 1"
    "before (CHR ''@'') s \<noteq> []" "CHR ''.'' \<in> set (after (CHR ''@'') s)"
  using assms
  by (auto simp: normalize_address_def Let_def contains_dot list_ex_iff list_all_iff not_less
           split: if_splits)

lemma normalize_address_is_canonical:
  assumes low: "lower_table low" and n: "normalize_address low s = n" "n \<noteq> []"
  shows "canonical low n"
proof -
  obtain t where t: "n = to_lower low t" "count_list t (CHR ''@'') = 1"
    "list_all (\<lambda>r. \<not> is_space r \<and> \<not> is_control r) (runes t)"
    "before (CHR ''@'') t \<noteq> []" "CHR ''.'' \<in> set (after (CHR ''@'') t)"
    using normalize_address_accepts [OF n] by metis
  let ?l = "before (CHR ''@'') t" and ?d = "after (CHR ''@'') t"
  note sp = count_one_split [OF t(2)]
  have n_eq: "n = to_lower low ?l @ CHR ''@'' # to_lower low ?d"
    using t(1) sp(1) to_lower_at by metis
  have nin: "CHR ''@'' \<notin> set (to_lower low ?l)" "CHR ''@'' \<notin> set (to_lower low ?d)"
    using sp(2,3) to_lower_mem(1) [OF low] by auto
  have "count_list n (CHR ''@'') = 1"
    unfolding n_eq using nin by (simp add: count_list_0_iff)
  moreover have "before (CHR ''@'') n = to_lower low ?l" "after (CHR ''@'') n = to_lower low ?d"
    unfolding n_eq using nin by (simp_all add: before_append after_append)
  moreover have "list_all (\<lambda>r. \<not> is_space r \<and> \<not> is_control r) (runes n)"
    using t(3) lower_rune_props(3,4) [OF low runes_valid]
    by (auto simp: t(1) runes_to_lower [OF low] list_all_iff)
  ultimately show ?thesis
    using t to_lower_idem [OF low] to_lower_mem(2) [OF low] by (simp add: canonical_def)
qed

section \<open>Profiles and recipients\<close>

definition profile :: "(rune \<Rightarrow> rune) \<Rightarrow> config \<Rightarrow> string \<Rightarrow> capabilities option" where
  "profile low c envelope_sender =
     (let n = normalize_address low envelope_sender in
      if n = [] then None
      else if profiles c = [] then Some (default_profile c)
      else map_of (profiles c) n)"

definition any_ocr :: "config \<Rightarrow> bool" where
  "any_ocr c = (if profiles c = [] then cap_ocr (default_profile c)
                else list_ex (\<lambda>p. cap_ocr (snd p)) (profiles c))"

definition recipient_allowed :: "(rune \<Rightarrow> rune) \<Rightarrow> config \<Rightarrow> string \<Rightarrow> bool" where
  "recipient_allowed low c addr =
     (if allowed_recipient_domains c = [] then True
      else if CHR ''@'' \<notin> set addr then False
      else to_lower low (after_last (CHR ''@'') addr) \<in> set (allowed_recipient_domains c))"

definition domain_char :: "rune \<Rightarrow> bool" where
  "domain_char r = (97 \<le> r \<and> r \<le> 122 \<or> 48 \<le> r \<and> r \<le> 57 \<or> r = 46 \<or> r = 45)"

definition valid_domain :: "string \<Rightarrow> bool" where
  "valid_domain d =
     (if d = [] \<or> 253 < length d then False
      else if \<not> contains ''.'' d \<or> prefix ''.'' d \<or> suffix ''.'' d \<or> contains ''..'' d then False
      else list_all domain_char (runes d))"

text \<open>
  \<open>parseDomains\<close>: the first component is the list it returns, the second the entries it complained
  about, each of which is one loader error.
\<close>

fun parse_domain_parts :: "(rune \<Rightarrow> rune) \<Rightarrow> string list \<Rightarrow> string list \<Rightarrow> string list \<Rightarrow> string list \<times> string list" where
  "parse_domain_parts low out bad [] = (out, bad)"
| "parse_domain_parts low out bad (p # ps) =
     (let d = to_lower low (trim_space p) in
      if d = [] then parse_domain_parts low out bad ps
      else if \<not> valid_domain d then parse_domain_parts low out (bad @ [d]) ps
      else if d \<in> set out then parse_domain_parts low out bad ps
      else parse_domain_parts low (out @ [d]) bad ps)"

definition parse_domains :: "(rune \<Rightarrow> rune) \<Rightarrow> string \<Rightarrow> string list \<times> string list" where
  "parse_domains low raw = parse_domain_parts low [] [] (split_on (CHR '','') raw)"

lemma parse_domain_parts_ok:
  "parse_domain_parts low out bad ps = (out', bad') \<Longrightarrow> distinct out \<Longrightarrow> list_all valid_domain out \<Longrightarrow>
   distinct out' \<and> list_all valid_domain out'"
  by (induction ps arbitrary: out bad) (auto simp: Let_def split: if_splits)

lemma parse_domains_ok: "parse_domains low raw = (ds, bad) \<Longrightarrow> distinct ds \<and> list_all valid_domain ds"
  by (auto simp: parse_domains_def dest: parse_domain_parts_ok)

lemma canonical_nonempty: "canonical low a \<Longrightarrow> a \<noteq> []"
  by (auto simp: canonical_def)

lemma canonical_after_last: "canonical low a \<Longrightarrow> after_last (CHR ''@'') a = after (CHR ''@'') a"
  unfolding canonical_def using count_one_split [of a "CHR ''@''"] after_last_append by metis

lemma canonical_domain_lower:
  assumes "canonical low a"
  shows "to_lower low (after (CHR ''@'') a) = after (CHR ''@'') a"
proof -
  let ?l = "before (CHR ''@'') a" and ?d = "after (CHR ''@'') a"
  from assms have c: "count_list a (CHR ''@'') = 1" and low: "to_lower low a = a"
    by (auto simp: canonical_def)
  note sp = count_one_split [OF c]
  have eq: "to_lower low ?l @ CHR ''@'' # to_lower low ?d = ?l @ CHR ''@'' # ?d"
    using low sp(1) to_lower_at by metis
  have "count_list (to_lower low ?l @ CHR ''@'' # to_lower low ?d) (CHR ''@'') = 1"
    using c sp(1) eq by metis
  then have "CHR ''@'' \<notin> set (to_lower low ?l)"
    by (simp add: count_list_0_iff)
  with eq sp(2) show ?thesis by (metis after_append)
qed

end
