(* ===== verification/Config_Properties.thy ===== *)
theory Config_Properties
  imports Config_Address
begin

text \<open>
  The address rules every other component relies on: what an accepted address looks like, which sender
  gets which profile, and what the recipient allowlist lets through.
\<close>

text \<open>C37: An address \<open>NormalizeAddress\<close> accepts is canonical: exactly one @ with a non-empty local part, a
  dot in the domain, no white space or control character anywhere (so no line break can reach an SMTP or
  mail header), and already lower case, so later comparisons by string equality are sound.\<close>

theorem normalize_address_canonical:
  assumes "lower_table low" "normalize_address low s \<noteq> []"
  shows "canonical low (normalize_address low s)"
  using normalize_address_is_canonical [OF assms(1) refl assms(2)] .

theorem normalize_address_canonical_witness:
  "canonical (\<lambda>r. r) ''ab@x.de''"
proof -
  have n: "normalize_address (\<lambda>r. r) '' <Ab@X.de> '' = ''ab@x.de''"
  proof -
    have t: "trim_space '' <Ab@X.de> '' = ''<Ab@X.de>''"
      by (simp add: trim_space_def trim_right_space.simps trailing_space_def ends_in_space_def is_space_def)
    have u: "trim_space ''Ab@X.de'' = ''Ab@X.de''"
      by (simp add: trim_space_def trim_right_space.simps trailing_space_def ends_in_space_def is_space_def)
    have c: "char_of (97 :: nat) = CHR ''a''" "char_of (98 :: nat) = CHR ''b''" "char_of (64 :: nat) = CHR ''@''"
      "char_of (120 :: nat) = CHR ''x''" "char_of (46 :: nat) = CHR ''.''" "char_of (100 :: nat) = CHR ''d''"
      "char_of (101 :: nat) = CHR ''e''" by code_simp+
    show ?thesis
      by (simp add: normalize_address_def t strip_angle_def u is_space_def is_control_def before_def after_def
            to_lower_def lower_rune_def encode_rune_def valid_rune_def suffix_def c
            sublist_code [symmetric] del: utf8_simps add: utf8_simps)
  qed
  from normalize_address_canonical [OF lower_table_id, of "'' <Ab@X.de> ''"] show ?thesis by (simp add: n)
qed

text \<open>A canonical recipient passes the allowlist exactly when no domain is configured or its own domain,
  compared as a whole, is one of them: a listed domain does not admit its subdomains, nor any address that
  merely contains it.\<close>

theorem recipient_allowed_exact_domain:
  assumes "canonical low addr"
  shows "recipient_allowed low c addr \<longleftrightarrow>
         allowed_recipient_domains c = [] \<or> after (CHR ''@'') addr \<in> set (allowed_recipient_domains c)"
proof -
  have "CHR ''@'' \<in> set addr"
    using assms count_notin unfolding canonical_def by (metis zero_neq_one)
  with assms canonical_after_last [OF assms] canonical_domain_lower [OF assms] show ?thesis
    by (auto simp: recipient_allowed_def)
qed

definition ex_config :: config where
  "ex_config =
     \<lparr>http_addr = '':8080'', smtp_addr = '':2525'', public_base_url = ''https://s.x.org'', path_prefix = [],
      temp_dir = ''/t'', cfg_log_level = LevelInfo, cfg_log_format = ''text'', ui_title = ''scan2graph'',
      smtp_username = ''scan'', smtp_password = ''secret'', smtp_allow_anonymous = False,
      smtp_password_generated = False,
      profiles = [(''scan@x.org'', \<lparr>cap_email = True, cap_web = True, cap_ocr = False\<rparr>)],
      default_profile = no_caps, allowed_recipient_domains = [''x.org''], tenant_id = ''t'', client_id = ''c'',
      client_secret = ''s'', authority_url = ''https://login'', token_url = ''https://login/t'',
      graph_base_url = ''https://graph'', graph_scope = ''g'', graph_sender = ''scan@x.org'', di_endpoint = [],
      di_api_version = [], di_scope = [], job_ttl = 100,
      cfg_limits = \<lparr>max_message_bytes = 20, max_stored_bytes = 50, max_concurrent_jobs = 2\<rparr>\<rparr>"

lemma ex_canonical: "canonical (\<lambda>r. r) ''a@y.x.org''" "canonical (\<lambda>r. r) ''a@x.org''"
  by (simp_all add: canonical_def before_def after_def is_space_def is_control_def to_lower_def lower_rune_def
        encode_rune_def valid_rune_def)
     (code_simp, code_simp)

theorem recipient_allowed_exact_domain_witness:
  "\<not> recipient_allowed (\<lambda>r. r) ex_config ''a@y.x.org'' \<and> after (CHR ''@'') ''a@y.x.org'' = ''y.x.org''"
  using recipient_allowed_exact_domain [OF ex_canonical(1), of ex_config]
  by (simp add: ex_config_def after_def before_def)

lemma ex_normalize:
  "normalize_address (\<lambda>r. r) ''scan@x.org'' = ''scan@x.org''" "normalize_address (\<lambda>r. r) ''a@x.org'' = ''a@x.org''"
proof -
  have c: "char_of (97 :: nat) = CHR ''a''" "char_of (99 :: nat) = CHR ''c''" "char_of (64 :: nat) = CHR ''@''"
    "char_of (120 :: nat) = CHR ''x''" "char_of (46 :: nat) = CHR ''.''" "char_of (103 :: nat) = CHR ''g''"
    "char_of (110 :: nat) = CHR ''n''" "char_of (111 :: nat) = CHR ''o''" "char_of (114 :: nat) = CHR ''r''"
    "char_of (115 :: nat) = CHR ''s''" by code_simp+
  have t: "trim_space ''scan@x.org'' = ''scan@x.org''" "trim_space ''a@x.org'' = ''a@x.org''"
    by (simp_all add: trim_space_def trim_right_space.simps trailing_space_def ends_in_space_def is_space_def)
  show "normalize_address (\<lambda>r. r) ''scan@x.org'' = ''scan@x.org''" "normalize_address (\<lambda>r. r) ''a@x.org'' = ''a@x.org''"
    by (simp_all add: normalize_address_def t strip_angle_def is_space_def is_control_def before_def after_def
          to_lower_def lower_rune_def encode_rune_def valid_rune_def suffix_def c
          sublist_code [symmetric] del: utf8_simps add: utf8_simps)
qed

end
