(* ===== verification/Mimescan.thy ===== *)
theory Mimescan
  imports Go_Strings
begin

text \<open>
  \<open>internal/mimescan/mimescan.go\<close>: the bounded walk over the MIME tree of a message and the extraction of
  PDF attachments. What Go's \<open>mime\<close>, \<open>mime/multipart\<close>, \<open>mime/quotedprintable\<close> and \<open>encoding/base64\<close> readers
  yield is the argument \<open>mime_lib\<close>, a record of functions; what the file system answers is the argument
  \<open>disk\<close>. A reader is the bytes it yields and how it ends; everything this package itself decides is
  modelled.
\<close>

section \<open>Readers, headers and the libraries\<close>

datatype read_end = EndEOF | EndUnexpectedEOF | EndError

record reader =
  rd_bytes :: string
  rd_end :: read_end

type_synonym header = "(string \<times> string) list"

definition hdr_get :: "header \<Rightarrow> string \<Rightarrow> string" where
  "hdr_get h k = (case map_of h k of None \<Rightarrow> [] | Some v \<Rightarrow> v)"

definition par_get :: "(string \<times> string) list \<Rightarrow> string \<Rightarrow> string" where
  "par_get ps k = (case map_of ps k of None \<Rightarrow> [] | Some v \<Rightarrow> v)"

text \<open>
  \<open>parse_media_type\<close> gives the media type, the parameters and whether there was an error;
  \<open>multipart_parts\<close> the parts a reader with that boundary yields and whether \<open>NextPart\<close> ended in \<open>io.EOF\<close>.
\<close>

record mime_lib =
  parse_media_type :: "string \<Rightarrow> string \<times> (string \<times> string) list \<times> bool"
  decode_header :: "string \<Rightarrow> string option"
  multipart_parts :: "string \<Rightarrow> reader \<Rightarrow> (header \<times> reader) list \<times> bool"
  qp_reader :: "reader \<Rightarrow> reader"
  b64_reader :: "reader \<Rightarrow> reader"

record disk =
  new_file :: "nat \<Rightarrow> path option"
  write_ok :: "path \<Rightarrow> string \<Rightarrow> bool"
  close_ok :: "path \<Rightarrow> bool"
  read_ok :: "path \<Rightarrow> bool"

section \<open>The extractor\<close>

definition max_parts :: nat where "max_parts = 100"
definition max_depth :: nat where "max_depth = 10"
definition max_pdfs :: nat where "max_pdfs = 16"
definition head_bytes :: nat where "head_bytes = 1024"
definition tail_bytes :: nat where "tail_bytes = 4096"

datatype mime_error = ErrTooComplex | ErrNoPDF | ErrNoAttachments | ErrStorage | ErrParseMessage

record pdf =
  pdf_name :: string
  pdf_path :: path
  pdf_size :: nat

text \<open>
  The state of one walk. \<open>x_created\<close> and \<open>x_removed\<close> are the files made and removed so far, with the
  content a made one was given; they stand for the disk and have no counterpart in the Go struct.
\<close>

record extractor =
  x_parts :: nat
  x_plain :: bool
  x_pdfs :: "pdf list"
  x_created :: "(path \<times> string) list"
  x_removed :: "path list"

definition latin1 :: "string \<Rightarrow> string" where
  "latin1 b = utf8 (map byte b)"

definition decode_word :: "mime_lib \<Rightarrow> string \<Rightarrow> string" where
  "decode_word L s = (case decode_header L s of None \<Rightarrow> [] | Some d \<Rightarrow> d)"

definition filename :: "mime_lib \<Rightarrow> header \<Rightarrow> (string \<times> string) list \<Rightarrow> string" where
  "filename L h params =
     (case parse_media_type L (hdr_get h ''Content-Disposition'') of (_, disp, _) \<Rightarrow>
        if par_get disp ''filename'' \<noteq> [] then decode_word L (par_get disp ''filename'')
        else decode_word L (par_get params ''name''))"

definition b64_space :: "char \<Rightarrow> bool" where
  "b64_space c = (byte c \<in> {32, 9, 13, 10, 11, 12})"

definition space_filter :: "reader \<Rightarrow> reader" where
  "space_filter r = r\<lparr>rd_bytes := filter (\<lambda>c. \<not> b64_space c) (rd_bytes r)\<rparr>"

definition decoded :: "(rune \<Rightarrow> rune) \<Rightarrow> mime_lib \<Rightarrow> header \<Rightarrow> reader \<Rightarrow> reader" where
  "decoded low L h body =
     (let enc = to_lower low (trim_space (hdr_get h ''Content-Transfer-Encoding'')) in
      if enc = ''base64'' then b64_reader L (space_filter body)
      else if enc = ''quoted-printable'' then qp_reader L body
      else body)"

definition pdf_magic :: string where "pdf_magic = ''%PDF-''"
definition pdf_eof :: string where "pdf_eof = ''%%EOF''"

text \<open>
  \<open>io.ReadFull\<close> of the head: the bytes read, and whether its error is one \<open>leaf\<close> gives up on. A short
  read that ends in \<open>io.EOF\<close> or \<open>io.ErrUnexpectedEOF\<close> is none, a full one has no error at all.
\<close>

definition read_head :: "reader \<Rightarrow> string \<times> bool" where
  "read_head src =
     (take head_bytes (rd_bytes src), length (rd_bytes src) < head_bytes \<and> rd_end src = EndError)"

definition tail_has_eof :: "string \<Rightarrow> bool" where
  "tail_has_eof content = contains pdf_eof (drop (length content - tail_bytes) content)"

text \<open>Writing the attachment: \<open>io.Copy\<close>, the look at the tail, \<open>Close\<close>, and who is to blame for a failure.\<close>

definition store_leaf :: "disk \<Rightarrow> string \<Rightarrow> reader \<Rightarrow> path \<Rightarrow> extractor \<Rightarrow> mime_error option \<times> extractor" where
  "store_leaf dk name src f e0 =
     (let content = rd_bytes src;
          e = e0\<lparr>x_created := x_created e0 @ [(f, content)]\<rparr>;
          wrote = write_ok dk f content;
          copied = (wrote \<and> rd_end src = EndEOF);
          ok = (copied \<and> read_ok dk f \<and> tail_has_eof content)
      in if \<not> wrote \<or> \<not> close_ok dk f
         then (Some ErrStorage, e\<lparr>x_removed := x_removed e @ [f]\<rparr>)
         else if \<not> copied \<or> \<not> ok then (None, e\<lparr>x_removed := x_removed e @ [f]\<rparr>)
         else (None, e\<lparr>x_pdfs := x_pdfs e @ [\<lparr>pdf_name = name, pdf_path = f, pdf_size = length content\<rparr>]\<rparr>))"

definition leaf ::
  "(rune \<Rightarrow> rune) \<Rightarrow> mime_lib \<Rightarrow> disk \<Rightarrow> header \<Rightarrow> reader \<Rightarrow> string \<Rightarrow> (string \<times> string) list \<Rightarrow> extractor \<Rightarrow>
   mime_error option \<times> extractor" where
  "leaf low L dk h body mt params e0 =
     (let name = filename L h params;
          e1 = (if name \<noteq> [] \<or> hdr_get h ''Content-Disposition'' \<noteq> [] \<or> (mt \<noteq> [] \<and> \<not> prefix ''text/'' mt)
                then e0\<lparr>x_plain := False\<rparr> else e0);
          src = decoded low L h body;
          (head, broken) = read_head src;
          e2 = (if prefix pdf_magic head then e1\<lparr>x_plain := False\<rparr> else e1)
      in if broken then (None, e2)
         else if \<not> prefix pdf_magic head then (None, e2)
         else if max_pdfs \<le> length (x_pdfs e2) then (Some ErrTooComplex, e2)
         else (case new_file dk (length (x_created e2)) of
                 None \<Rightarrow> (Some ErrStorage, e2)
               | Some f \<Rightarrow> store_leaf dk name src f e2))"

text \<open>
  \<open>walk\<close> on \<open>n\<close> levels that are left, \<open>n = max_depth + 1 - depth\<close>, so that no level left is the code's
  \<open>depth > maxDepth\<close>; \<open>walk_parts\<close> is its loop over \<open>NextPart\<close>.
\<close>

function (sequential) walk ::
    "(rune \<Rightarrow> rune) \<Rightarrow> mime_lib \<Rightarrow> disk \<Rightarrow> nat \<Rightarrow> header \<Rightarrow> reader \<Rightarrow> extractor \<Rightarrow> mime_error option \<times> extractor"
  and walk_parts ::
    "(rune \<Rightarrow> rune) \<Rightarrow> mime_lib \<Rightarrow> disk \<Rightarrow> nat \<Rightarrow> (header \<times> reader) list \<Rightarrow> bool \<Rightarrow> nat \<Rightarrow> extractor \<Rightarrow>
     mime_error option \<times> extractor" where
  "walk low L dk 0 h body e = (Some ErrTooComplex, e)"
| "walk low L dk (Suc n) h body e =
     (let raw = hdr_get h ''Content-Type'';
          (mt, params, cterr) = parse_media_type L raw;
          e1 = (if raw \<noteq> [] \<and> cterr then e\<lparr>x_plain := False\<rparr> else e)
      in if \<not> prefix ''multipart/'' mt then leaf low L dk h body mt params e1
         else if par_get params ''boundary'' = [] then (None, e1\<lparr>x_plain := False\<rparr>)
         else (let (ps, clean) = multipart_parts L (par_get params ''boundary'') body
               in walk_parts low L dk n ps clean 0 e1))"
| "walk_parts low L dk n [] clean seen e =
     (None, if \<not> clean \<or> seen = 0 then e\<lparr>x_plain := False\<rparr> else e)"
| "walk_parts low L dk n ((h, body) # ps) clean seen e =
     (let e1 = e\<lparr>x_parts := x_parts e + 1\<rparr> in
      if max_parts < x_parts e1 then (Some ErrTooComplex, e1)
      else (case walk low L dk n h body e1 of
              (Some err, e2) \<Rightarrow> (Some err, e2)
            | (None, e2) \<Rightarrow> walk_parts low L dk n ps clean (seen + 1) e2))"
  by pat_completeness auto

termination
  by (relation "measures [\<lambda>x. case x of Inl (_, _, _, n, _) \<Rightarrow> n | Inr (_, _, _, n, _) \<Rightarrow> n,
                          \<lambda>x. case x of Inl _ \<Rightarrow> 0 | Inr _ \<Rightarrow> 1,
                          \<lambda>x. case x of Inl _ \<Rightarrow> 0 | Inr (_, _, _, _, ps, _) \<Rightarrow> length ps]") auto

record scan_result =
  sr_subject :: string
  sr_pdfs :: "pdf list"

definition new_extractor :: extractor where
  "new_extractor = \<lparr>x_parts = 0, x_plain = True, x_pdfs = [], x_created = [], x_removed = []\<rparr>"

text \<open>\<open>Extract\<close>; the message is what \<open>mail.ReadMessage\<close> made of the stream, or its error.\<close>

definition extract_message ::
  "(rune \<Rightarrow> rune) \<Rightarrow> mime_lib \<Rightarrow> disk \<Rightarrow> (header \<times> reader) option \<Rightarrow>
   (mime_error + scan_result) \<times> string \<times> extractor" where
  "extract_message low L dk msg =
     (case msg of
        None \<Rightarrow> (Inl ErrParseMessage, [], new_extractor)
      | Some (h, body) \<Rightarrow>
          let subj = decode_word L (hdr_get h ''Subject'') in
          (case walk low L dk (max_depth + 1) h body new_extractor of
             (Some err, e) \<Rightarrow>
               (Inl err, subj, e\<lparr>x_removed := x_removed e @ map pdf_path (x_pdfs e), x_pdfs := []\<rparr>)
           | (None, e) \<Rightarrow>
               if x_pdfs e = []
               then (Inl (if x_plain e then ErrNoAttachments else ErrNoPDF), subj, e)
               else (Inr \<lparr>sr_subject = subj, sr_pdfs = x_pdfs e\<rparr>, subj, e)))"

end
