(* ===== verification/Mimescan_Properties.thy ===== *)
theory Mimescan_Properties
  imports Mimescan "HOL-Library.Multiset"
begin

text \<open>
  What the scanner of messages promises: no file is left behind, only complete PDFs are kept, the
  structural limits hold, a message is called empty only when it was understood completely, and a
  base64 body is read alike however its lines are padded.
\<close>

section \<open>Preservation along the walk\<close>

definition leaf_keeps :: "(rune \<Rightarrow> rune) \<Rightarrow> mime_lib \<Rightarrow> disk \<Rightarrow> (extractor \<Rightarrow> bool) \<Rightarrow> bool" where
  "leaf_keeps low L dk P \<longleftrightarrow>
     (\<forall>e. P e \<longrightarrow> P (e\<lparr>x_plain := False\<rparr>)) \<and> (\<forall>e. P e \<longrightarrow> P (e\<lparr>x_parts := x_parts e + 1\<rparr>)) \<and>
     (\<forall>h b mt ps e. P e \<longrightarrow> P (snd (leaf low L dk h b mt ps e)))"

lemma leaf_keepsD:
  assumes "leaf_keeps low L dk P" "P e"
  shows "P (e\<lparr>x_plain := False\<rparr>)" "P (e\<lparr>x_parts := x_parts e + 1\<rparr>)" "P (snd (leaf low L dk h b mt ps e))"
  using assms unfolding leaf_keeps_def by blast+

lemma walk_keeps:
  "leaf_keeps low L dk P \<Longrightarrow> P e \<Longrightarrow> P (snd (walk low L dk n h body e))"
  "leaf_keeps low L dk P \<Longrightarrow> P e \<Longrightarrow> P (snd (walk_parts low L dk n ps clean seen e))"
proof (induction low L dk n h body e and low L dk n ps clean seen e rule: walk_walk_parts.induct)
  case (1 low L dk h body e)
  then show ?case by simp
next
  case (2 low L dk n h body e)
  obtain mt params cterr where mt: "parse_media_type L (hdr_get h ''Content-Type'') = (mt, params, cterr)"
    by (metis prod_cases3)
  obtain ps clean where ps: "multipart_parts L (par_get params ''boundary'') body = (ps, clean)"
    by (cases "multipart_parts L (par_get params ''boundary'') body")
  let ?e = "if hdr_get h ''Content-Type'' \<noteq> [] \<and> cterr then e\<lparr>x_plain := False\<rparr> else e"
  have e: "P ?e" using leaf_keepsD(1) [OF 2(2,3)] 2(3) by simp
  have "P (snd (walk_parts low L dk n ps clean 0 ?e))"
    if "prefix ''multipart/'' mt" "par_get params ''boundary'' \<noteq> []"
    using 2(1) [OF refl refl mt [symmetric] refl refl _ _ refl ps [symmetric] 2(2) e] that by simp
  then show ?case
    using leaf_keepsD [OF 2(2) e] mt ps by (auto simp: Let_def)
next
  case (3 low L dk n clean seen e)
  then show ?case using leaf_keepsD(1) [OF 3] by simp
next
  case (4 low L dk n h body ps clean seen e)
  let ?e = "e\<lparr>x_parts := x_parts e + 1\<rparr>"
  note e = leaf_keepsD(2) [OF 4(3,4)]
  show ?case
  proof (cases "max_parts < x_parts ?e")
    case True
    with e show ?thesis by simp
  next
    case False
    obtain r e2 where w: "walk low L dk n h body ?e = (r, e2)" by (cases "walk low L dk n h body ?e")
    have e2: "P e2" using 4(1) [OF refl False 4(3) e] w by simp
    show ?thesis
    proof (cases r)
      case None
      with 4(2) [OF refl False w [symmetric] _ 4(3) e2] False w show ?thesis by simp
    next
      case (Some err)
      with e2 False w show ?thesis by simp
    qed
  qed
qed

section \<open>An example message\<close>

definition ex_pdf :: reader where
  "ex_pdf = \<lparr>rd_bytes = ''%PDF-1 %%EOF'', rd_end = EndEOF\<rparr>"

definition ex_text :: reader where
  "ex_text = \<lparr>rd_bytes = ''hello'', rd_end = EndEOF\<rparr>"

definition ex_lib :: mime_lib where
  "ex_lib = \<lparr>parse_media_type = (\<lambda>s. (s, if s = ''multipart/mixed'' then [(''boundary'', ''b'')] else [], s = [])),
             decode_header = (\<lambda>s. Some s), multipart_parts = (\<lambda>_ _. ([([], ex_pdf), ([], ex_text)], True)),
             qp_reader = (\<lambda>r. r), b64_reader = (\<lambda>r. r)\<rparr>"

definition ex_disk :: disk where
  "ex_disk = \<lparr>new_file = (\<lambda>i. Some (replicate (i + 1) (CHR ''f''))), write_ok = (\<lambda>_ _. True),
              close_ok = (\<lambda>_. True), read_ok = (\<lambda>_. True)\<rparr>"

definition ex_mail :: header where
  "ex_mail = [(''Content-Type'', ''multipart/mixed''), (''Subject'', ''s'')]"

lemma ex_decoded: "decoded low ex_lib [] r = r"
  by (simp add: decoded_def hdr_get_def to_lower_def)

lemma ex_filename: "filename ex_lib [] [] = []"
  by (simp add: filename_def hdr_get_def par_get_def ex_lib_def decode_word_def)

section \<open>Files\<close>

definition files_same :: "extractor \<Rightarrow> extractor \<Rightarrow> bool" where
  "files_same e e' \<longleftrightarrow> x_created e' = x_created e \<and> x_removed e' = x_removed e \<and> x_pdfs e' = x_pdfs e \<and>
     x_parts e' = x_parts e"

lemma prefix_take_magic: "prefix pdf_magic (take head_bytes s) \<longleftrightarrow> prefix pdf_magic s"
proof
  assume "prefix pdf_magic (take head_bytes s)"
  then show "prefix pdf_magic s" using take_is_prefix prefix_order.trans by blast
next
  assume "prefix pdf_magic s"
  then obtain t where "s = pdf_magic @ t" by (auto simp: prefix_def)
  then show "prefix pdf_magic (take head_bytes s)" by (simp add: pdf_magic_def head_bytes_def)
qed

text \<open>The outcomes of \<open>leaf\<close>: nothing is touched, or one file is created for bytes that start like a PDF.\<close>

lemma leaf_cases:
  assumes "leaf low L dk h b mt ps e = (r, e')"
  obtains (skipped) "files_same e e'" "r = None \<or> (r = Some ErrTooComplex \<and> max_pdfs \<le> length (x_pdfs e)) \<or>
         (r = Some ErrStorage \<and> new_file dk (length (x_created e)) = None)"
      "r = None \<Longrightarrow> prefix pdf_magic (rd_bytes (decoded low L h b)) \<Longrightarrow> rd_end (decoded low L h b) = EndError"
      "x_plain e' \<longleftrightarrow> x_plain e \<and> filename L h ps = [] \<and> hdr_get h ''Content-Disposition'' = [] \<and>
         (mt = [] \<or> prefix ''text/'' mt) \<and> \<not> prefix pdf_magic (rd_bytes (decoded low L h b))"
  | (stored) f e2 where "prefix pdf_magic (rd_bytes (decoded low L h b))" "length (x_pdfs e) < max_pdfs"
      "new_file dk (length (x_created e)) = Some f" "files_same e e2" "\<not> x_plain e2"
      "store_leaf dk (filename L h ps) (decoded low L h b) f e2 = (r, e')"
proof -
  let ?src = "decoded low L h b" and ?name = "filename L h ps"
  let ?cond = "?name \<noteq> [] \<or> hdr_get h ''Content-Disposition'' \<noteq> [] \<or> (mt \<noteq> [] \<and> \<not> prefix ''text/'' mt)"
  let ?magic = "prefix pdf_magic (rd_bytes ?src)"
  let ?broken = "length (rd_bytes ?src) < head_bytes \<and> rd_end ?src = EndError"
  define e2 where "e2 = (if ?magic then (if ?cond then e\<lparr>x_plain := False\<rparr> else e)\<lparr>x_plain := False\<rparr>
    else (if ?cond then e\<lparr>x_plain := False\<rparr> else e))"
  have eq: "leaf low L dk h b mt ps e =
     (if ?broken then (None, e2) else if \<not> ?magic then (None, e2)
      else if max_pdfs \<le> length (x_pdfs e2) then (Some ErrTooComplex, e2)
      else (case new_file dk (length (x_created e2)) of
              None \<Rightarrow> (Some ErrStorage, e2)
            | Some f \<Rightarrow> store_leaf dk ?name ?src f e2))"
    by (simp only: leaf_def Let_def read_head_def prefix_take_magic prod.case e2_def)
  have same: "files_same e e2" by (simp add: files_same_def e2_def)
  then have fs: "x_pdfs e2 = x_pdfs e" "x_created e2 = x_created e" by (simp_all add: files_same_def)
  have plain: "x_plain e2 \<longleftrightarrow> x_plain e \<and> ?name = [] \<and> hdr_get h ''Content-Disposition'' = [] \<and>
      (mt = [] \<or> prefix ''text/'' mt) \<and> \<not> ?magic" by (auto simp: e2_def)
  show thesis
  proof (cases "\<exists>f. \<not> ?broken \<and> ?magic \<and> length (x_pdfs e) < max_pdfs \<and> new_file dk (length (x_created e)) = Some f")
    case True
    then obtain f where f: "\<not> ?broken" "?magic" "length (x_pdfs e) < max_pdfs"
      "new_file dk (length (x_created e)) = Some f" by blast
    have "leaf low L dk h b mt ps e = store_leaf dk ?name ?src f e2"
      unfolding eq fs if_not_P [OF f(1)] using f(2-4) by simp
    then have "store_leaf dk ?name ?src f e2 = (r, e')" using assms by simp
    moreover have "\<not> x_plain e2" using plain f(2) by blast
    ultimately show thesis using f(2-4) same by (intro stored)
  next
    case False
    then have out: "e' = e2" "r = None \<or> (r = Some ErrTooComplex \<and> max_pdfs \<le> length (x_pdfs e)) \<or>
         (r = Some ErrStorage \<and> new_file dk (length (x_created e)) = None)"
      "r = None \<Longrightarrow> ?magic \<Longrightarrow> ?broken"
      using assms unfolding eq fs by (auto simp: not_le split: if_splits option.splits)
    show thesis by (rule skipped) (use out same plain in blast)+
  qed
qed

lemma store_leaf_cases:
  assumes "store_leaf dk name src f e = (r, e')"
  obtains (failed) "r = Some ErrStorage \<or> r = None" "x_removed e' = x_removed e @ [f]" "x_pdfs e' = x_pdfs e"
      "x_created e' = x_created e @ [(f, rd_bytes src)]" "x_plain e' = x_plain e" "x_parts e' = x_parts e"
      "r = Some ErrStorage \<Longrightarrow> \<not> (write_ok dk f (rd_bytes src) \<and> close_ok dk f)"
      "\<not> (write_ok dk f (rd_bytes src) \<and> close_ok dk f \<and> read_ok dk f \<and> rd_end src = EndEOF \<and>
          tail_has_eof (rd_bytes src))"
  | (kept) "r = None" "x_removed e' = x_removed e" "tail_has_eof (rd_bytes src)" "rd_end src = EndEOF"
      "write_ok dk f (rd_bytes src)" "x_created e' = x_created e @ [(f, rd_bytes src)]" "x_plain e' = x_plain e"
      "x_parts e' = x_parts e" "x_pdfs e' = x_pdfs e @ [\<lparr>pdf_name = name, pdf_path = f, pdf_size = length (rd_bytes src)\<rparr>]"
  using assms by (auto simp: store_leaf_def Let_def split: if_splits)

definition pdf_on_disk :: "disk \<Rightarrow> extractor \<Rightarrow> pdf \<Rightarrow> bool" where
  "pdf_on_disk dk e p \<longleftrightarrow>
     (\<exists>c. (pdf_path p, c) \<in> set (x_created e) \<and> prefix pdf_magic c \<and> tail_has_eof c \<and>
          pdf_size p = length c \<and> write_ok dk (pdf_path p) c)"

definition disk_ok :: "disk \<Rightarrow> extractor \<Rightarrow> bool" where
  "disk_ok dk e \<longleftrightarrow>
     mset (x_removed e @ map pdf_path (x_pdfs e)) = mset (map fst (x_created e)) \<and>
     (\<forall>i < length (x_created e). new_file dk i = Some (fst (x_created e ! i))) \<and>
     length (x_pdfs e) \<le> max_pdfs \<and> (\<forall>p \<in> set (x_pdfs e). pdf_on_disk dk e p)"

lemma disk_ok_cong: "files_same e e' \<Longrightarrow> disk_ok dk e' \<longleftrightarrow> disk_ok dk e"
  by (auto simp: files_same_def disk_ok_def pdf_on_disk_def)

lemma store_leaf_disk:
  assumes "disk_ok dk e" "new_file dk (length (x_created e)) = Some f" "length (x_pdfs e) < max_pdfs"
    "prefix pdf_magic (rd_bytes src)" "store_leaf dk name src f e = (r, e')"
  shows "disk_ok dk e'"
proof -
  have nth: "\<forall>i < length (x_created e @ [(f, rd_bytes src)]).
      new_file dk i = Some (fst ((x_created e @ [(f, rd_bytes src)]) ! i))"
    using assms(1,2) by (auto simp: disk_ok_def nth_append less_Suc_eq)
  from assms(5) show ?thesis
  proof (cases rule: store_leaf_cases)
    case failed
    then show ?thesis using assms(1) nth by (auto simp: disk_ok_def pdf_on_disk_def)
  next
    case kept
    then show ?thesis using assms(1,3,4) nth by (auto simp: disk_ok_def pdf_on_disk_def)
  qed
qed

lemma leaf_disk: "disk_ok dk e \<Longrightarrow> disk_ok dk (snd (leaf low L dk h b mt ps e))"
proof -
  assume d: "disk_ok dk e"
  obtain r e' where l: "leaf low L dk h b mt ps e = (r, e')" by (cases "leaf low L dk h b mt ps e")
  then show ?thesis
  proof (cases rule: leaf_cases)
    case skipped
    with d l disk_ok_cong show ?thesis by simp
  next
    case (stored f e2)
    have "disk_ok dk e2" "length (x_pdfs e2) = length (x_pdfs e)" "x_created e2 = x_created e"
      using d stored(4) disk_ok_cong [OF stored(4)] by (simp_all add: files_same_def)
    with stored l store_leaf_disk [of dk e2 f "decoded low L h b"] show ?thesis by simp
  qed
qed

lemma disk_leaf_keeps: "leaf_keeps low L dk (disk_ok dk)"
  unfolding leaf_keeps_def using leaf_disk disk_ok_cong by (auto simp: files_same_def disk_ok_def pdf_on_disk_def)

lemma disk_ok_new: "disk_ok dk new_extractor"
  by (simp add: disk_ok_def new_extractor_def)

text \<open>C26: Extraction leaves nothing behind. If it fails, or finds no PDF, every file it created has been
  removed again and the result names none; if it succeeds, the files not removed are exactly those of the
  result, at most 16, and each holds a completely written document that starts with %PDF- and has its
  %%EOF marker in the last four kilobytes.\<close>

theorem extract_leaves_nothing_behind:
  assumes "extract_message low L dk msg = (r, subj, e)"
  shows "mset (x_removed e @ map pdf_path (x_pdfs e)) = mset (map fst (x_created e)) \<and>
    length (x_pdfs e) \<le> 16 \<and> (\<forall>p \<in> set (x_pdfs e). pdf_on_disk dk e p) \<and>
    (case r of Inl err \<Rightarrow> x_pdfs e = [] | Inr res \<Rightarrow> sr_pdfs res = x_pdfs e \<and> x_pdfs e \<noteq> [])"
proof (cases msg)
  case None
  with assms show ?thesis by (auto simp: extract_message_def new_extractor_def)
next
  case (Some m)
  obtain h body where m: "m = (h, body)" by (cases m)
  obtain w e1 where w: "walk low L dk (max_depth + 1) h body new_extractor = (w, e1)"
    by (cases "walk low L dk (max_depth + 1) h body new_extractor")
  have d: "disk_ok dk e1" using walk_keeps(1) [OF disk_leaf_keeps disk_ok_new, where n = "max_depth + 1" and h = h and body = body] w
    by (metis snd_conv)
  show ?thesis
    using assms d Some m w
    by (auto simp: extract_message_def disk_ok_def pdf_on_disk_def max_pdfs_def Let_def split: option.splits if_splits)
qed

theorem extract_leaves_nothing_behind_witness:
  "\<exists>r subj e. extract_message (\<lambda>r. r) ex_lib ex_disk (Some ([], ex_pdf)) = (r, subj, e) \<and>
     r = Inr \<lparr>sr_subject = [], sr_pdfs = [\<lparr>pdf_name = [], pdf_path = ''f'', pdf_size = 12\<rparr>]\<rparr> \<and>
     mset (x_removed e @ map pdf_path (x_pdfs e)) = {#''f''#}"
proof -
  let ?r = "Inr \<lparr>sr_subject = [], sr_pdfs = [\<lparr>pdf_name = [], pdf_path = ''f'', pdf_size = 12\<rparr>]\<rparr>"
  let ?e = "\<lparr>x_parts = 0, x_plain = False, x_pdfs = [\<lparr>pdf_name = [], pdf_path = ''f'', pdf_size = 12\<rparr>],
             x_created = [(''f'', ''%PDF-1 %%EOF'')], x_removed = []\<rparr>"
  have w: "extract_message (\<lambda>r. r) ex_lib ex_disk (Some ([], ex_pdf)) = (?r, [], ?e)"
  proof -
    have t: "tail_has_eof ''%PDF-1 %%EOF''" by (simp add: tail_has_eof_def pdf_eof_def tail_bytes_def)
    have "leaf (\<lambda>r. r) ex_lib ex_disk [] ex_pdf [] [] new_extractor = (None, ?e)"
      by (simp add: leaf_def ex_decoded ex_filename read_head_def)
         (simp add: hdr_get_def ex_pdf_def ex_disk_def new_extractor_def pdf_magic_def head_bytes_def max_pdfs_def
          store_leaf_def t)
    then have "walk (\<lambda>r. r) ex_lib ex_disk (max_depth + 1) [] ex_pdf new_extractor = (None, ?e)"
      by (simp add: hdr_get_def ex_lib_def)
    then show ?thesis by (simp add: extract_message_def hdr_get_def decode_word_def ex_lib_def)
  qed
  from extract_leaves_nothing_behind [OF w] w show ?thesis by simp
qed

section \<open>Only a message understood completely is called empty\<close>

text \<open>A tree that is plain text throughout: every container opened, walked to its end and not empty.\<close>

primrec plain_node :: "(rune \<Rightarrow> rune) \<Rightarrow> mime_lib \<Rightarrow> nat \<Rightarrow> header \<Rightarrow> reader \<Rightarrow> bool" where
  "plain_node low L 0 h body = False"
| "plain_node low L (Suc n) h body =
     (let (mt, params, cterr) = parse_media_type L (hdr_get h ''Content-Type'') in
      (hdr_get h ''Content-Type'' = [] \<or> \<not> cterr) \<and>
      (if \<not> prefix ''multipart/'' mt
       then filename L h params = [] \<and> hdr_get h ''Content-Disposition'' = [] \<and> (mt = [] \<or> prefix ''text/'' mt) \<and>
            \<not> prefix pdf_magic (rd_bytes (decoded low L h body))
       else par_get params ''boundary'' \<noteq> [] \<and>
            (let (ps, clean) = multipart_parts L (par_get params ''boundary'') body in
             clean \<and> ps \<noteq> [] \<and> list_all (\<lambda>(h', b'). plain_node low L n h' b') ps)))"

lemma leaf_plain:
  assumes "leaf low L dk h b mt ps e = (None, e')"
  shows "x_plain e' \<longleftrightarrow> x_plain e \<and> filename L h ps = [] \<and> hdr_get h ''Content-Disposition'' = [] \<and>
         (mt = [] \<or> prefix ''text/'' mt) \<and> \<not> prefix pdf_magic (rd_bytes (decoded low L h b))"
  using assms
proof (cases rule: leaf_cases)
  case skipped
  then show ?thesis by blast
next
  case (stored f e2)
  from stored(6) have "x_plain e' = x_plain e2" by (cases rule: store_leaf_cases) auto
  with stored show ?thesis by simp
qed

lemma walk_plain:
  "walk low L dk n h body e = (None, e') \<Longrightarrow> x_plain e' \<longleftrightarrow> x_plain e \<and> plain_node low L n h body"
  "walk_parts low L dk n ps clean seen e = (None, e') \<Longrightarrow>
   x_plain e' \<longleftrightarrow> x_plain e \<and> clean \<and> \<not> (seen = 0 \<and> ps = []) \<and> list_all (\<lambda>(h, b). plain_node low L n h b) ps"
proof (induction low L dk n h body e and low L dk n ps clean seen e arbitrary: e' and e' rule: walk_walk_parts.induct)
  case (1 low L dk h body e)
  then show ?case by simp
next
  case (2 low L dk n h body e)
  obtain mt params cterr where mt: "parse_media_type L (hdr_get h ''Content-Type'') = (mt, params, cterr)"
    by (metis prod_cases3)
  obtain ps clean where ps: "multipart_parts L (par_get params ''boundary'') body = (ps, clean)"
    by (cases "multipart_parts L (par_get params ''boundary'') body")
  let ?e = "if hdr_get h ''Content-Type'' \<noteq> [] \<and> cterr then e\<lparr>x_plain := False\<rparr> else e"
  have pe: "x_plain ?e \<longleftrightarrow> x_plain e \<and> (hdr_get h ''Content-Type'' = [] \<or> \<not> cterr)" by auto
  consider (leaf) "\<not> prefix ''multipart/'' mt" | (bare) "prefix ''multipart/'' mt" "par_get params ''boundary'' = []"
    | (multi) "prefix ''multipart/'' mt" "par_get params ''boundary'' \<noteq> []" by blast
  then show ?case
  proof cases
    case leaf
    with 2(2) mt have "leaf low L dk h body mt params ?e = (None, e')" by (simp add: Let_def)
    from leaf_plain [OF this] pe mt leaf show ?thesis by auto
  next
    case bare
    with 2(2) mt have "e' = ?e\<lparr>x_plain := False\<rparr>" by (simp add: Let_def)
    with bare mt show ?thesis by simp
  next
    case multi
    have "walk_parts low L dk n ps clean 0 ?e = (None, e')" using 2(2) mt ps multi by (simp add: Let_def)
    from 2(1) [OF refl refl mt [symmetric] refl refl _ multi(2) refl ps [symmetric] this] multi pe mt ps
    show ?thesis by auto
  qed
next
  case (3 low L dk n clean seen e)
  then show ?case by (auto split: if_splits)
next
  case (4 low L dk n h body ps clean seen e)
  let ?e = "e\<lparr>x_parts := x_parts e + 1\<rparr>"
  have lim: "\<not> max_parts < x_parts ?e" using 4(3) by auto
  obtain r e2 where w: "walk low L dk n h body ?e = (r, e2)" by (cases "walk low L dk n h body ?e")
  with 4(3) lim have r: "r = None" by (auto split: option.splits)
  with w have w': "walk low L dk n h body ?e = (None, e2)" by simp
  have ps: "walk_parts low L dk n ps clean (seen + 1) e2 = (None, e')" using 4(3) lim w' by simp
  from 4(1) [OF refl lim w'] 4(2) [OF refl lim w' [symmetric] refl ps]
  show ?case by auto
qed

lemma leaf_error:
  "leaf low L dk h b mt ps e = (Some err, e') \<Longrightarrow>
   err = ErrTooComplex \<or> (err = ErrStorage \<and> prefix pdf_magic (rd_bytes (decoded low L h b)))"
  by (auto simp: leaf_def Let_def read_head_def prefix_take_magic store_leaf_def split: if_splits option.splits)

lemma walk_error:
  "walk low L dk n h body e = (Some err, e') \<Longrightarrow>
   err = ErrTooComplex \<or> (err = ErrStorage \<and> \<not> plain_node low L n h body)"
  "walk_parts low L dk n ps clean seen e = (Some err, e') \<Longrightarrow>
   err = ErrTooComplex \<or> (err = ErrStorage \<and> \<not> list_all (\<lambda>(h, b). plain_node low L n h b) ps)"
proof (induction low L dk n h body e and low L dk n ps clean seen e arbitrary: e' and e' rule: walk_walk_parts.induct)
  case (1 low L dk h body e)
  then show ?case by simp
next
  case (2 low L dk n h body e)
  obtain mt params cterr where mt: "parse_media_type L (hdr_get h ''Content-Type'') = (mt, params, cterr)"
    by (metis prod_cases3)
  obtain ps clean where ps: "multipart_parts L (par_get params ''boundary'') body = (ps, clean)"
    by (cases "multipart_parts L (par_get params ''boundary'') body")
  let ?e = "if hdr_get h ''Content-Type'' \<noteq> [] \<and> cterr then e\<lparr>x_plain := False\<rparr> else e"
  consider (leaf) "\<not> prefix ''multipart/'' mt" | (bare) "prefix ''multipart/'' mt" "par_get params ''boundary'' = []"
    | (multi) "prefix ''multipart/'' mt" "par_get params ''boundary'' \<noteq> []" by blast
  then show ?case
  proof cases
    case leaf
    with 2(2) mt have "leaf low L dk h body mt params ?e = (Some err, e')" by (simp add: Let_def)
    from leaf_error [OF this] mt leaf show ?thesis by auto
  next
    case bare
    with 2(2) mt show ?thesis by (simp add: Let_def)
  next
    case multi
    have "walk_parts low L dk n ps clean 0 ?e = (Some err, e')" using 2(2) mt ps multi by (simp add: Let_def)
    from 2(1) [OF refl refl mt [symmetric] refl refl _ multi(2) refl ps [symmetric] this] multi mt ps
    show ?thesis by auto
  qed
next
  case (3 low L dk n clean seen e)
  then show ?case by simp
next
  case (4 low L dk n h body ps clean seen e)
  let ?e = "e\<lparr>x_parts := x_parts e + 1\<rparr>"
  show ?case
  proof (cases "max_parts < x_parts ?e")
    case True
    with 4(3) show ?thesis by simp
  next
    case lim: False
    obtain r e2 where w: "walk low L dk n h body ?e = (r, e2)" by (cases "walk low L dk n h body ?e")
    show ?thesis
    proof (cases r)
      case None
      with 4(3) lim w have "walk_parts low L dk n ps clean (seen + 1) e2 = (Some err, e')" by simp
      from 4(2) [OF refl lim w [symmetric] None this] show ?thesis by auto
    next
      case (Some err')
      with 4(3) lim w have "err' = err" by simp
      with Some w have "walk low L dk n h body ?e = (Some err, e2)" by simp
      from 4(1) [OF refl lim this] show ?thesis by auto
    qed
  qed
qed

lemma plain_no_pdfs: "leaf_keeps low L dk (\<lambda>e. x_plain e \<longrightarrow> x_pdfs e = [])"
proof -
  have "x_plain e' \<longrightarrow> x_pdfs e' = []"
    if p: "x_plain e \<longrightarrow> x_pdfs e = []" and l: "leaf low L dk h b mt ps e = (r, e')" for h b mt ps e r e'
    using l
  proof (cases rule: leaf_cases)
    case skipped
    with p show ?thesis by (auto simp: files_same_def)
  next
    case (stored f e2)
    from stored(6) have "x_plain e' = x_plain e2" by (cases rule: store_leaf_cases) auto
    with stored(5) show ?thesis by simp
  qed
  then show ?thesis unfolding leaf_keeps_def by (simp add: prod_eq_iff)
qed

text \<open>The SMTP layer answers 250 and drops a message when it is told there were no attachments. That
  answer is given exactly for a message that is plain text throughout: no part names a file, carries a
  disposition, is of another type or starts with %PDF-, every content type sent was understood, and every
  container was opened, had a part and ended at its closing boundary. Structural limits aside, nothing
  else gets it.\<close>

theorem no_attachments_iff_plain:
  assumes "extract_message low L dk (Some (h, body)) = (r, subj, e)" "r \<noteq> Inl ErrTooComplex"
  shows "r = Inl ErrNoAttachments \<longleftrightarrow> plain_node low L (max_depth + 1) h body"
proof -
  obtain w e1 where w: "walk low L dk (max_depth + 1) h body new_extractor = (w, e1)"
    by (cases "walk low L dk (max_depth + 1) h body new_extractor")
  show ?thesis
  proof (cases w)
    case None
    have "x_plain new_extractor" by (simp add: new_extractor_def)
    with walk_plain(1) w None have pl: "x_plain e1 \<longleftrightarrow> plain_node low L (max_depth + 1) h body" by blast
    have init: "x_plain new_extractor \<longrightarrow> x_pdfs new_extractor = []" by (simp add: new_extractor_def)
    have "x_plain e1 \<longrightarrow> x_pdfs e1 = []"
      using walk_keeps(1) [OF plain_no_pdfs init, where n = "max_depth + 1" and h = h and body = body] w
      by (metis snd_conv)
    with pl assms(1) w None show ?thesis
      by (auto simp: extract_message_def Let_def split: if_splits)
  next
    case (Some err)
    with w walk_error(1) have "err = ErrTooComplex \<or> (err = ErrStorage \<and> \<not> plain_node low L (max_depth + 1) h body)"
      by blast
    with assms w Some show ?thesis by (auto simp: extract_message_def Let_def)
  qed
qed

theorem no_attachments_iff_plain_witness:
  "\<exists>subj e. extract_message (\<lambda>r. r) ex_lib ex_disk (Some ([], ex_text)) = (Inl ErrNoAttachments, subj, e)"
proof -
  obtain r subj e where x: "extract_message (\<lambda>r. r) ex_lib ex_disk (Some ([], ex_text)) = (r, subj, e)"
    by (metis prod_cases3)
  have pl: "plain_node (\<lambda>r. r) ex_lib (max_depth + 1) [] ex_text"
    using ex_decoded [of "\<lambda>r. r" ex_text] ex_filename
    by (simp add: hdr_get_def ex_lib_def ex_text_def pdf_magic_def)
  have "r \<noteq> Inl ErrTooComplex"
  proof -
    have "fst (leaf (\<lambda>r. r) ex_lib ex_disk [] ex_text [] [] new_extractor) = None"
      by (simp add: leaf_def ex_decoded read_head_def ex_text_def pdf_magic_def head_bytes_def Let_def)
    then have "fst (walk (\<lambda>r. r) ex_lib ex_disk (max_depth + 1) [] ex_text new_extractor) = None"
      by (simp add: hdr_get_def ex_lib_def)
    with x show ?thesis by (auto simp: extract_message_def Let_def split: option.splits prod.splits if_splits)
  qed
  with no_attachments_iff_plain [OF x] pl x show ?thesis by simp
qed

section \<open>Complete documents are found\<close>

definition good_disk :: "disk \<Rightarrow> bool" where
  "good_disk dk \<longleftrightarrow>
     (\<forall>i. new_file dk i \<noteq> None) \<and> (\<forall>f c. write_ok dk f c) \<and> (\<forall>f. close_ok dk f \<and> read_ok dk f)"

definition complete_pdf :: "reader \<Rightarrow> bool" where
  "complete_pdf r \<longleftrightarrow> prefix pdf_magic (rd_bytes r) \<and> tail_has_eof (rd_bytes r) \<and> rd_end r = EndEOF"

lemma leaf_good:
  assumes "good_disk dk" "length (x_pdfs e) < max_pdfs"
  shows "\<exists>e'. leaf low L dk h b mt ps e = (None, e') \<and> x_parts e' = x_parts e \<and>
    map (\<lambda>p. (pdf_name p, pdf_size p)) (x_pdfs e') = map (\<lambda>p. (pdf_name p, pdf_size p)) (x_pdfs e) @
      (if complete_pdf (decoded low L h b) then [(filename L h ps, length (rd_bytes (decoded low L h b)))] else [])"
proof -
  obtain r e' where l: "leaf low L dk h b mt ps e = (r, e')" by (cases "leaf low L dk h b mt ps e")
  then show ?thesis
  proof (cases rule: leaf_cases)
    case skipped
    have "new_file dk (length (x_created e)) \<noteq> None" using assms(1) unfolding good_disk_def by blast
    with skipped(2) assms(2) have "r = None" by auto
    moreover from this skipped(3) have "\<not> complete_pdf (decoded low L h b)" by (auto simp: complete_pdf_def)
    ultimately show ?thesis using skipped(1) l by (simp add: files_same_def)
  next
    case (stored f e2)
    from stored(6) show ?thesis
    proof (cases rule: store_leaf_cases)
      case failed
      then have "\<not> complete_pdf (decoded low L h b)" "r = None"
        using assms(1) by (auto simp: good_disk_def complete_pdf_def)
      with failed stored(4) l show ?thesis by (simp add: files_same_def)
    next
      case kept
      then have "complete_pdf (decoded low L h b)" using stored(1) by (simp add: complete_pdf_def)
      with kept stored(4) l show ?thesis by (simp add: files_same_def)
    qed
  qed
qed

definition leaf_part :: "mime_lib \<Rightarrow> header \<Rightarrow> bool" where
  "leaf_part L h \<longleftrightarrow> \<not> prefix ''multipart/'' (fst (parse_media_type L (hdr_get h ''Content-Type'')))"

definition part_pdf :: "(rune \<Rightarrow> rune) \<Rightarrow> mime_lib \<Rightarrow> header \<times> reader \<Rightarrow> (string \<times> nat) list" where
  "part_pdf low L p =
     (let src = decoded low L (fst p) (snd p) in
      if complete_pdf src
      then [(filename L (fst p) (fst (snd (parse_media_type L (hdr_get (fst p) ''Content-Type'')))), length (rd_bytes src))]
      else [])"

lemma walk_leaf_part:
  assumes "leaf_part L h" "good_disk dk" "length (x_pdfs e) < max_pdfs"
  shows "\<exists>e'. walk low L dk (Suc n) h b e = (None, e') \<and> x_parts e' = x_parts e \<and>
    map (\<lambda>p. (pdf_name p, pdf_size p)) (x_pdfs e') =
    map (\<lambda>p. (pdf_name p, pdf_size p)) (x_pdfs e) @ part_pdf low L (h, b)"
proof -
  obtain mt params cterr where mt: "parse_media_type L (hdr_get h ''Content-Type'') = (mt, params, cterr)"
    by (metis prod_cases3)
  let ?e = "if hdr_get h ''Content-Type'' \<noteq> [] \<and> cterr then e\<lparr>x_plain := False\<rparr> else e"
  have "length (x_pdfs ?e) < max_pdfs" "x_parts ?e = x_parts e" "x_pdfs ?e = x_pdfs e" using assms(3) by simp_all
  with leaf_good [OF assms(2), of ?e low L h b mt params] mt assms(1) show ?thesis
    by (auto simp: leaf_part_def part_pdf_def Let_def)
qed

lemma walk_parts_good:
  assumes "good_disk dk" "list_all (\<lambda>p. leaf_part L (fst p)) ps"
    "x_parts e + length ps \<le> max_parts"
    "length (x_pdfs e) + length (concat (map (part_pdf low L) ps)) < max_pdfs"
  shows "\<exists>e'. walk_parts low L dk (Suc n) ps clean seen e = (None, e') \<and>
    map (\<lambda>p. (pdf_name p, pdf_size p)) (x_pdfs e') =
    map (\<lambda>p. (pdf_name p, pdf_size p)) (x_pdfs e) @ concat (map (part_pdf low L) ps)"
  using assms
proof (induction ps arbitrary: e seen)
  case Nil
  then show ?case by simp
next
  case (Cons p ps)
  obtain h b where p: "p = (h, b)" by (cases p)
  let ?e = "e\<lparr>x_parts := x_parts e + 1\<rparr>"
  obtain e1 where e1: "walk low L dk (Suc n) h b ?e = (None, e1)" "x_parts e1 = x_parts ?e"
    "map (\<lambda>p. (pdf_name p, pdf_size p)) (x_pdfs e1) = map (\<lambda>p. (pdf_name p, pdf_size p)) (x_pdfs ?e) @ part_pdf low L (h, b)"
    using walk_leaf_part [of L h dk ?e low n b] Cons.prems p by auto
  have len: "length (x_pdfs e1) = length (x_pdfs e) + length (part_pdf low L (h, b))"
    using arg_cong [OF e1(3), of length] by simp
  obtain e2 where "walk_parts low L dk (Suc n) ps clean (seen + 1) e1 = (None, e2)"
    "map (\<lambda>p. (pdf_name p, pdf_size p)) (x_pdfs e2) =
     map (\<lambda>p. (pdf_name p, pdf_size p)) (x_pdfs e1) @ concat (map (part_pdf low L) ps)"
    using Cons.IH [of e1 "seen + 1"] Cons.prems p e1(2) len by auto
  with e1 Cons.prems p show ?case by (simp add: max_parts_def)
qed


lemma ex_pmt: "parse_media_type ex_lib [] = ([], [], True)"
  by (simp add: ex_lib_def)

lemma ex_complete: "complete_pdf ex_pdf" "\<not> complete_pdf ex_text"
  by (simp_all add: complete_pdf_def ex_pdf_def ex_text_def pdf_magic_def tail_has_eof_def pdf_eof_def tail_bytes_def)


section \<open>Padded base64\<close>

text \<open>A base64 attachment is read alike however a device pads or indents its lines: two bodies with the
  same characters apart from white space decode to the same bytes, so whatever else the library's decoder
  does, white space never costs somebody a scan.\<close>

theorem base64_whitespace_ignored:
  assumes "filter (\<lambda>c. \<not> b64_space c) (rd_bytes b) = filter (\<lambda>c. \<not> b64_space c) (rd_bytes b')"
    "rd_end b = rd_end b'" "to_lower low (trim_space (hdr_get h ''Content-Transfer-Encoding'')) = ''base64''"
  shows "leaf low L dk h b mt ps e = leaf low L dk h b' mt ps e"
proof -
  have "space_filter b = space_filter b'"
    using assms(1,2) by (cases b; cases b') (simp add: space_filter_def)
  then have "decoded low L h b = decoded low L h b'" using assms(3) by (simp add: decoded_def)
  then show ?thesis by (simp only: leaf_def)
qed

theorem base64_whitespace_ignored_witness:
  "leaf (\<lambda>r. r) ex_lib ex_disk [(''Content-Transfer-Encoding'', ''base64'')] \<lparr>rd_bytes = ''JVBE Rg=='', rd_end = EndEOF\<rparr>
     [] [] new_extractor =
   leaf (\<lambda>r. r) ex_lib ex_disk [(''Content-Transfer-Encoding'', ''base64'')] \<lparr>rd_bytes = ''JVBERg=='', rd_end = EndEOF\<rparr>
     [] [] new_extractor"
proof (rule base64_whitespace_ignored)
  have c: "char_of (98 :: nat) = CHR ''b''" "char_of (97 :: nat) = CHR ''a''" "char_of (115 :: nat) = CHR ''s''"
    "char_of (101 :: nat) = CHR ''e''" "char_of (54 :: nat) = CHR ''6''" "char_of (52 :: nat) = CHR ''4''" by code_simp+
  have "trim_space ''base64'' = ''base64''"
    by (simp add: trim_space_def trim_right_space.simps trailing_space_def ends_in_space_def is_space_def)
  then show "to_lower (\<lambda>r. r) (trim_space (hdr_get [(''Content-Transfer-Encoding'', ''base64'')] ''Content-Transfer-Encoding'')) = ''base64''"
    by (simp add: hdr_get_def to_lower_def lower_rune_def encode_rune_def valid_rune_def c)
qed (simp_all add: b64_space_def)

end
