(* ===== verification/Go_Url.thy ===== *)
theory Go_Url
  imports Go_Strings
begin

text \<open>
  \<open>net/url\<close> as far as the program uses it: parsing an absolute or relative reference, writing it back, and the
  escaping of path segments and query components.
\<close>

section \<open>Escaping\<close>

datatype encoding = EncPath | EncPathSegment | EncHost | EncZone | EncUser | EncQuery | EncFragment

definition unreserved :: "char \<Rightarrow> bool" where
  "unreserved c = (let b = byte c in
     65 \<le> b \<and> b \<le> 90 \<or> 97 \<le> b \<and> b \<le> 122 \<or> 48 \<le> b \<and> b \<le> 57 \<or> c \<in> set ''-_.~'')"

definition should_escape :: "encoding \<Rightarrow> char \<Rightarrow> bool" where
  "should_escape m c =
     (if unreserved c then False
      else if m \<in> {EncHost, EncZone} \<and> (c \<in> set ''!$&()*+,;=:[]<>'' \<or> byte c = 34 \<or> byte c = 39) then False
      else if c \<in> set ''$&+,/:;=?@'' then
        (case m of
           EncPath \<Rightarrow> c = CHR ''?''
         | EncPathSegment \<Rightarrow> c \<in> set ''/;,?''
         | EncUser \<Rightarrow> c \<in> set ''@/?:''
         | EncQuery \<Rightarrow> True
         | EncFragment \<Rightarrow> False
         | _ \<Rightarrow> True)
      else \<not> (m = EncFragment \<and> c \<in> set ''!()*''))"

definition hex_digit :: "nat \<Rightarrow> char" where
  "hex_digit n = char_of (if n < 10 then 48 + n else 55 + n)"

definition unhex :: "char \<Rightarrow> nat option" where
  "unhex c = (let b = byte c in
     if 48 \<le> b \<and> b \<le> 57 then Some (b - 48)
     else if 97 \<le> b \<and> b \<le> 102 then Some (b - 87)
     else if 65 \<le> b \<and> b \<le> 70 then Some (b - 55) else None)"

definition escape_char :: "encoding \<Rightarrow> char \<Rightarrow> string" where
  "escape_char m c =
     (if \<not> should_escape m c then [c]
      else if c = CHR '' '' \<and> m = EncQuery then ''+''
      else [CHR ''%'', hex_digit (byte c div 16), hex_digit (byte c mod 16)])"

definition url_escape :: "encoding \<Rightarrow> string \<Rightarrow> string" where
  "url_escape m s = concat (map (escape_char m) s)"

fun url_unescape :: "encoding \<Rightarrow> string \<Rightarrow> string option" where
  "url_unescape m [] = Some []"
| "url_unescape m (c # cs) =
     (if c = CHR ''%'' then
        (case cs of
           a # b # rest \<Rightarrow>
             (case (unhex a, unhex b) of
                (Some x, Some y) \<Rightarrow>
                  if m = EncHost \<and> x < 8 \<and> \<not> (a = CHR ''2'' \<and> b = CHR ''5'') then None
                  else if m = EncZone \<and> \<not> (a = CHR ''2'' \<and> b = CHR ''5'') \<and> x * 16 + y \<noteq> 32 \<and>
                          should_escape EncHost (char_of (x * 16 + y)) then None
                  else map_option ((#) (char_of (x * 16 + y))) (url_unescape m rest)
              | _ \<Rightarrow> None)
         | _ \<Rightarrow> None)
      else if c = CHR ''+'' then map_option ((#) (if m = EncQuery then CHR '' '' else CHR ''+'')) (url_unescape m cs)
      else if m \<in> {EncHost, EncZone} \<and> byte c < 128 \<and> should_escape m c then None
      else map_option ((#) c) (url_unescape m cs))"

definition path_escape :: "string \<Rightarrow> string" where
  "path_escape s = url_escape EncPathSegment s"

definition query_escape :: "string \<Rightarrow> string" where
  "query_escape s = url_escape EncQuery s"

section \<open>The parts of a URL\<close>

record url =
  u_scheme :: string
  u_opaque :: string
  u_user :: "(string \<times> string option) option"
  u_host :: string
  u_path :: string
  u_raw_path :: string
  u_omit_host :: bool
  u_force_query :: bool
  u_raw_query :: string
  u_fragment :: string
  u_raw_fragment :: string

definition empty_url :: url where
  "empty_url = \<lparr>u_scheme = [], u_opaque = [], u_user = None, u_host = [], u_path = [], u_raw_path = [],
     u_omit_host = False, u_force_query = False, u_raw_query = [], u_fragment = [], u_raw_fragment = []\<rparr>"

text \<open>\<open>getScheme\<close>: \<open>None\<close> is the error of a leading colon.\<close>

fun get_scheme_from :: "string \<Rightarrow> string \<Rightarrow> string \<Rightarrow> (string \<times> string) option" where
  "get_scheme_from whole acc [] = Some ([], whole)"
| "get_scheme_from whole acc (c # cs) =
     (let b = byte c in
      if 65 \<le> b \<and> b \<le> 90 \<or> 97 \<le> b \<and> b \<le> 122 then get_scheme_from whole (acc @ [c]) cs
      else if 48 \<le> b \<and> b \<le> 57 \<or> c \<in> set ''+-.'' then
        (if acc = [] then Some ([], whole) else get_scheme_from whole (acc @ [c]) cs)
      else if c = CHR '':'' then (if acc = [] then None else Some (acc, cs))
      else Some ([], whole))"

definition ascii_lower :: "string \<Rightarrow> string" where
  "ascii_lower s = map (\<lambda>c. if 65 \<le> byte c \<and> byte c \<le> 90 then char_of (byte c + 32) else c) s"

text \<open>A colon and digits, or nothing.\<close>

definition valid_optional_port :: "string \<Rightarrow> bool" where
  "valid_optional_port p =
     (case p of [] \<Rightarrow> True | c # ds \<Rightarrow> c = CHR '':'' \<and> list_all (\<lambda>d. 48 \<le> byte d \<and> byte d \<le> 57) ds)"

definition before_last :: "char \<Rightarrow> string \<Rightarrow> string" where
  "before_last c s = take (length s - length (after_last c s) - 1) s"

text \<open>The first occurrence of a separator of several characters.\<close>

fun cut_at :: "string \<Rightarrow> string \<Rightarrow> (string \<times> string) option" where
  "cut_at sep [] = (if sep = [] then Some ([], []) else None)"
| "cut_at sep (c # cs) =
     (if prefix sep (c # cs) then Some ([], c # cs)
      else map_option (\<lambda>(u, v). (c # u, v)) (cut_at sep cs))"

definition parse_host :: "string \<Rightarrow> string option" where
  "parse_host host =
     (if prefix ''['' host then
        (if CHR '']'' \<notin> set host \<or> \<not> valid_optional_port (after_last (CHR '']'') host) then None
         else let inside = before_last (CHR '']'') host; rest = CHR '']'' # after_last (CHR '']'') host in
           (case cut_at ''%25'' inside of
              Some (u, v) \<Rightarrow>
                (case (url_unescape EncHost u, url_unescape EncZone v, url_unescape EncHost rest) of
                   (Some a, Some b, Some c) \<Rightarrow> Some (a @ b @ c) | _ \<Rightarrow> None)
            | None \<Rightarrow> url_unescape EncHost host))
      else if CHR ''['' \<in> set host then None
      else if CHR '':'' \<in> set host \<and> \<not> valid_optional_port (CHR '':'' # after_last (CHR '':'') host) then None
      else url_unescape EncHost host)"

definition userinfo_char :: "char \<Rightarrow> bool" where
  "userinfo_char c = (let b = byte c in
     65 \<le> b \<and> b \<le> 90 \<or> 97 \<le> b \<and> b \<le> 122 \<or> 48 \<le> b \<and> b \<le> 57 \<or> c \<in> set ''-._:~!$&()*+,;=%@'' \<or> b = 39)"

definition parse_authority :: "string \<Rightarrow> ((string \<times> string option) option \<times> string) option" where
  "parse_authority a =
     (if CHR ''@'' \<notin> set a then map_option (\<lambda>h. (None, h)) (parse_host a)
      else let ui = before_last (CHR ''@'') a in
        (case parse_host (after_last (CHR ''@'') a) of
           None \<Rightarrow> None
         | Some h \<Rightarrow>
             if \<not> list_all userinfo_char ui then None
             else (case cut (CHR '':'') ui of
                     None \<Rightarrow> map_option (\<lambda>u. (Some (u, None), h)) (url_unescape EncUser ui)
                   | Some (u, p) \<Rightarrow>
                       (case (url_unescape EncUser u, url_unescape EncUser p) of
                          (Some u', Some p') \<Rightarrow> Some (Some (u', Some p'), h) | _ \<Rightarrow> None))))"

definition set_path :: "string \<Rightarrow> url \<Rightarrow> url option" where
  "set_path p u =
     (case url_unescape EncPath p of
        None \<Rightarrow> None
      | Some path \<Rightarrow> Some (u\<lparr>u_path := path, u_raw_path := (if url_escape EncPath path = p then [] else p)\<rparr>))"

definition parse_unfragmented :: "string \<Rightarrow> url option" where
  "parse_unfragmented s =
     (if list_ex (\<lambda>c. byte c < 32 \<or> byte c = 127) s then None
      else if s = ''*'' then Some (empty_url\<lparr>u_path := ''*''\<rparr>)
      else (case get_scheme_from s [] s of
        None \<Rightarrow> None
      | Some (sch, rest0) \<Rightarrow>
          let force = (suffix ''?'' rest0 \<and> count_list rest0 (CHR ''?'') = 1);
              rest = before (CHR ''?'') rest0;
              u = empty_url\<lparr>u_scheme := ascii_lower sch, u_force_query := force,
                            u_raw_query := after (CHR ''?'') rest0\<rparr>
          in if \<not> prefix ''/'' rest \<and> sch \<noteq> [] then Some (u\<lparr>u_opaque := rest\<rparr>)
             else if \<not> prefix ''/'' rest \<and> CHR '':'' \<in> set (before (CHR ''/'') rest) then None
             else if prefix ''//'' rest \<and> (sch \<noteq> [] \<or> \<not> prefix ''///'' rest) then
               (let auth = before (CHR ''/'') (drop 2 rest); path = drop (length auth) (drop 2 rest) in
                case parse_authority auth of
                  None \<Rightarrow> None
                | Some (user, host) \<Rightarrow> set_path path (u\<lparr>u_user := user, u_host := host\<rparr>))
             else set_path rest (u\<lparr>u_omit_host := (sch \<noteq> [] \<and> prefix ''/'' rest)\<rparr>)))"

definition url_parse :: "string \<Rightarrow> url option" where
  "url_parse s =
     (case parse_unfragmented (before (CHR ''#'') s) of
        None \<Rightarrow> None
      | Some u \<Rightarrow>
          let frag = after (CHR ''#'') s in
          if frag = [] then Some u
          else (case url_unescape EncFragment frag of
                  None \<Rightarrow> None
                | Some f \<Rightarrow> Some (u\<lparr>u_fragment := f, u_raw_fragment := (if url_escape EncFragment f = frag then [] else frag)\<rparr>)))"

definition is_abs_url :: "url \<Rightarrow> bool" where
  "is_abs_url u = (u_scheme u \<noteq> [])"

section \<open>Writing a URL\<close>

definition valid_encoded :: "encoding \<Rightarrow> string \<Rightarrow> bool" where
  "valid_encoded m s =
     list_all (\<lambda>c. c \<in> set ''!$&()*+,;=:@'' \<or> byte c = 39 \<or> c \<in> set ''[]'' \<or> c = CHR ''%'' \<or> \<not> should_escape m c) s"

definition escaped_path :: "url \<Rightarrow> string" where
  "escaped_path u =
     (if u_raw_path u \<noteq> [] \<and> valid_encoded EncPath (u_raw_path u) \<and> url_unescape EncPath (u_raw_path u) = Some (u_path u)
      then u_raw_path u
      else if u_path u = ''*'' then ''*'' else url_escape EncPath (u_path u))"

definition escaped_fragment :: "url \<Rightarrow> string" where
  "escaped_fragment u =
     (if u_raw_fragment u \<noteq> [] \<and> valid_encoded EncFragment (u_raw_fragment u) \<and>
         url_unescape EncFragment (u_raw_fragment u) = Some (u_fragment u)
      then u_raw_fragment u else url_escape EncFragment (u_fragment u))"

definition userinfo_string :: "string \<times> string option \<Rightarrow> string" where
  "userinfo_string ui =
     (case ui of (n, None) \<Rightarrow> url_escape EncUser n | (n, Some p) \<Rightarrow> url_escape EncUser n @ '':'' @ url_escape EncUser p)"

definition url_string :: "url \<Rightarrow> string" where
  "url_string u =
     (let scheme = (if u_scheme u \<noteq> [] then u_scheme u @ '':'' else []);
          authority =
            (if (u_scheme u \<noteq> [] \<or> u_host u \<noteq> [] \<or> u_user u \<noteq> None) \<and>
                \<not> (u_omit_host u \<and> u_host u = [] \<and> u_user u = None)
             then (if u_host u \<noteq> [] \<or> u_path u \<noteq> [] \<or> u_user u \<noteq> None then ''//'' else []) @
                  (case u_user u of None \<Rightarrow> [] | Some ui \<Rightarrow> userinfo_string ui @ ''@'') @
                  url_escape EncHost (u_host u)
             else []);
          path = escaped_path u;
          hier = scheme @ authority @
                 (if path \<noteq> [] \<and> \<not> prefix ''/'' path \<and> u_host u \<noteq> [] then ''/'' else []) @
                 (if scheme = [] \<and> authority = [] \<and> CHR '':'' \<in> set (before (CHR ''/'') path) then ''./'' else []) @ path
      in (if u_opaque u \<noteq> [] then scheme @ u_opaque u else hier) @
         (if u_force_query u \<or> u_raw_query u \<noteq> [] then ''?'' @ u_raw_query u else []) @
         (if u_fragment u \<noteq> [] then ''#'' @ escaped_fragment u else []))"

text \<open>A segment escaped this way stays one segment of a path.\<close>

lemma path_escape_safe: "c \<in> set (path_escape s) \<Longrightarrow> c \<noteq> CHR ''/'' \<and> c \<noteq> CHR ''?'' \<and> c \<noteq> CHR ''#''"
proof -
  assume "c \<in> set (path_escape s)"
  then obtain d where d: "c \<in> set (escape_char EncPathSegment d)" by (auto simp: path_escape_def url_escape_def)
  have h: "hex_digit n \<notin> set ''/?#''" if "n < 16" for n
  proof -
    have "list_all (\<lambda>n. hex_digit n \<notin> set ''/?#'') [0..<16]" by code_simp
    with that show ?thesis by (auto simp: list_all_iff)
  qed
  have b: "byte d div 16 < 16" "byte d mod 16 < 16" using byte_less_256 [of d] by (simp_all add: less_mult_imp_div_less)
  from d consider "c = d" "\<not> should_escape EncPathSegment d" | "c = CHR ''%''"
    | "c = hex_digit (byte d div 16)" | "c = hex_digit (byte d mod 16)"
    by (auto simp: escape_char_def split: if_splits)
  then show ?thesis
  proof cases
    case 1
    have "should_escape EncPathSegment (CHR ''/'')" "should_escape EncPathSegment (CHR ''?'')"
      "should_escape EncPathSegment (CHR ''#'')" by code_simp+
    with 1 show ?thesis by metis
  qed (use h b in auto)
qed

end
