(* ===== verification/Msapi.thy ===== *)
theory Msapi
  imports Go_Url Go_Base64 "HOL-Library.Word"
begin

text \<open>
  \<open>internal/msapi\<close>: the bounded retry loop around every call to a Microsoft API, the waits between the
  attempts, and the roles read out of an access token. The network, the clock and the context are the
  argument \<open>net\<close>, functions on a state of their own; what is sent is also written to a log, over which the
  theorems about requests are stated.
\<close>

section \<open>Requests and the network\<close>

text \<open>Which \<open>http.Client\<close> sends a request: one that adds the bearer token, or the plain one for uploads.\<close>

datatype http_client = Authorized | PlainClient

record request =
  rq_client :: http_client
  rq_method :: string
  rq_url :: string
  rq_headers :: "(string \<times> string) list"
  rq_body :: string

record response =
  rs_status :: int
  rs_status_line :: string
  rs_headers :: "(string \<times> string) list"
  rs_body :: string
  rs_body_ok :: bool

definition rs_get :: "response \<Rightarrow> string \<Rightarrow> string" where
  "rs_get r k = (case map_of (rs_headers r) k of None \<Rightarrow> [] | Some v \<Rightarrow> v)"

text \<open>
  \<open>net_do\<close> is one round trip, \<open>None\<close> a network error; \<open>net_sleep\<close> the context-aware wait; \<open>net_done\<close> whether
  the context is done; \<open>net_until\<close> the time until an HTTP date, if the header is one; \<open>net_error\<close> the message
  of the JSON error envelope in a body.
\<close>

record 'h net =
  net_do :: "request \<Rightarrow> 'h \<Rightarrow> response option \<times> 'h"
  net_sleep :: "duration \<Rightarrow> 'h \<Rightarrow> 'h"
  net_done :: "'h \<Rightarrow> bool"
  net_until :: "string \<Rightarrow> 'h \<Rightarrow> duration option"
  net_error :: "string \<Rightarrow> string option"

record 'h http =
  ht_net :: 'h
  ht_log :: "request list"
  ht_waits :: "duration list"

text \<open>\<open>http.NewRequestWithContext\<close> refuses a URL that does not parse.\<close>

definition new_request :: "http_client \<Rightarrow> string \<Rightarrow> string \<Rightarrow> (string \<times> string) list \<Rightarrow> string \<Rightarrow> request option" where
  "new_request cl meth u hs body =
     (if url_parse u = None then None
      else Some \<lparr>rq_client = cl, rq_method = meth, rq_url = u, rq_headers = hs, rq_body = body\<rparr>)"

section \<open>Waits\<close>

definition max_attempts :: nat where "max_attempts = 4"
definition base_backoff :: duration where "base_backoff = 500000000"
definition max_wait :: duration where "max_wait = 30000000000"

definition clamp :: "duration \<Rightarrow> duration" where
  "clamp d = min (max d base_backoff) max_wait"

definition backoff :: "nat \<Rightarrow> duration" where
  "backoff attempt = min (base_backoff * 2 ^ (attempt - 1)) max_wait"

text \<open>\<open>strconv.Atoi\<close>: an optional sign, then decimal digits, the value within 64 bits.\<close>

definition digit :: "char \<Rightarrow> int option" where
  "digit c = (if 48 \<le> byte c \<and> byte c \<le> 57 then Some (int (byte c) - 48) else None)"

fun digits_value :: "int \<Rightarrow> string \<Rightarrow> int option" where
  "digits_value acc [] = Some acc"
| "digits_value acc (c # cs) = (case digit c of None \<Rightarrow> None | Some d \<Rightarrow> digits_value (acc * 10 + d) cs)"

definition atoi :: "string \<Rightarrow> int option" where
  "atoi s =
     (let (neg, ds) = (if prefix ''-'' s then (True, tl s) else if prefix ''+'' s then (False, tl s) else (False, s))
      in if ds = [] then None
         else (case digits_value 0 ds of
                 None \<Rightarrow> None
               | Some n \<Rightarrow> let v = (if neg then - n else n)
                          in if - (2 ^ 63) \<le> v \<and> v < 2 ^ 63 then Some v else None))"

text \<open>\<open>time.Duration(secs) * time.Second\<close> in 64 bits.\<close>

definition seconds :: "int \<Rightarrow> duration" where
  "seconds secs = sint (word_of_int (secs * 1000000000) :: 64 word)"

definition retry_after :: "'h net \<Rightarrow> 'h \<Rightarrow> response \<Rightarrow> duration \<Rightarrow> duration" where
  "retry_after N h r fallback =
     (let v = rs_get r ''Retry-After'' in
      if v = [] then fallback
      else (case atoi v of
              Some secs \<Rightarrow> if secs < 0 then fallback else clamp (seconds secs)
            | None \<Rightarrow> (case net_until N v h of Some d \<Rightarrow> clamp d | None \<Rightarrow> fallback)))"

definition envelope_message :: "(string \<Rightarrow> string option) \<Rightarrow> response \<Rightarrow> string" where
  "envelope_message decode r =
     (case decode (take 4096 (rs_body r)) of
        Some m \<Rightarrow> if m \<noteq> [] then m else rs_status_line r
      | None \<Rightarrow> rs_status_line r)"

definition error_message :: "'h net \<Rightarrow> response \<Rightarrow> string" where
  "error_message N = envelope_message (net_error N)"

section \<open>Do\<close>

datatype do_error = BuildFailed | ContextDone | Rejected string | GaveUp string

definition wait :: "'h net \<Rightarrow> duration \<Rightarrow> 'h http \<Rightarrow> bool \<times> 'h http" where
  "wait N d w =
     (let w1 = w\<lparr>ht_net := net_sleep N d (ht_net w), ht_waits := ht_waits w @ [d]\<rparr>
      in (\<not> net_done N (ht_net w1), w1))"

definition send_one :: "'h net \<Rightarrow> request \<Rightarrow> 'h http \<Rightarrow> response option \<times> 'h http" where
  "send_one N rq w =
     (let (r, h) = net_do N rq (ht_net w) in (r, w\<lparr>ht_net := h, ht_log := ht_log w @ [rq]\<rparr>))"

text \<open>The loop of \<open>Do\<close>: \<open>left\<close> attempts remain after this one, which is number \<open>attempt\<close>.\<close>

fun do_from :: "'h net \<Rightarrow> (nat \<Rightarrow> request option) \<Rightarrow> nat \<Rightarrow> nat \<Rightarrow> 'h http \<Rightarrow> (do_error + response) \<times> 'h http" where
  "do_from N mk attempt left w =
     (case mk attempt of
        None \<Rightarrow> (Inl BuildFailed, w)
      | Some rq \<Rightarrow>
          let (r, w1) = send_one N rq w;
              again = (\<lambda>err resp.
                if left = 0 then (Inl (GaveUp err), w1)
                else
                  let d = (case resp of None \<Rightarrow> backoff attempt
                                      | Some rs \<Rightarrow> retry_after N (ht_net w1) rs (backoff attempt));
                      (go, w2) = wait N d w1
                  in if \<not> go then (Inl ContextDone, w2) else do_from N mk (attempt + 1) (left - 1) w2)
          in (case r of
                None \<Rightarrow> if net_done N (ht_net w1) then (Inl ContextDone, w1) else again ''network error'' None
              | Some rs \<Rightarrow>
                  if rs_status rs < 300 then (Inr rs, w1)
                  else if rs_status rs = 429 \<or> 500 \<le> rs_status rs
                  then again (error_message N rs) (Some rs)
                  else (Inl (Rejected (error_message N rs)), w1)))"

declare do_from.simps [simp del]

definition do_request :: "'h net \<Rightarrow> (nat \<Rightarrow> request option) \<Rightarrow> 'h http \<Rightarrow> (do_error + response) \<times> 'h http" where
  "do_request N mk w = do_from N mk 1 (max_attempts - 1) w"

section \<open>TokenRoles\<close>

definition url_value :: "char \<Rightarrow> nat option" where
  "url_value c =
     (let b = byte c in
      if 65 \<le> b \<and> b \<le> 90 then Some (b - 65)
      else if 97 \<le> b \<and> b \<le> 122 then Some (b - 71)
      else if 48 \<le> b \<and> b \<le> 57 then Some (b + 4)
      else if b = 45 then Some 62 else if b = 95 then Some 63 else None)"

text \<open>\<open>RawURLEncoding.DecodeString\<close>: line breaks are skipped, any other foreign character is an error.\<close>

definition raw_url_decode :: "string \<Rightarrow> nat list option" where
  "raw_url_decode s =
     (let t = filter (\<lambda>c. byte c \<noteq> 13 \<and> byte c \<noteq> 10) s in
      if list_ex (\<lambda>c. url_value c = None) t \<or> length t mod 4 = 1 then None
      else Some (map (\<lambda>b. b mod 256) (unsextets (map (\<lambda>c. the (url_value c)) t))))"

definition token_roles :: "(nat list \<Rightarrow> string list option) \<Rightarrow> string \<Rightarrow> string list" where
  "token_roles json_roles token =
     (case split_on (CHR ''.'') token of
        [h, p, sig] \<Rightarrow>
          (case raw_url_decode p of
             None \<Rightarrow> []
           | Some payload \<Rightarrow> (case json_roles payload of None \<Rightarrow> [] | Some rs \<Rightarrow> rs))
      | _ \<Rightarrow> [])"

end
