(* ===== verification/Msapi_Properties.thy ===== *)
theory Msapi_Properties
  imports Msapi
begin

text \<open>
  The retry loop is bounded and patient, and a token's roles are read back as they were written.
\<close>

section \<open>Waits\<close>

lemma clamp_bounds: "base_backoff \<le> clamp d \<and> clamp d \<le> max_wait"
  by (simp add: clamp_def base_backoff_def max_wait_def)

lemma backoff_bounds: "base_backoff \<le> backoff attempt \<and> backoff attempt \<le> max_wait"
  by (simp add: backoff_def base_backoff_def max_wait_def)

lemma retry_after_bounds:
  "base_backoff \<le> d \<Longrightarrow> d \<le> max_wait \<Longrightarrow>
   base_backoff \<le> retry_after N h r d \<and> retry_after N h r d \<le> max_wait"
  using clamp_bounds by (auto simp: retry_after_def Let_def split: option.splits)

text \<open>A Retry-After of three centuries wraps around and is taken for the shortest wait, not the longest.\<close>

lemma retry_after_wraps: "clamp (seconds 9223372037) = base_backoff"
proof -
  have "seconds 9223372037 = - 9223372036709551616"
    unfolding seconds_def by code_simp
  then show ?thesis by (simp add: clamp_def base_backoff_def max_wait_def)
qed

section \<open>Do\<close>

lemma send_one_simps:
  "send_one N rq w = (r, w1) \<Longrightarrow> ht_log w1 = ht_log w @ [rq] \<and> ht_waits w1 = ht_waits w"
  by (auto simp: send_one_def split: prod.splits)

lemma wait_simps:
  "wait N d w = (go, w1) \<Longrightarrow> ht_log w1 = ht_log w \<and> ht_waits w1 = ht_waits w @ [d]"
  by (auto simp: wait_def Let_def)

text \<open>One turn of the loop: it stops with an answer, or sleeps and goes on.\<close>

lemma do_from_cases:
  assumes "do_from N mk attempt left w = (res, w')"
  obtains (unbuilt) "mk attempt = None" "res = Inl BuildFailed" "w' = w"
  | (success) rq rs where "mk attempt = Some rq" "send_one N rq w = (Some rs, w')" "rs_status rs < 300" "res = Inr rs"
  | (failure) rq r e where "mk attempt = Some rq" "send_one N rq w = (r, w')" "res = Inl e"
      "\<And>rs. r = Some rs \<Longrightarrow> 300 \<le> rs_status rs"
  | (cancelled) rq r w1 d where "mk attempt = Some rq" "send_one N rq w = (r, w1)" "wait N d w1 = (False, w')"
      "res = Inl ContextDone" "base_backoff \<le> d" "d \<le> max_wait"
      "\<And>rs. r = Some rs \<Longrightarrow> rs_status rs = 429 \<or> 500 \<le> rs_status rs" "left \<noteq> 0"
  | (again) rq r w1 d w2 where "mk attempt = Some rq" "send_one N rq w = (r, w1)" "wait N d w1 = (True, w2)"
      "do_from N mk (attempt + 1) (left - 1) w2 = (res, w')" "base_backoff \<le> d" "d \<le> max_wait"
      "\<And>rs. r = Some rs \<Longrightarrow> rs_status rs = 429 \<or> 500 \<le> rs_status rs" "left \<noteq> 0"
proof (cases "mk attempt")
  case None
  with assms unbuilt show thesis by (simp add: do_from.simps)
next
  case (Some rq)
  obtain r w1 where s: "send_one N rq w = (r, w1)" by (cases "send_one N rq w")
  define d where "d = (case r of None \<Rightarrow> backoff attempt
      | Some rs \<Rightarrow> retry_after N (ht_net w1) rs (backoff attempt))"
  have d: "base_backoff \<le> d" "d \<le> max_wait"
    using backoff_bounds [of attempt] retry_after_bounds [of "backoff attempt" N "ht_net w1"]
    by (auto simp: d_def split: option.splits)
  obtain go w2 where w2: "wait N d w1 = (go, w2)" by (cases "wait N d w1")
  let ?again = "\<lambda>err. if left = 0 then (Inl (GaveUp err), w1)
      else if \<not> go then (Inl ContextDone, w2) else do_from N mk (attempt + 1) (left - 1) w2"
  show thesis
  proof (cases r)
    case None
    have eq: "do_from N mk attempt left w =
        (if net_done N (ht_net w1) then (Inl ContextDone, w1) else ?again ''network error'')"
      using Some s None w2 d_def by (subst do_from.simps) (simp add: Let_def)
    show thesis
    proof (cases "net_done N (ht_net w1) \<or> left = 0")
      case True
      then have "w' = w1" "\<exists>e. res = Inl e" using assms eq by (auto split: if_splits)
      with failure Some s None show thesis by blast
    next
      case False
      then show thesis
        using assms eq cancelled [OF Some s] again [OF Some s] w2 d None by (cases go) auto
    qed
  next
    case (Some rs)
    note rs = Some
    let ?retry = "rs_status rs = 429 \<or> 500 \<le> rs_status rs"
    have eq: "do_from N mk attempt left w =
        (if rs_status rs < 300 then (Inr rs, w1) else if ?retry then ?again (error_message N rs)
         else (Inl (Rejected (error_message N rs)), w1))"
      using \<open>mk attempt = Some rq\<close> s rs w2 d_def by (subst do_from.simps) (simp add: Let_def)
    show thesis
    proof (cases "rs_status rs < 300")
      case True
      with assms eq success \<open>mk attempt = Some rq\<close> s rs show thesis by auto
    next
      case False
      show thesis
      proof (cases "?retry \<and> left \<noteq> 0")
        case True
        with False show thesis
          using assms eq cancelled [OF \<open>mk attempt = Some rq\<close> s] again [OF \<open>mk attempt = Some rq\<close> s] w2 d rs
          by (cases go) auto
      next
        case noretry: False
        with False obtain e where "w' = w1" "res = Inl e" using assms eq by (auto split: if_splits)
        with s rs False show thesis by (intro failure [OF \<open>mk attempt = Some rq\<close>, of r e]) auto
      qed
    qed
  qed
qed

lemma do_from_bounded:
  assumes "do_from N mk attempt left w = (res, w')"
  shows "\<exists>rqs ws. ht_log w' = ht_log w @ rqs \<and> ht_waits w' = ht_waits w @ ws \<and>
    length rqs \<le> left + 1 \<and> length ws \<le> length rqs \<and> list_all (\<lambda>d. base_backoff \<le> d \<and> d \<le> max_wait) ws \<and>
    (\<forall>i < length rqs. mk (attempt + i) = Some (rqs ! i)) \<and>
    (\<forall>rs. res = Inr rs \<longrightarrow> rs_status rs < 300 \<and> rqs \<noteq> [])"
  using assms
proof (induction left arbitrary: attempt w)
  case 0
  from 0 show ?case
  proof (cases rule: do_from_cases)
    case unbuilt
    then show ?thesis by (intro exI [of _ "[]"]) simp
  next
    case (success rq rs)
    then show ?thesis using send_one_simps [OF success(2)] by (intro exI [of _ "[rq]"] exI [of _ "[]"]) simp
  next
    case (failure rq r e)
    then show ?thesis using send_one_simps [OF failure(2)] by (intro exI [of _ "[rq]"] exI [of _ "[]"]) simp
  qed simp_all
next
  case (Suc left)
  from Suc.prems show ?case
  proof (cases rule: do_from_cases)
    case unbuilt
    then show ?thesis by (intro exI [of _ "[]"]) simp
  next
    case (success rq rs)
    then show ?thesis using send_one_simps [OF success(2)] by (intro exI [of _ "[rq]"] exI [of _ "[]"]) simp
  next
    case (failure rq r e)
    then show ?thesis using send_one_simps [OF failure(2)] by (intro exI [of _ "[rq]"] exI [of _ "[]"]) simp
  next
    case (cancelled rq r w1 d)
    then show ?thesis
      using send_one_simps [OF cancelled(2)] wait_simps [OF cancelled(3)]
      by (intro exI [of _ "[rq]"] exI [of _ "[d]"]) simp
  next
    case (again rq r w1 d w2)
    from again(4) have "do_from N mk (attempt + 1) left w2 = (res, w')" by simp
    from Suc.IH [OF this] obtain rqs ws where ih: "ht_log w' = ht_log w2 @ rqs" "ht_waits w' = ht_waits w2 @ ws"
      "length rqs \<le> left + 1" "length ws \<le> length rqs" "list_all (\<lambda>d. base_backoff \<le> d \<and> d \<le> max_wait) ws"
      "\<forall>i < length rqs. mk (attempt + 1 + i) = Some (rqs ! i)"
      "\<forall>rs. res = Inr rs \<longrightarrow> rs_status rs < 300 \<and> rqs \<noteq> []" by blast
    have "\<forall>i < length (rq # rqs). mk (attempt + i) = Some ((rq # rqs) ! i)"
      using ih(6) again(1) by (auto simp: nth_Cons split: nat.splits)
    then show ?thesis
      using ih again(5,6) send_one_simps [OF again(2)] wait_simps [OF again(3)]
      by (intro exI [of _ "rq # rqs"] exI [of _ "d # ws"]) auto
  qed
qed

lemma new_request_fields:
  "new_request cl meth u hs body = Some rq \<Longrightarrow> rq_client rq = cl \<and> rq_url rq = u \<and> url_parse u \<noteq> None \<and> rq_body rq = body"
  by (auto simp: new_request_def split: if_splits)

text \<open>What a logical call sends, for the clients built on it.\<close>

lemma do_request_sends:
  assumes "do_request N mk w = (res, w')"
  obtains rqs where "ht_log w' = ht_log w @ rqs" "list_all (\<lambda>rq. \<exists>i. mk i = Some rq) rqs"
    "\<And>rs. res = Inr rs \<Longrightarrow> rs_status rs < 300 \<and> rqs \<noteq> []"
proof -
  from do_from_bounded [OF assms [unfolded do_request_def]] obtain rqs where
    "ht_log w' = ht_log w @ rqs" "\<forall>i < length rqs. mk (1 + i) = Some (rqs ! i)"
    "\<forall>rs. res = Inr rs \<longrightarrow> rs_status rs < 300 \<and> rqs \<noteq> []" by blast
  then show thesis by (intro that [of rqs]) (auto simp: list_all_length)
qed

text \<open>
  The caller's deadline: a wait of the shortest length or more uses some of it up, unless the context is done
  afterwards, and a round trip never gives any of it back.
\<close>

definition deadline_net :: "'h net \<Rightarrow> ('h \<Rightarrow> nat) \<Rightarrow> bool" where
  "deadline_net N left \<longleftrightarrow>
     (\<forall>rq h. left (snd (net_do N rq h)) \<le> left h) \<and>
     (\<forall>d h. base_backoff \<le> d \<longrightarrow> net_done N (net_sleep N d h) \<or> left (net_sleep N d h) < left h)"

lemma send_one_left: "deadline_net N left \<Longrightarrow> send_one N rq w = (r, w1) \<Longrightarrow> left (ht_net w1) \<le> left (ht_net w)"
  unfolding deadline_net_def send_one_def by (auto split: prod.splits) (metis snd_conv)

lemma wait_left:
  assumes "deadline_net N left" "wait N d w = (True, w1)" "base_backoff \<le> d"
  shows "left (ht_net w1) < left (ht_net w)"
proof -
  have "net_done N (net_sleep N d (ht_net w)) \<or> left (net_sleep N d (ht_net w)) < left (ht_net w)"
    using assms(1,3) unfolding deadline_net_def by blast
  with assms(2) show ?thesis by (auto simp: wait_def Let_def)
qed

lemma do_from_left:
  assumes "deadline_net N lf" "do_from N mk attempt left w = (Inr rs, w')"
  shows "lf (ht_net w') \<le> lf (ht_net w)"
  using assms(2)
proof (induction left arbitrary: attempt w)
  case 0
  then show ?case by (cases rule: do_from_cases) (auto dest: send_one_left [OF assms(1)])
next
  case (Suc left)
  from Suc.prems show ?case
  proof (cases rule: do_from_cases)
    case (success rq rs)
    then show ?thesis using send_one_left [OF assms(1)] by blast
  next
    case (again rq r w1 d w2)
    from again(4) have "do_from N mk (attempt + 1) left w2 = (Inr rs, w')" by simp
    from Suc.IH [OF this] send_one_left [OF assms(1) again(2)] wait_left [OF assms(1) again(3,5)]
    show ?thesis by simp
  qed simp_all
qed

lemma do_request_left: "deadline_net N lf \<Longrightarrow> do_request N mk w = (Inr rs, w') \<Longrightarrow> lf (ht_net w') \<le> lf (ht_net w)"
  by (simp add: do_request_def do_from_left)


section \<open>Token roles\<close>

lemma url_value_char: "n < 64 \<Longrightarrow> url_value (url_char n) = Some n"
  by (auto simp: url_value_def Let_def of_char_url_char)

lemma url_char_plain: "n < 64 \<Longrightarrow> byte (url_char n) \<noteq> 13 \<and> byte (url_char n) \<noteq> 10"
  by (auto simp: of_char_url_char)

lemma sextets_mod: "length (sextets bs) mod 4 \<noteq> 1"
  by (induction bs rule: sextets.induct) auto

lemma raw_url_round_trip:
  assumes "list_all (\<lambda>b. b < 256) bs"
  shows "raw_url_decode (raw_url_encode bs) = Some bs"
proof -
  have less: "n < 64" if "n \<in> set (sextets bs)" for n using sextets_less [OF assms that] .
  have f: "filter (\<lambda>c. byte c \<noteq> 13 \<and> byte c \<noteq> 10) (map url_char (sextets bs)) = map url_char (sextets bs)"
    using less url_char_plain by (auto simp: filter_id_conv)
  have n: "\<not> list_ex (\<lambda>c. url_value c = None) (map url_char (sextets bs))"
    using less url_value_char by (auto simp: list_ex_iff)
  have m: "map (\<lambda>c. the (url_value c)) (map url_char (sextets bs)) = sextets bs"
    using less url_value_char by (simp add: map_idI)
  have b: "map (\<lambda>b. b mod 256) bs = bs" using assms by (auto simp: list_all_iff intro: map_idI)
  show ?thesis
    using f n m sextets_mod [of bs] unsextets_sextets [OF assms] b
    by (simp add: raw_url_decode_def raw_url_encode_def Let_def)
qed

lemma raw_url_encode_no_dot: "list_all (\<lambda>b. b < 256) bs \<Longrightarrow> CHR ''.'' \<notin> set (raw_url_encode bs)"
  using raw_url_encode_safe by blast

text \<open>The roles a token carries are read back exactly: for a token whose three segments are base64url,
  \<open>TokenRoles\<close> is what the JSON decoder finds in the payload that was encoded, and a string of any other
  number of segments has none.\<close>

theorem token_roles_round_trip:
  assumes "list_all (\<lambda>b. b < 256) payload" "CHR ''.'' \<notin> set hdr" "CHR ''.'' \<notin> set sig"
  shows "token_roles json (hdr @ ''.'' @ raw_url_encode payload @ ''.'' @ sig) =
           (case json payload of None \<Rightarrow> [] | Some rs \<Rightarrow> rs) \<and>
         (length (split_on (CHR ''.'') token) \<noteq> 3 \<longrightarrow> token_roles json token = [])"
proof -
  have "split_on (CHR ''.'') (hdr @ ''.'' @ raw_url_encode payload @ ''.'' @ sig) = [hdr, raw_url_encode payload, sig]"
    using assms(2,3) raw_url_encode_no_dot [OF assms(1)]
    by (simp add: split_on_append split_on_none)
  moreover have "token_roles json token = []" if "length (split_on (CHR ''.'') token) \<noteq> 3"
    using that by (auto simp: token_roles_def split: list.splits)
  ultimately show ?thesis using raw_url_round_trip [OF assms(1)] by (simp add: token_roles_def)
qed

theorem token_roles_round_trip_witness:
  "token_roles (\<lambda>p. if p = [123, 125] then Some [''Mail.ReadWrite''] else None)
     (''eyJ9'' @ ''.'' @ raw_url_encode [123, 125] @ ''.'' @ ''sig'') = [''Mail.ReadWrite'']"
  using token_roles_round_trip [of "[123, 125]" "''eyJ9''" "''sig''"
      "\<lambda>p. if p = [123, 125] then Some [''Mail.ReadWrite''] else None"] by simp

end
