(* ===== verification/Mail_Message.thy ===== *)
theory Mail_Message
  imports Go_Strings Go_Path
begin

text \<open>
  The message the pipeline hands to the mailer, as \<open>internal/graphmail/graphmail.go\<close> declares it, and the size
  both of them talk about.
\<close>

record attachment =
  at_name :: string
  at_path :: path

record message =
  ms_to :: "string list"
  ms_subject :: string
  ms_body :: string
  ms_attachments :: "attachment list"

definition max_graph_message_bytes :: int where
  "max_graph_message_bytes = 4 * 1024 * 1024"

definition max_attachment_bytes :: int where
  "max_attachment_bytes = max_graph_message_bytes * 9 div 16"

end
