(* ===== verification/Pipeline.thy ===== *)
theory Pipeline
  imports Store_Safety Mail_Message
begin

text \<open>
  \<open>internal/pipeline/pipeline.go\<close>: the queue between the SMTP listener and the workers, and what a worker
  does with one job. The worker's calls into the store are the functions of \<open>Store\<close>; before each of them
  the environment may change the store (\<open>env\<close>, one function per call), which is what other goroutines do.
  The OCR service and the mailer are the interfaces of the code: their operations are arguments, and
  what the pipeline relies on are the laws of the locales \<open>ocr_service\<close> and \<open>mailer\<close>.
\<close>

section \<open>Numbers in text\<close>

text \<open>\<open>%.1f\<close> of \<open>n / 2^20\<close>: the exact value to one decimal, ties to even.\<close>

definition tenths :: "nat \<Rightarrow> nat" where
  "tenths n =
     (let q = 10 * n div 1048576; r = 10 * n mod 1048576 in
      if 1048576 < 2 * r \<or> (2 * r = 1048576 \<and> odd q) then q + 1 else q)"

definition megabytes_text :: "int \<Rightarrow> string" where
  "megabytes_text n = dec (tenths (nat n) div 10) @ ''.'' @ dec (tenths (nat n) mod 10)"

section \<open>Messages and services\<close>

datatype mail_result = MailOk | MailTooLarge | MailFailed

text \<open>The context a message is sent under: the job's, or the fresh short one of a notice.\<close>

datatype send_context = JobContext | NoticeContext

locale ocr_service =
  fixes ocr :: "string \<Rightarrow> 'o \<Rightarrow> (bool \<times> string) \<times> 'o"
  assumes ocr_pdf: "ocr pdf s = ((True, out), s') \<Longrightarrow> prefix ''%PDF-'' out"

text \<open>A service over a network: \<open>calls\<close> are the requests it has sent, \<open>fit\<close> the ones it may send.\<close>

locale networked_ocr = ocr_service +
  fixes calls :: "'o \<Rightarrow> 'r list" and fit :: "'r \<Rightarrow> bool"
  assumes calls_grow: "grown calls fit s (snd (ocr pdf s))"

locale mailer =
  fixes send :: "send_context \<Rightarrow> message \<Rightarrow> 'm \<Rightarrow> mail_result \<times> 'm"
    and traffic :: "'m \<Rightarrow> 'r list" and fit :: "'r \<Rightarrow> bool"
  assumes traffic_grows: "grown traffic fit s (snd (send c m s))"
    and too_large_silent: "send c m s = (MailTooLarge, s') \<Longrightarrow> s' = s"

section \<open>The queue\<close>

definition queue_per_worker :: nat where "queue_per_worker = 8"

record pipeline =
  pl_base_url :: string
  pl_workers :: nat
  pl_queue :: "job list"

definition new_pipeline :: "string \<Rightarrow> nat \<Rightarrow> pipeline" where
  "new_pipeline url workers = \<lparr>pl_base_url = url, pl_workers = workers, pl_queue = []\<rparr>"

text \<open>\<open>Enqueue\<close> never blocks: a full channel refuses. \<open>take_job\<close> is a worker's receive.\<close>

definition enqueue :: "job \<Rightarrow> pipeline \<Rightarrow> bool \<times> pipeline" where
  "enqueue j p =
     (if length (pl_queue p) < pl_workers p * queue_per_worker
      then (True, p\<lparr>pl_queue := pl_queue p @ [j]\<rparr>) else (False, p))"

definition take_job :: "bool \<Rightarrow> pipeline \<Rightarrow> job option \<times> pipeline" where
  "take_job ctx_done p =
     (if ctx_done then (None, p)
      else (case pl_queue p of [] \<Rightarrow> (None, p) | j # js \<Rightarrow> (Some j, p\<lparr>pl_queue := js\<rparr>)))"

section \<open>The worker's world\<close>

text \<open>\<open>pw_sent\<close> is the history of the mailer's calls and answers, kept for the theorems; nothing reads it.\<close>

record ('o, 'm) world =
  pw_store :: store
  pw_files :: "path \<Rightarrow> string option"
  pw_ocr :: 'o
  pw_mail :: 'm
  pw_tick :: nat
  pw_sent :: "(send_context \<times> message \<times> mail_result) list"

text \<open>
  What surrounds one run: the clock, what other goroutines do before the worker's n-th call into the
  store (and in the middle of it, where it lets go of the lock), the temporary file names, whether closing a file works, how a date is written, and the services.
\<close>

record ('o, 'm) services =
  sv_now :: "nat \<Rightarrow> time"
  sv_env :: "nat \<Rightarrow> store \<Rightarrow> store"
  sv_mid :: "nat \<Rightarrow> store \<Rightarrow> store"
  sv_temp :: "nat \<Rightarrow> path \<Rightarrow> string \<Rightarrow> path option"
  sv_close :: "path \<Rightarrow> bool"
  sv_date :: "time \<Rightarrow> string"
  sv_ocr :: "string \<Rightarrow> 'o \<Rightarrow> (bool \<times> string) \<times> 'o"
  sv_send :: "send_context \<Rightarrow> message \<Rightarrow> 'm \<Rightarrow> mail_result \<times> 'm"

definition apply_effects :: "effect list \<Rightarrow> (path \<Rightarrow> string option) \<Rightarrow> path \<Rightarrow> string option" where
  "apply_effects es fs p =
     (if list_ex (\<lambda>x. case x of RemoveAll d \<Rightarrow> p = d \<or> prefix (d @ ''/'') p | Remove f \<Rightarrow> p = f) es
      then None else fs p)"

definition lstat_of :: "(path \<Rightarrow> string option) \<Rightarrow> path \<Rightarrow> fstat option" where
  "lstat_of fs p = map_option (\<lambda>c. \<lparr>fs_regular = True, fs_size = int (length c)\<rparr>) (fs p)"

text \<open>One call into the store: the others' changes first, then the call, then what it removes from disk.\<close>

definition store_call ::
  "('o, 'm) services \<Rightarrow> (store \<Rightarrow> 'r \<times> store \<times> effect list) \<Rightarrow> ('o, 'm) world \<Rightarrow> 'r \<times> ('o, 'm) world" where
  "store_call V f w =
     (let (r, t, es) = f (sv_env V (pw_tick w) (pw_store w))
      in (r, w\<lparr>pw_store := t, pw_files := apply_effects es (pw_files w), pw_tick := pw_tick w + 1\<rparr>))"

definition send_mail :: "('o, 'm) services \<Rightarrow> send_context \<Rightarrow> message \<Rightarrow> ('o, 'm) world \<Rightarrow> mail_result \<times> ('o, 'm) world" where
  "send_mail V c m w =
     (let (r, s) = sv_send V c m (pw_mail w)
      in (r, w\<lparr>pw_mail := s, pw_sent := pw_sent w @ [(c, m, r)]\<rparr>))"

section \<open>runOCR\<close>

fun run_ocr ::
  "('o, 'm) services \<Rightarrow> string \<Rightarrow> document list \<Rightarrow> ('o, 'm) world \<Rightarrow> document list option \<times> ('o, 'm) world" where
  "run_ocr V jid [] w = (Some [], w)"
| "run_ocr V jid (d # ds) w =
     (case pw_files w (doc_path d) of
        None \<Rightarrow> (None, w)
      | Some content \<Rightarrow>
          (case store_call V (create_file jid ''ocr'' (sv_temp V (pw_tick w)) (sv_mid V (pw_tick w))) w of
             (Inl e, w1) \<Rightarrow> (None, w1)
           | (Inr f, w1) \<Rightarrow>
               let ((ok, out), o') = sv_ocr V content (pw_ocr w1);
                   w2 = w1\<lparr>pw_ocr := o', pw_files := (pw_files w1)(f := Some out)\<rparr>
               in if \<not> ok \<or> \<not> sv_close V f then (None, w2)
                  else (case store_call V (replace_document jid (doc_id d) f True (lstat_of (pw_files w2))) w2 of
                    (Inl e, w3) \<Rightarrow> (None, w3)
                  | (Inr u, w3) \<Rightarrow>
                      (case pw_files w3 f of
                         None \<Rightarrow> (None, w3)
                       | Some c \<Rightarrow>
                           (case run_ocr V jid ds w3 of
                              (None, w4) \<Rightarrow> (None, w4)
                            | (Some ds', w4) \<Rightarrow>
                                (Some (d\<lparr>doc_path := f, doc_size := int (length c), ocr_applied := True\<rparr> # ds'), w4))))))"

section \<open>Notices and delivery\<close>

definition reason_ocr_failed :: string where
  "reason_ocr_failed = ''Text recognition failed, so the scan was not delivered.''"

definition reason_ocr_failed_web :: string where
  "reason_ocr_failed_web = ''Text recognition failed, so the scan could not be made searchable.''"

definition reason_send_failed :: string where
  "reason_send_failed = ''The scan could not be sent by email.''"

definition reason_too_large :: "int \<Rightarrow> string" where
  "reason_too_large n =
     ''The scan is '' @ megabytes_text n @ '' MB, which is larger than the '' @
     megabytes_text max_attachment_bytes @ '' MB an email can carry.''"

abbreviation nl :: string where
  "nl \<equiv> [CHR 0x0A]"

definition notice_message :: "string \<Rightarrow> job \<Rightarrow> string \<Rightarrow> message" where
  "notice_message base_url j reason =
     \<lparr>ms_to = recipients j,
      ms_subject = (if subject j \<noteq> [] then ''Scan not delivered: '' @ subject j else ''Scan not delivered''),
      ms_body = reason @ nl @ nl @
        (if Web (caps j) \<and> base_url \<noteq> []
         then ''You can download the scan here until it expires:'' @ nl @ base_url @ ''/scan/'' @ job_id j @ nl
         else ''Try scanning fewer pages or at a lower resolution, '' @
              ''or ask your administrator to enable web downloads.'' @ nl),
      ms_attachments = []\<rparr>"

definition notice :: "('o, 'm) services \<Rightarrow> string \<Rightarrow> job \<Rightarrow> string \<Rightarrow> ('o, 'm) world \<Rightarrow> ('o, 'm) world" where
  "notice V base_url j reason w = snd (send_mail V NoticeContext (notice_message base_url j reason) w)"

definition scan_message :: "('o, 'm) services \<Rightarrow> job \<Rightarrow> message" where
  "scan_message V j =
     \<lparr>ms_to = recipients j,
      ms_subject = (if subject j = [] then ''Scan '' @ sv_date V (received_at j) else subject j),
      ms_body = ''Your scan is attached.'',
      ms_attachments = map (\<lambda>d. \<lparr>at_name = display_name d, at_path = doc_path d\<rparr>) (documents j)\<rparr>"

definition deliver :: "('o, 'm) services \<Rightarrow> string \<Rightarrow> job \<Rightarrow> ('o, 'm) world \<Rightarrow> bool \<times> ('o, 'm) world" where
  "deliver V base_url j w =
     (case send_mail V JobContext (scan_message V j) w of
        (MailOk, w1) \<Rightarrow> (True, w1)
      | (MailTooLarge, w1) \<Rightarrow> (True, notice V base_url j (reason_too_large (doc_bytes (documents j))) w1)
      | (MailFailed, w1) \<Rightarrow> (False, w1))"

definition delete_job :: "('o, 'm) services \<Rightarrow> string \<Rightarrow> ('o, 'm) world \<Rightarrow> ('o, 'm) world" where
  "delete_job V jid w = snd (store_call V (delete jid) w)"

definition fail_job :: "('o, 'm) services \<Rightarrow> string \<Rightarrow> job \<Rightarrow> string \<Rightarrow> ('o, 'm) world \<Rightarrow> ('o, 'm) world" where
  "fail_job V base_url j reason w =
     (let w1 = snd (store_call V (set_status (job_id j) StatusFailed reason (sv_now V (pw_tick w))) w);
          w2 = (if Email (caps j) then notice V base_url j reason w1 else w1)
      in if \<not> Web (caps j) then delete_job V (job_id j) w2 else w2)"

section \<open>process\<close>

definition after_ocr :: "('o, 'm) services \<Rightarrow> string \<Rightarrow> job \<Rightarrow> ('o, 'm) world \<Rightarrow> ('o, 'm) world" where
  "after_ocr V base_url j w =
     (let (sent, w1) = (if Email (caps j) then deliver V base_url j w else (True, w))
      in if \<not> sent then fail_job V base_url j reason_send_failed w1
         else if Web (caps j)
         then snd (store_call V (set_status (job_id j) StatusReady [] (sv_now V (pw_tick w1))) w1)
         else delete_job V (job_id j) w1)"

definition process :: "('o, 'm) services \<Rightarrow> string \<Rightarrow> job \<Rightarrow> ('o, 'm) world \<Rightarrow> ('o, 'm) world" where
  "process V base_url j w =
     (case store_call V (set_status (job_id j) StatusProcessing [] (sv_now V (pw_tick w))) w of
        (Inl e, w1) \<Rightarrow> w1
      | (Inr u, w1) \<Rightarrow>
          if OCR (caps j)
          then (case run_ocr V (job_id j) (documents j) w1 of
                  (None, w2) \<Rightarrow>
                    fail_job V base_url j (if Web (caps j) then reason_ocr_failed_web else reason_ocr_failed) w2
                | (Some ds, w2) \<Rightarrow> after_ocr V base_url (j\<lparr>documents := ds\<rparr>) w2)
          else after_ocr V base_url j w1)"

section \<open>Run\<close>

text \<open>One turn of a worker's loop: \<open>None\<close> is a worker that stops or waits, otherwise the job it processed.\<close>

definition worker_turn ::
  "('o, 'm) services \<Rightarrow> bool \<Rightarrow> pipeline \<Rightarrow> ('o, 'm) world \<Rightarrow> job option \<times> pipeline \<times> ('o, 'm) world" where
  "worker_turn V ctx_done p w =
     (case take_job ctx_done p of
        (None, p') \<Rightarrow> (None, p', w)
      | (Some j, p') \<Rightarrow> (Some j, p', process V (pl_base_url p') j w))"

end
