(* ===== verification/Pipeline_Properties.thy ===== *)
theory Pipeline_Properties
  imports Pipeline Store_Properties
begin

text \<open>
  What a worker does for a job: which mails it sends, that an OCR job never goes out unprocessed, that it
  leaves the store's books in order, and where the job ends up.
\<close>

section \<open>Which mails are sent\<close>

lemma store_call_sent [simp]: "pw_sent (snd (store_call V f w)) = pw_sent w"
  by (simp add: store_call_def split: prod.splits)

lemma store_call_sent': "store_call V f w = (r, w1) \<Longrightarrow> pw_sent w1 = pw_sent w"
  using store_call_sent [of V f w] by simp

text \<open>What one document of \<open>run_ocr\<close> does, ending by ending.\<close>

lemma run_ocr_cons_cases:
  assumes "run_ocr V jid (d # ds) w = (r, w')"
  obtains (gone) "r = None" "w' = w"
  | (uncreated) e where
      "store_call V (create_file jid ''ocr'' (sv_temp V (pw_tick w)) (sv_mid V (pw_tick w))) w = (Inl e, w')" "r = None"
  | (unread) f w1 content ok out o' where
      "store_call V (create_file jid ''ocr'' (sv_temp V (pw_tick w)) (sv_mid V (pw_tick w))) w = (Inr f, w1)"
      "sv_ocr V content (pw_ocr w1) = ((ok, out), o')"
      "r = None" "w' = w1\<lparr>pw_ocr := o', pw_files := (pw_files w1)(f := Some out)\<rparr>"
  | (unplaced) f w1 content out o' w2 rr where
      "store_call V (create_file jid ''ocr'' (sv_temp V (pw_tick w)) (sv_mid V (pw_tick w))) w = (Inr f, w1)"
      "pw_files w (doc_path d) = Some content" "sv_ocr V content (pw_ocr w1) = ((True, out), o')"
      "w2 = w1\<lparr>pw_ocr := o', pw_files := (pw_files w1)(f := Some out)\<rparr>"
      "store_call V (replace_document jid (doc_id d) f True (lstat_of (pw_files w2))) w2 = (rr, w')" "r = None"
  | (placed) f w1 content out o' w2 u w3 c rs where
      "store_call V (create_file jid ''ocr'' (sv_temp V (pw_tick w)) (sv_mid V (pw_tick w))) w = (Inr f, w1)"
      "pw_files w (doc_path d) = Some content" "sv_ocr V content (pw_ocr w1) = ((True, out), o')"
      "w2 = w1\<lparr>pw_ocr := o', pw_files := (pw_files w1)(f := Some out)\<rparr>"
      "store_call V (replace_document jid (doc_id d) f True (lstat_of (pw_files w2))) w2 = (Inr u, w3)"
      "pw_files w3 f = Some c" "run_ocr V jid ds w3 = (rs, w')"
      "r = map_option (\<lambda>ds'. d\<lparr>doc_path := f, doc_size := int (length c), ocr_applied := True\<rparr> # ds') rs"
proof (cases "pw_files w (doc_path d)")
  case None
  with assms gone show thesis by simp
next
  case (Some content)
  obtain cf w1 where c: "store_call V (create_file jid ''ocr'' (sv_temp V (pw_tick w)) (sv_mid V (pw_tick w))) w = (cf, w1)"
    by (cases "store_call V (create_file jid ''ocr'' (sv_temp V (pw_tick w)) (sv_mid V (pw_tick w))) w")
  show thesis
  proof (cases cf)
    case (Inl e)
    with assms Some c uncreated show thesis by simp
  next
    case (Inr f)
    obtain ok out o' where o: "sv_ocr V content (pw_ocr w1) = ((ok, out), o')" by (metis prod.collapse)
    define w2 where "w2 = w1\<lparr>pw_ocr := o', pw_files := (pw_files w1)(f := Some out)\<rparr>"
    obtain rr w3 where p: "store_call V (replace_document jid (doc_id d) f True (lstat_of (pw_files w2))) w2 = (rr, w3)"
      by (cases "store_call V (replace_document jid (doc_id d) f True (lstat_of (pw_files w2))) w2")
    obtain rs w4 where l: "run_ocr V jid ds w3 = (rs, w4)" by (cases "run_ocr V jid ds w3")
    have eq: "run_ocr V jid (d # ds) w =
       (if \<not> ok \<or> \<not> sv_close V f then (None, w2)
        else (case rr of Inl e \<Rightarrow> (None, w3)
              | Inr u \<Rightarrow> (case pw_files w3 f of None \<Rightarrow> (None, w3)
                  | Some c \<Rightarrow> (case rs of None \<Rightarrow> (None, w4)
                       | Some ds' \<Rightarrow> (Some (d\<lparr>doc_path := f, doc_size := int (length c), ocr_applied := True\<rparr> # ds'), w4)))))"
      using Some c Inr o p l unfolding w2_def by (cases rr) (auto simp: Let_def split: option.splits)
    show thesis
    proof (cases "\<not> ok \<or> \<not> sv_close V f")
      case True
      with assms eq have "r = None" "w' = w2" by auto
      with unread c Inr o w2_def show thesis by blast
    next
      case False
      show thesis
      proof (cases rr)
        case (Inl e)
        with False assms eq have "r = None" "w' = w3" by auto
        show thesis
          by (rule unplaced [OF _ Some _ w2_def]) (use \<open>cf = Inr f\<close> c o p False \<open>r = None\<close> \<open>w' = w3\<close> in auto)
      next
        case r: (Inr u)
        note content = Some
        show thesis
        proof (cases "pw_files w3 f")
          case None
          with False assms eq r have "r = None" "w' = w3" by auto
          show thesis
            by (rule unplaced [OF _ Some _ w2_def]) (use Inr c o p False \<open>r = None\<close> \<open>w' = w3\<close> in auto)
        next
          case (Some c')
          with False assms eq r have
            "r = map_option (\<lambda>ds'. d\<lparr>doc_path := f, doc_size := int (length c'), ocr_applied := True\<rparr> # ds') rs" "w' = w4"
            by (auto split: option.splits)
          with placed [OF _ \<open>pw_files w (doc_path d) = Some content\<close> _ w2_def _ Some] c Inr o p r l False
          show thesis by auto
        qed
      qed
    qed
  qed
qed

text \<open>What every step of \<open>run_ocr\<close> keeps, all of it keeps.\<close>

lemma run_ocr_invariant:
  assumes start: "P w"
    and create: "\<And>w. P w \<Longrightarrow> P (snd (store_call V (create_file jid ''ocr'' (sv_temp V (pw_tick w)) (sv_mid V (pw_tick w))) w))"
    and recognise: "\<And>w x y. P w \<Longrightarrow> P (w\<lparr>pw_ocr := x, pw_files := y\<rparr>)"
    and place: "\<And>w i f l. P w \<Longrightarrow> P (snd (store_call V (replace_document jid i f True (lstat_of l)) w))"
    and run: "run_ocr V jid ds w = (r, w')"
  shows "P w'"
  using run start
proof (induction ds arbitrary: w r)
  case (Cons d ds)
  from Cons.prems(1) show ?case
  proof (cases rule: run_ocr_cons_cases)
    case gone
    with Cons.prems(2) show ?thesis by simp
  next
    case uncreated
    with create [OF Cons.prems(2)] show ?thesis by simp
  next
    case (unread f w1 content ok out o')
    with create [OF Cons.prems(2)] recognise show ?thesis by simp
  next
    case (unplaced f w1 content out o' w2 rr)
    have "P w2" using create [OF Cons.prems(2)] recognise unplaced by simp
    from place [OF this, of "doc_id d" f "pw_files w2"] unplaced show ?thesis by simp
  next
    case (placed f w1 content out o' w2 u w3 c rs)
    have "P w2" using create [OF Cons.prems(2)] recognise placed by simp
    from place [OF this, of "doc_id d" f "pw_files w2"] placed have "P w3" by simp
    with Cons.IH placed show ?thesis by blast
  qed
qed simp

lemma run_ocr_sent:
  assumes "run_ocr V jid ds w = (r, w')"
  shows "pw_sent w' = pw_sent w"
  by (rule run_ocr_invariant [where P = "\<lambda>v. pw_sent v = pw_sent w", OF _ _ _ _ assms]) simp_all

lemma send_mail_sent: "send_mail V c m w = (r, w1) \<Longrightarrow> pw_sent w1 = pw_sent w @ [(c, m, r)] \<and> pw_store w1 = pw_store w"
  by (auto simp: send_mail_def split: prod.splits)

lemma notice_sent: "\<exists>r. pw_sent (notice V url j reason w) = pw_sent w @ [(NoticeContext, notice_message url j reason, r)]"
proof -
  obtain r w1 where "send_mail V NoticeContext (notice_message url j reason) w = (r, w1)"
    by (cases "send_mail V NoticeContext (notice_message url j reason) w")
  with send_mail_sent [OF this] show ?thesis by (auto simp: notice_def)
qed

lemma fail_job_sent:
  "\<exists>l. pw_sent (fail_job V url j reason w) = pw_sent w @ l \<and>
       (if Email (caps j) then \<exists>r. l = [(NoticeContext, notice_message url j reason, r)] else l = [])"
proof -
  let ?w1 = "snd (store_call V (set_status (job_id j) StatusFailed reason (sv_now V (pw_tick w))) w)"
  have d: "pw_sent (delete_job V i w') = pw_sent w'" for i w' by (simp add: delete_job_def)
  show ?thesis
    using notice_sent [of V url j reason ?w1] d by (auto simp: fail_job_def Let_def)
qed

text \<open>Everything the mailer may be asked to send for one job, in order, with its answers.\<close>

definition mail_history :: "('o, 'm) services \<Rightarrow> string \<Rightarrow> job \<Rightarrow> (send_context \<times> message \<times> mail_result) list \<Rightarrow> bool" where
  "mail_history V url j l \<longleftrightarrow>
     l = [(JobContext, scan_message V j, MailOk)] \<or>
     (\<exists>r. l = [(JobContext, scan_message V j, MailTooLarge),
               (NoticeContext, notice_message url j (reason_too_large (doc_bytes (documents j))), r)]) \<or>
     (\<exists>r. l = [(JobContext, scan_message V j, MailFailed), (NoticeContext, notice_message url j reason_send_failed, r)])"

lemma after_ocr_sent:
  "\<exists>l. pw_sent (after_ocr V url j w) = pw_sent w @ l \<and> (if Email (caps j) then mail_history V url j l else l = [])"
proof (cases "Email (caps j)")
  case False
  then show ?thesis by (simp add: after_ocr_def delete_job_def)
next
  case True
  obtain r w1 where s: "send_mail V JobContext (scan_message V j) w = (r, w1)"
    by (cases "send_mail V JobContext (scan_message V j) w")
  note s1 = send_mail_sent [OF s]
  show ?thesis
  proof (cases r)
    case MailOk
    then show ?thesis using True s s1 by (simp add: after_ocr_def deliver_def delete_job_def mail_history_def)
  next
    case MailTooLarge
    obtain q where "pw_sent (notice V url j (reason_too_large (doc_bytes (documents j))) w1) =
        pw_sent w1 @ [(NoticeContext, notice_message url j (reason_too_large (doc_bytes (documents j))), q)]"
      using notice_sent by blast
    then show ?thesis using True s s1 MailTooLarge by (simp add: after_ocr_def deliver_def delete_job_def mail_history_def)
  next
    case MailFailed
    obtain l where l: "pw_sent (fail_job V url j reason_send_failed w1) = pw_sent w1 @ l"
      "\<exists>q. l = [(NoticeContext, notice_message url j reason_send_failed, q)]"
      using fail_job_sent [of V url j reason_send_failed w1] True by auto
    then show ?thesis using True s s1 MailFailed by (auto simp: after_ocr_def deliver_def mail_history_def)
  qed
qed

text \<open>What OCR leaves of a document: its identity and name, not its file.\<close>

definition ocr_of :: "document \<Rightarrow> document \<Rightarrow> bool" where
  "ocr_of d d' \<longleftrightarrow> doc_id d' = doc_id d \<and> display_name d' = display_name d \<and> ocr_applied d'"

lemma run_ocr_docs: "run_ocr V jid ds w = (Some ds', w') \<Longrightarrow> list_all2 ocr_of ds ds'"
proof (induction ds arbitrary: w ds')
  case (Cons d ds)
  from Cons.prems show ?case
  proof (cases rule: run_ocr_cons_cases)
    case (placed f w1 content out o' w2 u w3 c rs)
    then show ?thesis using Cons.IH [of w3] by (cases rs) (auto simp: ocr_of_def)
  qed simp_all
qed simp

lemma process_sent:
  "\<exists>l. pw_sent (process V url j w) = pw_sent w @ l \<and> list_all (\<lambda>(c, m, r). ms_to m = recipients j) l \<and>
     (if Email (caps j) \<and>
         \<not> is_Inl (fst (store_call V (set_status (job_id j) StatusProcessing [] (sv_now V (pw_tick w))) w))
      then (OCR (caps j) \<and> (\<exists>reason r. l = [(NoticeContext, notice_message url j reason, r)])) \<or>
           (\<exists>ds. mail_history V url (j\<lparr>documents := ds\<rparr>) l \<and>
              (if OCR (caps j) then list_all2 ocr_of (documents j) ds else ds = documents j))
      else l = [])"
proof -
  obtain r w1 where s: "store_call V (set_status (job_id j) StatusProcessing [] (sv_now V (pw_tick w))) w = (r, w1)"
    by (cases "store_call V (set_status (job_id j) StatusProcessing [] (sv_now V (pw_tick w))) w")
  note s1 = store_call_sent' [OF s]
  have to: "list_all (\<lambda>(c, m, r). ms_to m = recipients j) l" if "mail_history V url (j\<lparr>documents := ds\<rparr>) l" for l ds
    using that by (auto simp: mail_history_def scan_message_def notice_message_def)
  show ?thesis
  proof (cases r)
    case (Inl e)
    then show ?thesis using s s1 by (simp add: process_def)
  next
    case (Inr u)
    show ?thesis
    proof (cases "OCR (caps j)")
      case False
      obtain l where l: "pw_sent (after_ocr V url j w1) = pw_sent w1 @ l"
        "if Email (caps j) then mail_history V url j l else l = []" using after_ocr_sent by blast
      have "j\<lparr>documents := documents j\<rparr> = j" by simp
      with False Inr s s1 l to [of "documents j" l] show ?thesis
        by (intro exI [of _ l]) (auto simp: process_def intro!: exI [of _ "documents j"])
    next
      case True
      obtain od w2 where o: "run_ocr V (job_id j) (documents j) w1 = (od, w2)"
        by (cases "run_ocr V (job_id j) (documents j) w1")
      note s2 = run_ocr_sent [OF o]
      show ?thesis
      proof (cases od)
        case None
        let ?reason = "if Web (caps j) then reason_ocr_failed_web else reason_ocr_failed"
        obtain l where l: "pw_sent (fail_job V url j ?reason w2) = pw_sent w2 @ l"
          "if Email (caps j) then \<exists>r. l = [(NoticeContext, notice_message url j ?reason, r)] else l = []"
          using fail_job_sent by blast
        have p: "process V url j w = fail_job V url j ?reason w2" using True Inr s o None by (simp add: process_def)
        show ?thesis
          unfolding p using l s1 s2 s Inr True by (intro exI [of _ l]) (auto simp: notice_message_def)
      next
        case (Some ds)
        let ?j = "j\<lparr>documents := ds\<rparr>"
        obtain l where l: "pw_sent (after_ocr V url ?j w2) = pw_sent w2 @ l"
          "if Email (caps j) then mail_history V url ?j l else l = []" using after_ocr_sent [of V url ?j w2] by auto
        have "list_all2 ocr_of (documents j) ds" using run_ocr_docs o Some by blast
        moreover have "process V url j w = after_ocr V url ?j w2" using True Inr s o Some by (simp add: process_def)
        ultimately show ?thesis
          using l s1 s2 s Inr True to [of ds l] by (intro exI [of _ l]) auto
      qed
    qed
  qed
qed


section \<open>Where a job ends up\<close>

text \<open>The job is in the store and its worker has not finished it.\<close>

definition owned :: "string \<Rightarrow> store \<Rightarrow> bool" where
  "owned k s \<longleftrightarrow> (\<exists>r. map_of (jobs s) k = Some r \<and> status (rec_job r) \<in> {StatusPending, StatusProcessing})"

text \<open>Other goroutines keep the books in order and leave an unfinished job to its worker.\<close>

definition calm :: "('o, 'm) services \<Rightarrow> string \<Rightarrow> bool" where
  "calm V k \<longleftrightarrow> (\<forall>n s. budget_ok s \<longrightarrow>
     budget_ok (sv_env V n s) \<and> budget_ok (sv_mid V n s) \<and>
     (owned k s \<longrightarrow> owned k (sv_env V n s) \<and> owned k (sv_mid V n s)))"

definition working :: "string \<Rightarrow> ('o, 'm) world \<Rightarrow> bool" where
  "working k w \<longleftrightarrow> budget_ok (pw_store w) \<and> owned k (pw_store w)"

lemma calmD:
  assumes "calm V k" "budget_ok s"
  shows "budget_ok (sv_env V n s)" "budget_ok (sv_mid V n s)"
    "owned k s \<Longrightarrow> owned k (sv_env V n s)" "owned k s \<Longrightarrow> owned k (sv_mid V n s)"
  using assms by (auto simp: calm_def)

lemma owned_map_entry:
  "owned k s \<Longrightarrow> (\<And>r. status (rec_job (g r)) \<in> {status (rec_job r), StatusProcessing}) \<Longrightarrow>
   owned k (s\<lparr>jobs := AList.map_entry i g (jobs s)\<rparr>)"
proof -
  assume o: "owned k s" and g: "\<And>r. status (rec_job (g r)) \<in> {status (rec_job r), StatusProcessing}"
  then obtain r where "map_of (jobs s) k = Some r" "status (rec_job r) \<in> {StatusPending, StatusProcessing}"
    by (auto simp: owned_def)
  with g [of r] show ?thesis by (auto simp: owned_def map_of_map_entry')
qed

lemma store_call_calm:
  assumes c: "calm V k" and w: "working k w"
    and f: "\<And>s r t es. budget_ok s \<Longrightarrow> owned k s \<Longrightarrow> f s = (r, t, es) \<Longrightarrow> budget_ok t \<and> owned k t"
  shows "working k (snd (store_call V f w))"
proof -
  let ?s = "sv_env V (pw_tick w) (pw_store w)"
  obtain r t es where r: "f ?s = (r, t, es)" by (cases "f ?s")
  have "budget_ok ?s" "owned k ?s" using calmD [OF c] w by (auto simp: working_def)
  from f [OF this r] r show ?thesis by (simp add: store_call_def working_def)
qed

lemma create_file_calm:
  assumes c: "calm V k" and b: "budget_ok s" and o: "owned k s" and run: "create_file k pre mk (sv_mid V n) s = (r, t, es)"
  shows "budget_ok t \<and> owned k t"
proof -
  let ?m = "sv_mid V n s"
  have m: "budget_ok ?m" "owned k ?m" using calmD [OF c b] o by auto
  have "t = s \<or> t = ?m \<or> (\<exists>f. create_file_register k f ?m = (r, t, es))"
    using run by (auto simp: create_file_def split: sum.splits)
  moreover have "budget_ok t \<and> owned k t" if reg: "create_file_register k f ?m = (r, t, es)" for f
  proof
    show "budget_ok t" by (rule create_file_register_budget [OF m(1) reg])
    show "owned k t" using reg m(2)
      by (cases rule: create_file_register_cases) (auto intro: owned_map_entry)
  qed
  ultimately show ?thesis using b o m by blast
qed

lemma replace_document_calm:
  assumes b: "budget_ok s" and o: "owned k s" and run: "replace_document k i f True (lstat_of fs) s = (r, t, es)"
  shows "budget_ok t \<and> owned k t"
proof
  show "budget_ok t"
    by (rule replace_document_budget [OF b run]) (auto simp: lstat_of_def)
  show "owned k t" using run
  proof (cases rule: replace_document_cases)
    case recharged
    with o show ?thesis by (auto simp: owned_def)
  qed (use o in \<open>auto simp: update_job_def intro: owned_map_entry\<close>)
qed

lemma run_ocr_working:
  assumes "calm V k" "working k w" "run_ocr V k ds w = (r, w')"
  shows "working k w'"
proof (rule run_ocr_invariant [where P = "working k", OF assms(2) _ _ _ assms(3)])
  fix v :: "('a, 'b) world"
  show "working k (snd (store_call V (create_file k ''ocr'' (sv_temp V (pw_tick v)) (sv_mid V (pw_tick v))) v))"
    if "working k v"
    using create_file_calm [OF assms(1)] by (intro store_call_calm [OF assms(1) that]) blast
  show "working k (snd (store_call V (replace_document k i f True (lstat_of l)) v))" if "working k v" for i f l
    using replace_document_calm by (intro store_call_calm [OF assms(1) that]) blast
qed (simp add: working_def)

text \<open>The final calls: a status that ends the job, and its deletion.\<close>

definition settled :: "string \<Rightarrow> bool \<Rightarrow> store \<Rightarrow> bool" where
  "settled k web t \<longleftrightarrow> budget_ok t \<and>
     (case map_of (jobs t) k of
        None \<Rightarrow> \<not> web
      | Some r \<Rightarrow> web \<and> status (rec_job r) \<in> {StatusReady, StatusFailed, StatusEvicted} \<and>
          (status (rec_job r) = StatusFailed \<longrightarrow> job_error (rec_job r) \<noteq> []))"

lemma set_final_settled:
  assumes b: "budget_ok s" and o: "owned k s" and st: "finished st" "st = StatusFailed \<Longrightarrow> err \<noteq> []"
    and run: "set_status k st err now s = (r, t, es)"
  shows "settled k True t"
proof -
  obtain r0 where r0: "map_of (jobs s) k = Some r0" "status (rec_job r0) \<noteq> StatusEvicted"
    "\<not> finished (status (rec_job r0))"
    using o by (auto simp: owned_def finished_def)
  have "budget_ok t" by (rule set_status_budget [OF b run]) (use r0 st in \<open>auto simp: forward_def finished_def\<close>)
  with set_status_final_record [OF budget_books [OF b] r0(1,2) st(1) run] st show ?thesis
    by (auto simp: settled_def settle_def finished_def)
qed

lemma delete_settled:
  assumes "budget_ok s" "delete k s = (r, t, es)"
  shows "settled k False t"
proof -
  have "distinct (map fst (jobs s))" using assms(1) by (simp add: budget_ok_def books_ok_def)
  with assms delete_budget [OF assms] show ?thesis
    by (auto simp: settled_def delete_def charge_delete AList.delete_conv' split: option.splits)
qed

lemma store_call_result:
  assumes c: "calm V k" and b: "budget_ok (pw_store w)"
  obtains s r t es where "budget_ok s" "owned k (pw_store w) \<Longrightarrow> owned k s" "f s = (r, t, es)"
    "store_call V f w = (r, snd (store_call V f w))" "pw_store (snd (store_call V f w)) = t"
proof -
  let ?s = "sv_env V (pw_tick w) (pw_store w)"
  obtain r t es where r: "f ?s = (r, t, es)" by (cases "f ?s")
  show thesis by (rule that [of ?s r t es]) (use calmD [OF c b] r in \<open>auto simp: store_call_def\<close>)
qed

lemma delete_job_settled: "calm V k \<Longrightarrow> budget_ok (pw_store w) \<Longrightarrow> settled k False (pw_store (delete_job V k w))"
  by (rule store_call_result [of V k w "delete k"]) (auto simp: delete_job_def delete_settled)

lemma notice_store [simp]: "pw_store (notice V url j reason w) = pw_store w"
  by (auto simp: notice_def send_mail_def split: prod.splits)

lemma fail_job_settled:
  assumes c: "calm V (job_id j)" and w: "working (job_id j) w" and reason: "reason \<noteq> []"
  shows "settled (job_id j) (Web (caps j)) (pw_store (fail_job V url j reason w))"
proof -
  let ?w1 = "snd (store_call V (set_status (job_id j) StatusFailed reason (sv_now V (pw_tick w))) w)"
  have b: "budget_ok (pw_store w)" "owned (job_id j) (pw_store w)" using w by (simp_all add: working_def)
  have s: "settled (job_id j) True (pw_store ?w1)"
    by (rule store_call_result [OF c b(1), of "set_status (job_id j) StatusFailed reason (sv_now V (pw_tick w))"])
       (use set_final_settled [of _ "job_id j" StatusFailed reason] b(2) reason in auto)
  then have "budget_ok (pw_store ?w1)" by (simp add: settled_def)
  with s delete_job_settled [OF c] show ?thesis
    by (auto simp: fail_job_def Let_def)
qed

lemma after_ocr_settled:
  assumes c: "calm V (job_id j)" and w: "working (job_id j) w"
  shows "settled (job_id j) (Web (caps j)) (pw_store (after_ocr V url j w))"
proof -
  obtain sent w1 where d: "(if Email (caps j) then deliver V url j w else (True, w)) = (sent, w1)"
    by (cases "if Email (caps j) then deliver V url j w else (True, w)")
  have "pw_store w1 = pw_store w"
    using d by (auto simp: deliver_def dest!: send_mail_sent split: if_splits prod.splits mail_result.splits)
  then have w1: "working (job_id j) w1" "budget_ok (pw_store w1)" "owned (job_id j) (pw_store w1)"
    using w by (simp_all add: working_def)
  have ready: "settled (job_id j) True (pw_store (snd (store_call V (set_status (job_id j) StatusReady [] now) w1)))" for now
    by (rule store_call_result [OF c w1(2), of "set_status (job_id j) StatusReady [] now"])
       (use set_final_settled [of _ "job_id j" StatusReady "[]"] w1(3) in auto)
  have "reason_send_failed \<noteq> []" by (simp add: reason_send_failed_def)
  with fail_job_settled [OF c w1(1)] ready delete_job_settled [OF c w1(2)] d show ?thesis
    by (auto simp: after_ocr_def)
qed

text \<open>C25: A worker always finishes the job it took, whatever OCR, the mailer and the disk answer, as long as
  other goroutines keep the books and leave an unfinished job alone: a job without web is gone from the store,
  a job with web is left ready or failed (or evicted by the room it needed) and a failed one carries a
  reason. No job stays pending or processing forever, and the byte budget holds afterwards.\<close>

theorem process_settles:
  assumes "calm V (job_id j)" "budget_ok (pw_store w)" "owned (job_id j) (pw_store w)"
  shows "settled (job_id j) (Web (caps j)) (pw_store (process V url j w))"
proof -
  let ?f = "set_status (job_id j) StatusProcessing [] (sv_now V (pw_tick w))"
  obtain s r t es w1 where s: "budget_ok s" "owned (job_id j) s" "?f s = (r, t, es)"
      "store_call V ?f w = (r, w1)" "pw_store w1 = t"
    by (rule store_call_result [OF assms(1,2), of ?f]) (use assms(3) in blast)
  obtain r0 where r0: "map_of (jobs s) (job_id j) = Some r0" "status (rec_job r0) \<in> {StatusPending, StatusProcessing}"
    using s(2) by (auto simp: owned_def)
  have "r = Inr ()" "t = update_job (job_id j) (\<lambda>j. j\<lparr>status := StatusProcessing, job_error := []\<rparr>) s"
    using s(3) set_status_other [OF r0(1), of StatusProcessing] r0(2) by (auto simp: finished_def)
  then have r: "store_call V ?f w = (Inr (), w1)" and "owned (job_id j) t"
    using s(2,4) by (auto simp: update_job_def intro: owned_map_entry)
  moreover have "budget_ok t"
    by (rule set_status_budget [OF s(1,3)]) (use r0 in \<open>auto simp: forward_def finished_def\<close>)
  ultimately have w1: "working (job_id j) w1" using s(5) by (simp add: working_def)
  show ?thesis
  proof (cases "OCR (caps j)")
    case False
    with r after_ocr_settled [OF assms(1) w1] show ?thesis by (simp add: process_def)
  next
    case True
    obtain od w2 where o: "run_ocr V (job_id j) (documents j) w1 = (od, w2)"
      by (cases "run_ocr V (job_id j) (documents j) w1")
    note w2 = run_ocr_working [OF assms(1) w1 o]
    have reasons: "reason_ocr_failed \<noteq> []" "reason_ocr_failed_web \<noteq> []"
      by (simp_all add: reason_ocr_failed_def reason_ocr_failed_web_def)
    show ?thesis
    proof (cases od)
      case None
      with True r o fail_job_settled [OF assms(1) w2] reasons show ?thesis by (simp add: process_def)
    next
      case (Some ds)
      with True r o after_ocr_settled [of V "j\<lparr>documents := ds\<rparr>" w2] assms(1) w2 show ?thesis
        by (simp add: process_def)
    qed
  qed
qed

definition ex_services :: "(unit, unit) services" where
  "ex_services = \<lparr>sv_now = (\<lambda>_. 7), sv_env = (\<lambda>_ s. s), sv_mid = (\<lambda>_ s. s), sv_temp = (\<lambda>_ _ _. None),
     sv_close = (\<lambda>_. True), sv_date = (\<lambda>_. []), sv_ocr = (\<lambda>_ o'. ((False, []), o')),
     sv_send = (\<lambda>_ _ m. (MailFailed, m))\<rparr>"

definition ex_world :: "(unit, unit) world" where
  "ex_world = \<lparr>pw_store = sys_store (ex_committed [ex_dir @ ''/f'']), pw_files = (\<lambda>_. None), pw_ocr = (), pw_mail = (),
     pw_tick = 0, pw_sent = []\<rparr>"

theorem process_settles_witness:
  "settled ''J'' True (pw_store (process ex_services [] ex_committed_job ex_world))"
proof -
  have c: "calm ex_services (job_id ex_committed_job)" by (simp add: calm_def ex_services_def)
  have b: "budget_ok (pw_store ex_world)"
    using store_budget.reachable_inv [OF ex_committed_reachable(1)] by (simp add: ex_world_def)
  have o: "owned (job_id ex_committed_job) (pw_store ex_world)"
    by (simp add: owned_def ex_world_def ex_committed_def ex_committed_job_def)
  have "job_id ex_committed_job = ''J''" "Web (caps ex_committed_job)" by (simp_all add: ex_committed_job_def)
  with process_settles [OF c b o, of "[]"] show ?thesis by simp
qed

end
