(* ===== verification/Smtp_Session.thy ===== *)
theory Smtp_Session
  imports Store_Safety Mimescan Config_Address "HOL-Library.Word"
begin

text \<open>
  \<open>internal/smtpin\<close>: one SMTP session over the job store. Every stretch of code that holds the session's
  mutex is one function; \<open>Data\<close> is split into the two it takes, with the extraction in between, because
  the command loop may reset the session while a message is still being read. The stagings are the heap
  of \<open>store_system\<close>: the session and a running \<open>Data\<close> call hold the same one by its id.
\<close>

section \<open>The listener and what it hands jobs to\<close>

text \<open>\<open>Handler\<close>: \<open>Enqueue\<close> takes the job or refuses it, and refusing changes nothing that is pending.\<close>

locale job_handler =
  fixes enq :: "job \<Rightarrow> 'q \<Rightarrow> bool \<times> 'q"
    and pending :: "'q \<Rightarrow> job list"
  assumes enq_accepts: "enq j q = (True, q') \<Longrightarrow> pending q' = pending q @ [j]"
    and enq_refuses: "enq j q = (False, q') \<Longrightarrow> pending q' = pending q"

text \<open>\<open>New\<close>: the settings of the SMTP server around the sessions.\<close>

record smtp_server =
  srv_addr :: string
  srv_max_message_bytes :: int
  srv_max_recipients :: nat
  srv_allow_insecure_auth :: bool
  srv_read_timeout :: duration
  srv_write_timeout :: duration

definition new_server :: "config \<Rightarrow> smtp_server" where
  "new_server c =
     \<lparr>srv_addr = smtp_addr c, srv_max_message_bytes = max_message_bytes (cfg_limits c), srv_max_recipients = 16,
      srv_allow_insecure_auth = True, srv_read_timeout = 5 * 60 * 1000000000,
      srv_write_timeout = 5 * 60 * 1000000000\<rparr>"

section \<open>Replies\<close>

record smtp_error =
  smtp_code :: nat
  enhanced_code :: "nat \<times> nat \<times> nat"
  smtp_message :: string

definition err_unknown_sender :: smtp_error where
  "err_unknown_sender = \<lparr>smtp_code = 550, enhanced_code = (5, 7, 1), smtp_message = ''sender not recognized''\<rparr>"

definition err_recipient :: smtp_error where
  "err_recipient = \<lparr>smtp_code = 550, enhanced_code = (5, 7, 1), smtp_message = ''recipient not accepted''\<rparr>"

definition err_no_pdf :: smtp_error where
  "err_no_pdf = \<lparr>smtp_code = 550, enhanced_code = (5, 6, 0), smtp_message = ''message carries no usable PDF attachment''\<rparr>"

definition err_too_complex :: smtp_error where
  "err_too_complex = \<lparr>smtp_code = 552, enhanced_code = (5, 3, 4), smtp_message = ''message exceeds structural limits''\<rparr>"

definition err_no_capacity :: smtp_error where
  "err_no_capacity = \<lparr>smtp_code = 451, enhanced_code = (4, 3, 1),
                      smtp_message = ''no capacity for another job, please retry later''\<rparr>"

definition err_aborted :: smtp_error where
  "err_aborted = \<lparr>smtp_code = 451, enhanced_code = (4, 3, 0),
                  smtp_message = ''transaction was reset before the message was accepted''\<rparr>"

definition err_internal :: smtp_error where
  "err_internal = \<lparr>smtp_code = 451, enhanced_code = (4, 3, 0), smtp_message = ''temporary failure, please retry later''\<rparr>"

text \<open>The two replies of the SMTP library that the code returns itself, as that library defines them.\<close>

datatype mail_error = AuthRequired | AuthFailed | AuthUnsupported | Reply smtp_error

section \<open>The session\<close>

record session =
  ses_authenticated :: bool
  ses_generation :: "64 word"
  ses_staging :: "string option"
  ses_profile :: string
  ses_caps :: capabilities
  ses_recipients :: "string list"

definition new_session :: session where
  "new_session = \<lparr>ses_authenticated = False, ses_generation = 0, ses_staging = None, ses_profile = [],
                  ses_caps = no_caps, ses_recipients = []\<rparr>"

text \<open>\<open>NewSession\<close>: whether the session also offers AUTH.\<close>

definition offers_auth :: "config \<Rightarrow> bool" where
  "offers_auth c = (\<not> smtp_allow_anonymous c)"

definition abort_staging :: "string \<Rightarrow> store_system \<Rightarrow> store_system \<times> effect list" where
  "abort_staging i S =
     (case map_of (sys_stagings S) i of
        None \<Rightarrow> (S, [])
      | Some g \<Rightarrow>
          let (g', t, e) = abort g (sys_store S)
          in (S\<lparr>sys_store := t, sys_stagings := AList.update i g' (sys_stagings S)\<rparr>, e))"

definition reset_session :: "session \<Rightarrow> session" where
  "reset_session s =
     s\<lparr>ses_staging := None, ses_generation := ses_generation s + 1, ses_profile := [],
       ses_caps := no_caps, ses_recipients := []\<rparr>"

definition reset :: "session \<Rightarrow> store_system \<Rightarrow> session \<times> store_system \<times> effect list" where
  "reset s S =
     (case ses_staging s of
        None \<Rightarrow> (reset_session s, S, [])
      | Some i \<Rightarrow> let (T, e) = abort_staging i S in (reset_session s, T, e))"

definition logout :: "session \<Rightarrow> store_system \<Rightarrow> session \<times> store_system \<times> effect list" where
  "logout s S = reset s S"

definition mail ::
  "(rune \<Rightarrow> rune) \<Rightarrow> config \<Rightarrow> string \<Rightarrow> session \<Rightarrow> store_system \<Rightarrow>
   mail_error option \<times> session \<times> store_system \<times> effect list" where
  "mail low c addr s S =
     (let (s1, T, e) = reset s S in
      if \<not> smtp_allow_anonymous c \<and> \<not> ses_authenticated s1 then (Some AuthRequired, s1, T, e)
      else (case profile low c addr of
              None \<Rightarrow> (Some (Reply err_unknown_sender), s1, T, e)
            | Some cp \<Rightarrow>
                (None, s1\<lparr>ses_profile := normalize_address low addr, ses_caps := cp\<rparr>, T, e)))"

definition rcpt :: "(rune \<Rightarrow> rune) \<Rightarrow> config \<Rightarrow> string \<Rightarrow> session \<Rightarrow> mail_error option \<times> session" where
  "rcpt low c addr s =
     (let canon = normalize_address low addr in
      if canon = [] \<or> \<not> recipient_allowed low c canon then (Some (Reply err_recipient), s)
      else (None, if canon \<in> set (ses_recipients s) then s
                  else s\<lparr>ses_recipients := ses_recipients s @ [canon]\<rparr>))"

section \<open>Data\<close>

text \<open>What a running \<open>Data\<close> call took with it when it let go of the lock.\<close>

record transaction =
  tx_staging :: string
  tx_generation :: "64 word"
  tx_profile :: string
  tx_caps :: capabilities
  tx_recipients :: "string list"

definition data_begin ::
  "config \<Rightarrow> string option \<Rightarrow> time \<Rightarrow> (path \<Rightarrow> bool) \<Rightarrow> (store \<Rightarrow> store) \<Rightarrow> session \<Rightarrow> store_system \<Rightarrow>
   (mail_error + transaction) \<times> session \<times> store_system \<times> effect list" where
  "data_begin c idr now mk env s S =
     (case reserve (max_message_bytes (cfg_limits c)) idr now mk env (sys_store S) of
        (Inl err, t, e) \<Rightarrow> (Inl (Reply err_no_capacity), s, S\<lparr>sys_store := t\<rparr>, e)
      | (Inr g, t, e) \<Rightarrow>
          (Inr \<lparr>tx_staging = stg_id g, tx_generation = ses_generation s, tx_profile = ses_profile s,
                tx_caps = ses_caps s, tx_recipients = [] @ ses_recipients s\<rparr>,
           s\<lparr>ses_staging := Some (stg_id g)\<rparr>,
           S\<lparr>sys_store := t, sys_stagings := AList.update (stg_id g) g (sys_stagings S)\<rparr>, e))"

text \<open>
  A failure while the message was read: an error of the scan, or one of the connection, which may carry
  a reply of its own (message too large, line too long).
\<close>

datatype data_error = ExtractError mime_error | ReadError "smtp_error option"

definition extract_error :: "data_error \<Rightarrow> smtp_error" where
  "extract_error err =
     (case err of
        ReadError (Some se) \<Rightarrow> se
      | ExtractError ErrTooComplex \<Rightarrow> err_too_complex
      | ExtractError ErrStorage \<Rightarrow> err_internal
      | _ \<Rightarrow> err_no_pdf)"

text \<open>
  The outcome of reading: \<open>seen\<close> is what \<open>errReader\<close> recorded during the scan, \<open>rest\<close> what it meets when
  the remainder is drained, which only happens when the scan succeeded or found nothing attached.
\<close>

definition read_outcome ::
  "mime_error + scan_result \<Rightarrow> smtp_error option option \<Rightarrow> smtp_error option option \<Rightarrow> data_error + scan_result" where
  "read_outcome ext seen rest =
     (let drained = (case ext of Inr _ \<Rightarrow> True | Inl err \<Rightarrow> err = ErrNoAttachments);
          src_err = (case seen of Some e \<Rightarrow> Some e | None \<Rightarrow> if drained then rest else None)
      in case src_err of
           Some e \<Rightarrow> Inl (ReadError e)
         | None \<Rightarrow> (case ext of Inl err \<Rightarrow> Inl (ExtractError err) | Inr r \<Rightarrow> Inr r))"

definition job_caps :: "capabilities \<Rightarrow> job_capabilities" where
  "job_caps c = \<lparr>Email = cap_email c, Web = cap_web c, OCR = cap_ocr c\<rparr>"

definition tx_job :: "transaction \<Rightarrow> scan_result \<Rightarrow> new_job" where
  "tx_job x r =
     \<lparr>nj_profile = tx_profile x, nj_caps = job_caps (tx_caps x), nj_subject = sr_subject r,
      nj_recipients = tx_recipients x,
      nj_documents = map (\<lambda>p. \<lparr>nd_display_name = pdf_name p, nd_path = pdf_path p\<rparr>) (sr_pdfs r)\<rparr>"

text \<open>What the random source, the clock and \<open>Lstat\<close> answer during the commit.\<close>

record commit_env =
  ce_lstat :: "path \<Rightarrow> fstat option"
  ce_ids :: "nat \<Rightarrow> string option"
  ce_now :: time

text \<open>
  The hand-over under the lock. \<open>enq\<close> is the handler's \<open>Enqueue\<close> on the handler's own state; the last
  component of the result is the job it accepted, if any.
\<close>

definition data_end ::
  "(rune \<Rightarrow> rune) \<Rightarrow> (rune \<Rightarrow> bool) \<Rightarrow> (job \<Rightarrow> 'q \<Rightarrow> bool \<times> 'q) \<Rightarrow> transaction \<Rightarrow> data_error + scan_result \<Rightarrow>
   commit_env \<Rightarrow> session \<Rightarrow> store_system \<Rightarrow> 'q \<Rightarrow>
   smtp_error option \<times> session \<times> store_system \<times> 'q \<times> effect list \<times> job option" where
  "data_end low pr enq x outcome ce s0 S q =
     (let s = s0\<lparr>ses_staging := None\<rparr>;
          (A, ea) = abort_staging (tx_staging x) S
      in if ses_generation s \<noteq> tx_generation x then (Some err_aborted, s, A, q, ea, None)
         else (case outcome of
           Inl (ExtractError ErrNoAttachments) \<Rightarrow> (None, s, A, q, ea, None)
         | Inl err \<Rightarrow> (Some (extract_error err), s, A, q, ea, None)
         | Inr r \<Rightarrow>
             (case map_of (sys_stagings S) (tx_staging x) of
                None \<Rightarrow> (Some err_internal, s, S, q, [], None)
              | Some g \<Rightarrow>
                  (case commit low pr (ce_lstat ce) (ce_ids ce) (ce_now ce) (tx_job x r) g (sys_store S) of
                     (Inl err, g', t, e) \<Rightarrow>
                       let (B, eb) = abort_staging (tx_staging x)
                             (S\<lparr>sys_store := t, sys_stagings := AList.update (tx_staging x) g' (sys_stagings S)\<rparr>)
                       in (Some err_internal, s, B, q, e @ eb, None)
                   | (Inr j, g', t, e) \<Rightarrow>
                       let B = S\<lparr>sys_store := t, sys_stagings := AList.update (tx_staging x) g' (sys_stagings S)\<rparr>;
                           (ok, q') = enq j q
                       in if \<not> ok
                          then (case delete (job_id j) t of
                                  (_, t', ed) \<Rightarrow> (Some err_internal, s, B\<lparr>sys_store := t'\<rparr>, q', e @ ed, None))
                          else (None, s, B, q', e, Some j)))))"

section \<open>Authentication\<close>

definition authenticate :: "config \<Rightarrow> string \<Rightarrow> string \<Rightarrow> session \<Rightarrow> mail_error option \<times> session" where
  "authenticate c user pass s =
     (let user_ok = (user = smtp_username c); pass_ok = (pass = smtp_password c) in
      if \<not> user_ok \<or> \<not> pass_ok then (Some AuthFailed, s)
      else (None, s\<lparr>ses_authenticated := True\<rparr>))"

datatype auth_mechanism = PlainServer | LoginServer

definition auth_mechanisms :: "string list" where
  "auth_mechanisms = [''PLAIN'', ''LOGIN'']"

definition auth_server :: "string \<Rightarrow> auth_mechanism option" where
  "auth_server mech = (if mech = ''PLAIN'' then Some PlainServer else if mech = ''LOGIN'' then Some LoginServer else None)"

record login_server =
  ls_step :: nat
  ls_username :: string

text \<open>
  \<open>loginServer.Next\<close>: a missing response is \<open>None\<close>. The result is the challenge, whether the exchange is
  done, and the credentials handed to \<open>authenticate\<close>, whose answer is then the error.
\<close>

definition login_next ::
  "string option \<Rightarrow> login_server \<Rightarrow> string option \<times> bool \<times> (string \<times> string) option \<times> login_server" where
  "login_next response l =
     (let text = (case response of None \<Rightarrow> [] | Some r \<Rightarrow> r) in
      if ls_step l = 0 then
        (if response = None then (Some ''Username:'', False, None, l\<lparr>ls_step := 1\<rparr>)
         else (Some ''Password:'', False, None, l\<lparr>ls_username := text, ls_step := 2\<rparr>))
      else if ls_step l = 1 then (Some ''Password:'', False, None, l\<lparr>ls_username := text, ls_step := 2\<rparr>)
      else if ls_step l = 2 then (None, True, Some (ls_username l, text), l)
      else (None, False, None, l))"

end
