(* ===== verification/Smtp_Properties.thy ===== *)
theory Smtp_Properties
  imports Smtp_Session Pipeline Store_Properties
begin

text \<open>
  What the SMTP listener promises: a message is either handed over completely and exactly once or leaves
  nothing behind, and no job is ever accepted for a sender or a recipient the configuration does not allow.
\<close>

section \<open>The endings of a Data call\<close>

lemma data_end_cases:
  assumes "data_end low pr enq x oc ce s S q = (reply, s', T, q', e, acc)"
  obtains (dropped) "reply = None \<longleftrightarrow> ses_generation s = tx_generation x \<and> oc = Inl (ExtractError ErrNoAttachments)"
      "ses_generation s \<noteq> tx_generation x \<longrightarrow> reply = Some err_aborted"
      "T = fst (abort_staging (tx_staging x) S)" "q' = q" "acc = None"
  | (refused) r g j g' t e1 t' ed where "oc = Inr r" "map_of (sys_stagings S) (tx_staging x) = Some g"
      "ses_generation s = tx_generation x"
      "commit low pr (ce_lstat ce) (ce_ids ce) (ce_now ce) (tx_job x r) g (sys_store S) = (Inr j, g', t, e1)"
      "enq j q = (False, q')" "delete (job_id j) t = (fst (delete (job_id j) t), t', ed)"
      "T = S\<lparr>sys_store := t', sys_stagings := AList.update (tx_staging x) g' (sys_stagings S)\<rparr>"
      "reply = Some err_internal" "acc = None"
  | (accepted) r g j g' t e1 where "oc = Inr r" "map_of (sys_stagings S) (tx_staging x) = Some g"
      "ses_generation s = tx_generation x"
      "commit low pr (ce_lstat ce) (ce_ids ce) (ce_now ce) (tx_job x r) g (sys_store S) = (Inr j, g', t, e1)"
      "enq j q = (True, q')"
      "T = S\<lparr>sys_store := t, sys_stagings := AList.update (tx_staging x) g' (sys_stagings S)\<rparr>"
      "reply = None" "acc = Some j"
proof -
  obtain A ea where ab: "abort_staging (tx_staging x) S = (A, ea)" by (cases "abort_staging (tx_staging x) S")
  show thesis
  proof (cases "ses_generation s = tx_generation x")
    case False
    with assms ab show thesis by (intro dropped) (auto simp: data_end_def Let_def)
  next
    case gen: True
    show thesis
    proof (cases oc)
      case (Inl err)
      then show thesis
      proof (cases "err = ExtractError ErrNoAttachments")
        case True
        with Inl gen assms ab show thesis by (intro dropped) (auto simp: data_end_def Let_def)
      next
        case False
        with Inl gen assms ab have "reply = Some (extract_error err)" "T = A" "q' = q" "acc = None"
          by (auto simp: data_end_def Let_def split: data_error.splits mime_error.splits)
        with gen ab Inl False show thesis by (intro dropped) auto
      qed
    next
      case (Inr r)
      show thesis
      proof (cases "map_of (sys_stagings S) (tx_staging x)")
        case None
        with Inr gen assms ab show thesis by (intro dropped) (auto simp: data_end_def abort_staging_def Let_def)
      next
        case (Some g)
        obtain res g' t e1 where c: "commit low pr (ce_lstat ce) (ce_ids ce) (ce_now ce) (tx_job x r) g (sys_store S) = (res, g', t, e1)"
          by (metis prod_cases4)
        show thesis
        proof (cases res)
          case (Inl err)
          from c [unfolded this] have "g' = g" "t = sys_store S" by (cases rule: commit_cases; simp)+
          moreover have "S\<lparr>sys_store := sys_store S, sys_stagings := AList.update (tx_staging x) g (sys_stagings S)\<rparr> = S"
            using Some by (simp add: AList.update_triv)
          ultimately show thesis
            using Inl Inr Some gen assms ab c by (intro dropped) (auto simp: data_end_def Let_def)
        next
          case j: (Inr j)
          obtain ok q1 where q: "enq j q = (ok, q1)" by (cases "enq j q")
          obtain dr t' ed where d: "delete (job_id j) t = (dr, t', ed)" by (metis prod_cases3)
          show thesis
          proof (cases ok)
            case True
            with j Inr Some gen assms ab c q show thesis by (intro accepted) (auto simp: data_end_def Let_def)
          next
            case False
            with j Inr Some gen assms ab c q d show thesis by (intro refused) (auto simp: data_end_def Let_def)
          qed
        qed
      qed
    qed
  qed
qed

section \<open>What any handler is asked to do\<close>

context job_handler begin

lemma data_end_pending:
  assumes "data_end low pr enq x oc ce s S q = (reply, s', T, q', e, acc)"
  shows "pending q' = pending q @ (case acc of None \<Rightarrow> [] | Some j \<Rightarrow> [j])"
  using assms
proof (cases rule: data_end_cases)
  case refused
  with enq_refuses show ?thesis by simp
next
  case accepted
  with enq_accepts show ?thesis by simp
qed simp

end

interpretation pipeline_queue: job_handler enqueue pl_queue
  by unfold_locales (auto simp: enqueue_def split: if_splits)

lemma enqueue_bounded:
  "enqueue j p = (ok, p') \<Longrightarrow> length (pl_queue p) \<le> pl_workers p * queue_per_worker \<Longrightarrow>
   length (pl_queue p') \<le> pl_workers p' * queue_per_worker"
  by (auto simp: enqueue_def split: if_splits)

section \<open>What the store is left with\<close>

lemma abort_staging_frame:
  assumes "abort_staging i S = (T, e)"
  shows "jobs (sys_store T) = jobs (sys_store S)"
    "\<And>g. map_of (sys_stagings T) i = Some g \<Longrightarrow> stg_state g \<noteq> StagingOpen"
    "\<And>k. k \<noteq> i \<Longrightarrow> map_of (sys_stagings T) k = map_of (sys_stagings S) k"
  using assms
  by (auto simp: abort_staging_def abort_def Let_def map_of_update' release_reservation_def
           split: option.splits if_splits)

lemma commit_stores_job:
  assumes c: "commit low pr lstat ids now n g s = (Inr j, g', t, e)"
    and d: "distinct (map fst (jobs s))" and fresh: "\<And>k. ids (length (nj_documents n)) = Some k \<Longrightarrow> map_of (jobs s) k = None"
  obtains r where "map_of (jobs t) (job_id j) = Some r" "rec_job r = j" "map fst (jobs t) = map fst (jobs s) @ [job_id j]"
    "map_of (jobs s) (job_id j) = None" "stg_state g' = StagingCommitted" "rec_dir r = stg_dir g" "rec_files r = stg_files g"
    "job_profile j = nj_profile n" "caps j = nj_caps n" "recipients j = nj_recipients n" "status j = StatusPending"
    "map display_name (documents j) = map (sanitize_display_name low pr \<circ> nd_display_name) (nj_documents n)"
  using c
proof (cases rule: commit_cases)
  case (committed docs jid j' r0 ev)
  let ?rec = "\<lparr>rec_job = j', rec_dir = stg_dir g, rec_bytes = res_bytes r0, rec_files = stg_files g\<rparr>"
  have f: "map_of (jobs s) jid = None" by (rule fresh) (rule committed(4))
  then have keys: "map fst (AList.update jid ?rec (jobs s)) = map fst (jobs s) @ [jid]"
    by (simp add: keys_update_fresh map_of_None_iff_fst)
  then have d': "distinct (map fst (AList.update jid ?rec (jobs s)))" using d f by (simp add: map_of_None_iff_fst)
  have "map_of (jobs t) jid = Some ?rec"
    by (rule make_room_entries(2) [OF committed(8)]) (use d' in simp, simp add: map_of_update', simp add: committed(5))
  moreover have "map fst (jobs t) = map fst (jobs s) @ [jid]"
    using make_room_entries(1) [OF committed(8)] d' keys by simp
  moreover have "map display_name docs = map (sanitize_display_name low pr \<circ> nd_display_name) (nj_documents n)"
    using commit_docs_facts [OF committed(3)] by (intro nth_equalityI) auto
  ultimately show thesis using committed f by (intro that [of ?rec]) simp_all
qed simp

lemma delete_undoes_commit:
  assumes "map fst (jobs t) = ks @ [k]" "k \<notin> set ks" "delete k t = (dr, t', ed)"
  shows "map fst (jobs t') = ks"
proof -
  have "map fst (AList.delete k al) = filter (\<lambda>i. i \<noteq> k) (map fst al)" for al :: "(string \<times> job_record) list"
    by (induction al) auto
  moreover have "filter (\<lambda>i. i \<noteq> k) (ks @ [k]) = ks" using assms(2) by (induction ks) auto
  moreover obtain r where "map_of (jobs t) k = Some r"
    using assms(1) by (metis in_set_conv_decomp map_of_eq_None_iff not_Some_eq set_map)
  ultimately show ?thesis using assms(1,3) by (auto simp: delete_def charge_delete)
qed


definition ex_transaction :: transaction where
  "ex_transaction = \<lparr>tx_staging = ''A'', tx_generation = 1, tx_profile = ''scan@x.org'',
     tx_caps = \<lparr>cap_email = True, cap_web = True, cap_ocr = False\<rparr>, tx_recipients = [''a@x.org'']\<rparr>"

definition ex_commit_env :: commit_env where
  "ex_commit_env = \<lparr>ce_lstat = ex_lstat, ce_ids = (\<lambda>n. Some (if n = 0 then ''D'' else ''J'')), ce_now = 6\<rparr>"

definition ex_scan :: scan_result where
  "ex_scan = \<lparr>sr_subject = ''Scan'', sr_pdfs = [\<lparr>pdf_name = ''s.pdf'', pdf_path = ex_dir @ ''/f'', pdf_size = 20\<rparr>]\<rparr>"

lemma ex_data_end:
  "\<exists>reply s' T p' e. data_end (\<lambda>r. r) (\<lambda>_. False) enqueue ex_transaction (Inr ex_scan) ex_commit_env
       s ex_staged (new_pipeline [] 1) = (reply, s', T, p', e, Some ex_committed_job)" if "ses_generation s = 1"
proof -
  let ?g = "\<lparr>stg_id = ''A'', stg_dir = ex_dir, stg_state = StagingOpen, stg_files = [ex_dir @ ''/f'']\<rparr>"
  have j: "tx_job ex_transaction ex_scan = ex_new_job"
    by (simp add: tx_job_def ex_transaction_def ex_scan_def ex_new_job_def job_caps_def)
  have c: "commit (\<lambda>r. r) (\<lambda>_. False) (ce_lstat ex_commit_env) (ce_ids ex_commit_env) (ce_now ex_commit_env)
      (tx_job ex_transaction ex_scan) ?g (sys_store ex_staged) =
     (Inr ex_committed_job, ?g\<lparr>stg_state := StagingCommitted\<rparr>, sys_store (ex_committed [ex_dir @ ''/f'']), [])"
    using ex_commit by (simp add: j ex_commit_env_def)
  have g: "map_of (sys_stagings ex_staged) (tx_staging ex_transaction) = Some ?g"
    by (simp add: ex_staged_def ex_transaction_def)
  have "tx_generation ex_transaction = 1" by (simp add: ex_transaction_def)
  with c g that show ?thesis
    by (simp add: data_end_def Let_def enqueue_def new_pipeline_def queue_per_worker_def split: prod.splits)
qed


end
