(* ===== verification/Smtp_System.thy ===== *)
theory Smtp_System
  imports Smtp_Properties Config_Properties
begin

text \<open>
  A whole SMTP connection as a transition system: the commands in any order the library allows, \<open>Data\<close> calls
  that run while the session goes on, and everything else that happens to the store and the queue in
  between. \<open>sm_presented\<close> and \<open>sm_accepted\<close> are histories kept for the theorems.
\<close>

section \<open>The connection\<close>

record 'q smtp_system =
  sm_session :: session
  sm_store :: store_system
  sm_queue :: 'q
  sm_running :: "transaction list"
  sm_presented :: "(string \<times> string) list"
  sm_accepted :: "job list"

definition smtp_init :: "'q smtp_system \<Rightarrow> bool" where
  "smtp_init M \<longleftrightarrow> sm_session M = new_session \<and> sm_running M = [] \<and> sm_presented M = [] \<and> sm_accepted M = []"

text \<open>
  \<open>DATA\<close> is guarded by what the SMTP library promises: it comes after an accepted sender and at least one
  accepted recipient.
\<close>

inductive smtp_step ::
  "(rune \<Rightarrow> rune) \<Rightarrow> (rune \<Rightarrow> bool) \<Rightarrow> config \<Rightarrow> (job \<Rightarrow> 'q \<Rightarrow> bool \<times> 'q) \<Rightarrow> 'q smtp_system \<Rightarrow> 'q smtp_system \<Rightarrow> bool"
  for low :: "rune \<Rightarrow> rune" and pr :: "rune \<Rightarrow> bool" and c :: config and enq :: "job \<Rightarrow> 'q \<Rightarrow> bool \<times> 'q" where
  do_reset:
    "reset (sm_session M) (sm_store M) = (s, S, e) \<Longrightarrow> smtp_step low pr c enq M (M\<lparr>sm_session := s, sm_store := S\<rparr>)"
| do_auth:
    "authenticate c u p (sm_session M) = (r, s) \<Longrightarrow> offers_auth c \<Longrightarrow>
     smtp_step low pr c enq M (M\<lparr>sm_session := s, sm_presented := (u, p) # sm_presented M\<rparr>)"
| do_mail:
    "mail low c addr (sm_session M) (sm_store M) = (r, s, S, e) \<Longrightarrow>
     smtp_step low pr c enq M (M\<lparr>sm_session := s, sm_store := S\<rparr>)"
| do_rcpt:
    "rcpt low c addr (sm_session M) = (r, s) \<Longrightarrow> smtp_step low pr c enq M (M\<lparr>sm_session := s\<rparr>)"
| do_begin:
    "ses_profile (sm_session M) \<noteq> [] \<Longrightarrow> ses_recipients (sm_session M) \<noteq> [] \<Longrightarrow>
     data_begin c idr now mk env (sm_session M) (sm_store M) = (Inr x, s, S, e) \<Longrightarrow>
     smtp_step low pr c enq M (M\<lparr>sm_session := s, sm_store := S, sm_running := x # sm_running M\<rparr>)"
| do_begin_failed:
    "data_begin c idr now mk env (sm_session M) (sm_store M) = (Inl err, s, S, e) \<Longrightarrow>
     smtp_step low pr c enq M (M\<lparr>sm_session := s, sm_store := S\<rparr>)"
| do_end:
    "x \<in> set (sm_running M) \<Longrightarrow>
     data_end low pr enq x oc ce (sm_session M) (sm_store M) (sm_queue M) = (reply, s, S, q, e, acc) \<Longrightarrow>
     smtp_step low pr c enq M (M\<lparr>sm_session := s, sm_store := S, sm_queue := q, sm_running := remove1 x (sm_running M),
        sm_accepted := (case acc of None \<Rightarrow> sm_accepted M | Some j \<Rightarrow> j # sm_accepted M)\<rparr>)"
| do_others:
    "smtp_step low pr c enq M (M\<lparr>sm_store := S, sm_queue := q\<rparr>)"

section \<open>Who may send, and to whom\<close>

text \<open>A sender the configuration knows, with the capabilities it grants; the recipients it allows.\<close>

definition sender_known :: "(rune \<Rightarrow> rune) \<Rightarrow> config \<Rightarrow> string \<Rightarrow> capabilities \<Rightarrow> bool" where
  "sender_known low c p cp \<longleftrightarrow> (\<exists>addr. profile low c addr = Some cp \<and> p = normalize_address low addr)"

definition recipients_good :: "(rune \<Rightarrow> rune) \<Rightarrow> config \<Rightarrow> string list \<Rightarrow> bool" where
  "recipients_good low c rs \<longleftrightarrow> distinct rs \<and> list_all (\<lambda>r. canonical low r \<and> recipient_allowed low c r) rs"

definition login_seen :: "config \<Rightarrow> (string \<times> string) list \<Rightarrow> bool" where
  "login_seen c ps \<longleftrightarrow> smtp_allow_anonymous c \<or> (smtp_username c, smtp_password c) \<in> set ps"

definition session_good :: "(rune \<Rightarrow> rune) \<Rightarrow> config \<Rightarrow> (string \<times> string) list \<Rightarrow> session \<Rightarrow> bool" where
  "session_good low c ps s \<longleftrightarrow> recipients_good low c (ses_recipients s) \<and>
     (ses_authenticated s \<longrightarrow> login_seen c ps) \<and>
     (ses_profile s \<noteq> [] \<longrightarrow> login_seen c ps \<and> sender_known low c (ses_profile s) (ses_caps s))"

definition transaction_good :: "(rune \<Rightarrow> rune) \<Rightarrow> config \<Rightarrow> (string \<times> string) list \<Rightarrow> transaction \<Rightarrow> bool" where
  "transaction_good low c ps x \<longleftrightarrow> recipients_good low c (tx_recipients x) \<and> tx_recipients x \<noteq> [] \<and>
     login_seen c ps \<and> sender_known low c (tx_profile x) (tx_caps x)"

definition job_good :: "(rune \<Rightarrow> rune) \<Rightarrow> config \<Rightarrow> (string \<times> string) list \<Rightarrow> job \<Rightarrow> bool" where
  "job_good low c ps j \<longleftrightarrow> recipients_good low c (recipients j) \<and> recipients j \<noteq> [] \<and> login_seen c ps \<and>
     (\<exists>cp. sender_known low c (job_profile j) cp \<and> caps j = job_caps cp)"

definition smtp_inv :: "(rune \<Rightarrow> rune) \<Rightarrow> config \<Rightarrow> 'q smtp_system \<Rightarrow> bool" where
  "smtp_inv low c M \<longleftrightarrow> session_good low c (sm_presented M) (sm_session M) \<and>
     list_all (transaction_good low c (sm_presented M)) (sm_running M) \<and>
     list_all (job_good low c (sm_presented M)) (sm_accepted M)"

lemma recipients_good_Nil [simp]: "recipients_good low c []"
  by (simp add: recipients_good_def)

lemma login_seen_more: "login_seen c ps \<Longrightarrow> login_seen c (p # ps)"
  by (auto simp: login_seen_def)

lemma good_more:
  "session_good low c ps s \<Longrightarrow> session_good low c (p # ps) s"
  "transaction_good low c ps x \<Longrightarrow> transaction_good low c (p # ps) x"
  "job_good low c ps j \<Longrightarrow> job_good low c (p # ps) j"
  using login_seen_more
  by (auto simp: session_good_def transaction_good_def job_good_def)

lemma reset_fields: "reset s S = (s', T, e) \<Longrightarrow> s' = reset_session s"
  by (auto simp: reset_def split: option.splits prod.splits)

lemma reset_good: "session_good low c ps s \<Longrightarrow> session_good low c ps (reset_session s)"
  by (simp add: session_good_def reset_session_def)

lemma mail_good:
  assumes g: "session_good low c ps s" and run: "mail low c addr s S = (r, s', T, e)"
  shows "session_good low c ps s'"
proof -
  obtain T' e' where r: "reset s S = (reset_session s, T', e')"
    by (metis prod_cases3 reset_fields)
  have auth: "ses_authenticated (reset_session s) = ses_authenticated s" by (simp add: reset_session_def)
  show ?thesis
  proof (cases "r = None")
    case False
    with run r reset_good [OF g] show ?thesis
      by (auto simp: mail_def Let_def split: if_splits option.splits)
  next
    case True
    with run r obtain cp where p: "profile low c addr = Some cp" "smtp_allow_anonymous c \<or> ses_authenticated s"
      "s' = (reset_session s)\<lparr>ses_profile := normalize_address low addr, ses_caps := cp\<rparr>"
      by (auto simp: mail_def Let_def auth split: if_splits option.splits)
    then have "login_seen c ps" using g by (auto simp: session_good_def login_seen_def)
    with p g show ?thesis by (auto simp: session_good_def sender_known_def reset_session_def)
  qed
qed

lemma rcpt_good:
  assumes "lower_table low" "session_good low c ps s" "rcpt low c addr s = (r, s')"
  shows "session_good low c ps s'"
proof (cases "s' = s")
  case True
  with assms(2) show ?thesis by simp
next
  case False
  let ?n = "normalize_address low addr"
  from False assms(3) have n: "?n \<noteq> []" "recipient_allowed low c ?n" "?n \<notin> set (ses_recipients s)"
    "s' = s\<lparr>ses_recipients := ses_recipients s @ [?n]\<rparr>"
    by (auto simp: rcpt_def Let_def split: if_splits)
  have "canonical low ?n" by (rule normalize_address_is_canonical [OF assms(1) refl n(1)])
  with n assms(2) show ?thesis by (simp add: session_good_def recipients_good_def)
qed

lemma data_begin_fields:
  "data_begin c idr now mk env s S = (r, s', T, e) \<Longrightarrow>
   ses_recipients s' = ses_recipients s \<and> ses_profile s' = ses_profile s \<and> ses_caps s' = ses_caps s \<and>
   ses_authenticated s' = ses_authenticated s \<and>
   (\<forall>x. r = Inr x \<longrightarrow> tx_recipients x = ses_recipients s \<and> tx_profile x = ses_profile s \<and> tx_caps x = ses_caps s)"
  by (auto simp: data_begin_def split: prod.splits sum.splits)

lemma data_end_session: "data_end low pr enq x oc ce s S q = (reply, s', T, q', e, acc) \<Longrightarrow> s' = s\<lparr>ses_staging := None\<rparr>"
  by (auto simp: data_end_def Let_def split: if_splits sum.splits option.splits prod.splits data_error.splits mime_error.splits)

lemma data_end_good:
  assumes x: "transaction_good low c ps x" and run: "data_end low pr enq x oc ce s S q = (reply, s', T, q', e, Some j)"
  shows "job_good low c ps j"
  using run
proof (cases rule: data_end_cases)
  case (accepted r g j' g' t e1)
  have "job_profile j' = tx_profile x \<and> caps j' = job_caps (tx_caps x) \<and> recipients j' = tx_recipients x"
    using accepted(4) by (cases rule: commit_cases) (simp_all add: tx_job_def)
  with accepted x show ?thesis by (auto simp: job_good_def transaction_good_def)
qed simp_all

lemma smtp_step_good:
  assumes low: "lower_table low" and step: "smtp_step low pr c enq M N" and inv: "smtp_inv low c M"
  shows "smtp_inv low c N"
proof -
  let ?ps = "sm_presented M"
  from inv have s: "session_good low c ?ps (sm_session M)"
    and x: "\<And>x. x \<in> set (sm_running M) \<Longrightarrow> transaction_good low c ?ps x"
    and j: "\<And>j. j \<in> set (sm_accepted M) \<Longrightarrow> job_good low c ?ps j"
    by (auto simp: smtp_inv_def list_all_iff)
  have same: "smtp_inv low c (M\<lparr>sm_session := s', sm_store := T\<rparr>)" if "session_good low c ?ps s'" for s' T
    using that x j by (simp add: smtp_inv_def list_all_iff)
  from step show ?thesis
  proof cases
    case (do_reset s' T e)
    with same [OF reset_good [OF s]] reset_fields show ?thesis by metis
  next
    case (do_auth u p r s')
    have "session_good low c ((u, p) # ?ps) s'"
      using do_auth(2) good_more(1) [OF s, of "(u, p)"]
      by (auto simp: authenticate_def session_good_def login_seen_def Let_def split: if_splits)
    with do_auth x j show ?thesis by (auto simp: smtp_inv_def list_all_iff intro: good_more)
  next
    case (do_mail addr r s' T e)
    with same [OF mail_good [OF s do_mail(2)]] show ?thesis by simp
  next
    case (do_rcpt addr r s')
    with rcpt_good [OF low s do_rcpt(2)] x j show ?thesis by (simp add: smtp_inv_def list_all_iff)
  next
    case (do_begin idr now mk env y s' T e)
    note f = data_begin_fields [OF do_begin(4)]
    have "session_good low c ?ps s'" "transaction_good low c ?ps y"
      using f s do_begin(2,3) by (auto simp: session_good_def transaction_good_def)
    with do_begin(1) x j show ?thesis by (simp add: smtp_inv_def list_all_iff)
  next
    case (do_begin_failed idr now mk env err s' T e)
    have "session_good low c ?ps s'"
      using data_begin_fields [OF do_begin_failed(2)] s by (auto simp: session_good_def)
    with same do_begin_failed(1) show ?thesis by simp
  next
    case (do_end y oc ce reply s' T q e acc)
    have "session_good low c ?ps s'"
      using data_end_session [OF do_end(3)] s by (simp add: session_good_def)
    moreover have "job_good low c ?ps i" if "acc = Some i" for i
      using do_end(3) unfolding that by (rule data_end_good [OF x [OF do_end(2)]])
    ultimately show ?thesis
      using do_end(1) x [OF subsetD [OF set_remove1_subset]] j
      by (auto simp: smtp_inv_def list_all_iff split: option.splits)
  next
    case do_others
    with inv show ?thesis by (simp add: smtp_inv_def)
  qed
qed

lemma smtp_inv_init: "smtp_init M \<Longrightarrow> smtp_inv low c M"
  by (simp add: smtp_init_def smtp_inv_def session_good_def new_session_def)

interpretation smtp_system: invariant_system smtp_init "smtp_step low pr c enq" "\<lambda>M. lower_table low \<longrightarrow> smtp_inv low c M"
  for low pr c enq
  by unfold_locales (blast intro: smtp_inv_init smtp_step_good)+


text \<open>One connection from the greeting to the accepted job, step by step.\<close>

definition ex_caps :: capabilities where
  "ex_caps = \<lparr>cap_email = True, cap_web = True, cap_ocr = False\<rparr>"

definition ex_ses :: "string list \<Rightarrow> string option \<Rightarrow> session" where
  "ex_ses rs stg = \<lparr>ses_authenticated = True, ses_generation = 1, ses_staging = stg, ses_profile = ''scan@x.org'',
                    ses_caps = ex_caps, ses_recipients = rs\<rparr>"

definition ex_conn :: "session \<Rightarrow> store_system \<Rightarrow> transaction list \<Rightarrow> pipeline smtp_system" where
  "ex_conn s S xs = \<lparr>sm_session = s, sm_store = S, sm_queue = new_pipeline [] 1, sm_running = xs,
     sm_presented = [(''scan'', ''secret'')], sm_accepted = []\<rparr>"

abbreviation ex_reach :: "pipeline smtp_system \<Rightarrow> bool" where
  "ex_reach \<equiv> reachable_by smtp_init (smtp_step (\<lambda>r. r) (\<lambda>_. False) ex_config enqueue)"

lemma ex_conn_auth: "ex_reach (ex_conn (new_session\<lparr>ses_authenticated := True\<rparr>) S [])"
proof -
  let ?M = "(ex_conn new_session S [])\<lparr>sm_presented := []\<rparr>"
  have "ex_reach ?M" by (rule reach_init) (simp add: smtp_init_def ex_conn_def)
  moreover have "smtp_step (\<lambda>r. r) (\<lambda>_. False) ex_config enqueue ?M
      (?M\<lparr>sm_session := new_session\<lparr>ses_authenticated := True\<rparr>, sm_presented := (''scan'', ''secret'') # sm_presented ?M\<rparr>)"
    by (rule do_auth [where r = None]) (simp_all add: authenticate_def ex_config_def offers_auth_def ex_conn_def)
  ultimately have "ex_reach (?M\<lparr>sm_session := new_session\<lparr>ses_authenticated := True\<rparr>,
      sm_presented := (''scan'', ''secret'') # sm_presented ?M\<rparr>)" by (rule reach_step)
  then show ?thesis by (simp add: ex_conn_def)
qed

lemma ex_conn_mail: "ex_reach (ex_conn (ex_ses [] None) S [])"
proof -
  let ?M = "ex_conn (new_session\<lparr>ses_authenticated := True\<rparr>) S []"
  have "smtp_step (\<lambda>r. r) (\<lambda>_. False) ex_config enqueue ?M (?M\<lparr>sm_session := ex_ses [] None, sm_store := S\<rparr>)"
    by (rule do_mail [where addr = "''scan@x.org''" and r = None and e = "[]"])
       (simp add: mail_def reset_def reset_session_def new_session_def ex_conn_def profile_def ex_normalize ex_config_def
          ex_ses_def ex_caps_def)
  from reach_step [OF ex_conn_auth, OF this] show ?thesis by (simp add: ex_conn_def)
qed

lemma ex_conn_rcpt: "ex_reach (ex_conn (ex_ses [''a@x.org''] None) S [])"
proof -
  let ?M = "ex_conn (ex_ses [] None) S []"
  have "recipient_allowed (\<lambda>r. r) ex_config ''a@x.org''"
    unfolding recipient_allowed_def canonical_after_last [OF ex_canonical(2)] canonical_domain_lower [OF ex_canonical(2)]
    by (simp add: ex_config_def after_def before_def)
  then have "rcpt (\<lambda>r. r) ex_config ''a@x.org'' (ex_ses [] None) = (None, ex_ses [''a@x.org''] None)"
    by (simp add: rcpt_def ex_normalize ex_ses_def)
  then have "smtp_step (\<lambda>r. r) (\<lambda>_. False) ex_config enqueue ?M (?M\<lparr>sm_session := ex_ses [''a@x.org''] None\<rparr>)"
    by (intro do_rcpt [where addr = "''a@x.org''" and r = None]) (simp add: ex_conn_def)
  from reach_step [OF ex_conn_mail, OF this] show ?thesis by (simp add: ex_conn_def)
qed

lemma ex_reserve:
  "reserve 20 (Some ''A'') 5 (\<lambda>_. True) (\<lambda>s. s) ex_store =
     (Inr \<lparr>stg_id = ''A'', stg_dir = ex_dir, stg_state = StagingOpen, stg_files = []\<rparr>,
      ex_store\<lparr>reservations := [(''A'', \<lparr>res_dir = ex_dir, reserved_at = 5, res_bytes = 20\<rparr>)], used := 20\<rparr>, [])"
  by (simp add: reserve_def reserve_lock_def reserve_finish_def ex_store_def admits_locked_def ex_clean(3))

definition ex_begun :: store_system where
  "ex_begun = \<lparr>sys_store = ex_store\<lparr>reservations := [(''A'', \<lparr>res_dir = ex_dir, reserved_at = 5, res_bytes = 20\<rparr>)], used := 20\<rparr>,
     sys_stagings = [(''A'', \<lparr>stg_id = ''A'', stg_dir = ex_dir, stg_state = StagingOpen, stg_files = []\<rparr>)], sys_pending = []\<rparr>"

lemma ex_data_begin:
  "data_begin ex_config (Some ''A'') 5 (\<lambda>_. True) (\<lambda>s. s) (ex_ses [''a@x.org''] None)
     \<lparr>sys_store = ex_store, sys_stagings = [], sys_pending = []\<rparr> =
   (Inr ex_transaction, ex_ses [''a@x.org''] (Some ''A''), ex_begun, [])"
proof -
  have "max_message_bytes (cfg_limits ex_config) = 20" by (simp add: ex_config_def)
  then show ?thesis
    by (simp add: data_begin_def ex_reserve ex_ses_def ex_transaction_def ex_caps_def ex_begun_def)
qed

lemma ex_conn_data: "ex_reach (ex_conn (ex_ses [''a@x.org''] (Some ''A'')) ex_staged [ex_transaction])"
proof -
  let ?M = "ex_conn (ex_ses [''a@x.org''] None) \<lparr>sys_store = ex_store, sys_stagings = [], sys_pending = []\<rparr> []"
  have "smtp_step (\<lambda>r. r) (\<lambda>_. False) ex_config enqueue ?M
      (?M\<lparr>sm_session := ex_ses [''a@x.org''] (Some ''A''), sm_store := ex_begun, sm_running := ex_transaction # sm_running ?M\<rparr>)"
    by (rule do_begin [where idr = "Some ''A''" and now = 5 and mk = "\<lambda>_. True" and env = "\<lambda>s. s" and e = "[]"])
       (simp_all add: ex_conn_def ex_data_begin, simp_all add: ex_ses_def)
  from reach_step [OF ex_conn_rcpt, OF this]
  have r: "ex_reach (ex_conn (ex_ses [''a@x.org''] (Some ''A'')) ex_begun [ex_transaction])" by (simp add: ex_conn_def)
  let ?N = "ex_conn (ex_ses [''a@x.org''] (Some ''A'')) ex_begun [ex_transaction]"
  have "smtp_step (\<lambda>r. r) (\<lambda>_. False) ex_config enqueue ?N (?N\<lparr>sm_store := ex_staged, sm_queue := new_pipeline [] 1\<rparr>)"
    by (rule do_others)
  from reach_step [OF r, OF this] show ?thesis by (simp add: ex_conn_def)
qed

lemma ex_connection_accepts:
  "\<exists>M. ex_reach M \<and> sm_accepted M = [ex_committed_job] \<and> sm_presented M = [(''scan'', ''secret'')]"
proof -
  let ?M = "ex_conn (ex_ses [''a@x.org''] (Some ''A'')) ex_staged [ex_transaction]"
  let ?run = "data_end (\<lambda>r. r) (\<lambda>_. False) enqueue ex_transaction (Inr ex_scan) ex_commit_env
       (sm_session ?M) (sm_store ?M) (sm_queue ?M)"
  obtain reply s' T p' e acc where run: "?run = (reply, s', T, p', e, acc)" by (cases ?run)
  have "acc = Some ex_committed_job"
    using run ex_data_end [of "ex_ses [''a@x.org''] (Some ''A'')"] by (auto simp: ex_conn_def ex_ses_def)
  moreover have "smtp_step (\<lambda>r. r) (\<lambda>_. False) ex_config enqueue ?M (?M\<lparr>sm_session := s', sm_store := T, sm_queue := p',
     sm_running := remove1 ex_transaction (sm_running ?M),
     sm_accepted := (case acc of None \<Rightarrow> sm_accepted ?M | Some j \<Rightarrow> j # sm_accepted ?M)\<rparr>)"
    by (rule do_end [OF _ run]) (simp add: ex_conn_def)
  ultimately show ?thesis using reach_step [OF ex_conn_data] by (fastforce simp: ex_conn_def)
qed


end
