(* ===== verification/Go_Json.thy ===== *)
theory Go_Json
  imports Go_Strings
begin

text \<open>
  What the program uses of \<open>encoding/json\<close>: how a string is written, and how the first value of a text is read, with the
  members of an object in their order and with their duplicates. Reading is bounded by the nesting depth of the decoder
  and by fuel: every step takes at least one byte, so twice the length of the text is enough.
\<close>

section \<open>Writing strings\<close>

definition quote_char :: char where "quote_char = char_of (34 :: nat)"
definition backslash :: char where "backslash = char_of (92 :: nat)"

definition lower_hex :: "nat \<Rightarrow> char" where
  "lower_hex n = char_of (if n < 10 then 48 + n else 87 + n)"

definition json_u :: "nat \<Rightarrow> string" where
  "json_u r = [backslash, CHR ''u'', lower_hex (r div 4096 mod 16), lower_hex (r div 256 mod 16),
               lower_hex (r div 16 mod 16), lower_hex (r mod 16)]"

definition json_byte :: "char \<Rightarrow> string" where
  "json_byte c =
     (if c = quote_char \<or> c = backslash then [backslash, c]
      else if byte c = 8 then [backslash, CHR ''b'']
      else if byte c = 12 then [backslash, CHR ''f'']
      else if byte c = 10 then [backslash, CHR ''n'']
      else if byte c = 13 then [backslash, CHR ''r'']
      else if byte c = 9 then [backslash, CHR ''t'']
      else if byte c < 32 \<or> c \<in> set ''<>&'' then json_u (byte c)
      else [c])"

fun json_chars :: "string \<Rightarrow> string" where
  "json_chars [] = []"
| "json_chars (c # cs) =
     (if byte c < 128 then json_byte c @ json_chars cs
      else (case decode_rune (c # cs) of (r, w) \<Rightarrow>
        (if r = rune_error \<and> w = 1 then json_u rune_error
         else if r = 8232 \<or> r = 8233 then json_u r
         else take w (c # cs)) @ json_chars (drop (w - 1) cs)))"

definition json_string :: "string \<Rightarrow> string" where
  "json_string s = [quote_char] @ json_chars s @ [quote_char]"

section \<open>Reading strings\<close>

definition hex_value :: "char \<Rightarrow> nat option" where
  "hex_value c =
     (let b = byte c in
      if 48 \<le> b \<and> b \<le> 57 then Some (b - 48)
      else if 97 \<le> b \<and> b \<le> 102 then Some (b - 87)
      else if 65 \<le> b \<and> b \<le> 70 then Some (b - 55)
      else None)"

fun hex4 :: "string \<Rightarrow> (nat \<times> string) option" where
  "hex4 (a # b # c # d # s) =
     (case (hex_value a, hex_value b, hex_value c, hex_value d) of
        (Some p, Some q, Some r, Some t) \<Rightarrow> Some (p * 4096 + q * 256 + r * 16 + t, s)
      | _ \<Rightarrow> None)"
| "hex4 _ = None"

text \<open>A \<open>\\u\<close> escape after its four digits: a surrogate is joined with the one that follows it, or replaced.\<close>

definition join_surrogates :: "nat \<Rightarrow> string \<Rightarrow> rune \<times> string" where
  "join_surrogates r s =
     (if r < 55296 \<or> 57344 \<le> r then (r, s)
      else (case s of
              e # u # t \<Rightarrow>
                if e = backslash \<and> u = CHR ''u'' then
                  (case hex4 t of
                     Some (r2, t2) \<Rightarrow>
                       if r < 56320 \<and> 56320 \<le> r2 \<and> r2 < 57344
                       then ((r - 55296) * 1024 + (r2 - 56320) + 65536, t2) else (rune_error, s)
                   | None \<Rightarrow> (rune_error, s))
                else (rune_error, s)
            | _ \<Rightarrow> (rune_error, s)))"

definition simple_escape :: "char \<Rightarrow> char option" where
  "simple_escape e =
     (if e = quote_char \<or> e = backslash \<or> e = CHR ''/'' then Some e
      else if e = CHR ''b'' then Some (char_of (8 :: nat))
      else if e = CHR ''f'' then Some (char_of (12 :: nat))
      else if e = CHR ''n'' then Some (char_of (10 :: nat))
      else if e = CHR ''r'' then Some (char_of (13 :: nat))
      else if e = CHR ''t'' then Some (char_of (9 :: nat))
      else None)"

lemma hex4_length: "hex4 s = Some (n, t) \<Longrightarrow> length t < length s"
  by (induction s rule: hex4.induct) (auto split: option.splits)

lemma join_surrogates_length: "length (snd (join_surrogates r s)) \<le> length s"
  by (auto simp: join_surrogates_def split: list.splits option.splits dest: hex4_length)

text \<open>The text after the opening quote: the string and what follows its closing quote.\<close>

function json_unquote :: "string \<Rightarrow> (string \<times> string) option" where
  "json_unquote s =
     (case s of
        [] \<Rightarrow> None
      | c # cs \<Rightarrow>
          if c = quote_char then Some ([], cs)
          else if c = backslash then
            (case cs of
               [] \<Rightarrow> None
             | e # r \<Rightarrow>
                 if e = CHR ''u'' then
                   (case hex4 r of
                      None \<Rightarrow> None
                    | Some (n, t) \<Rightarrow>
                        map_option (\<lambda>(v, q). (encode_rune (fst (join_surrogates n t)) @ v, q))
                          (json_unquote (snd (join_surrogates n t))))
                 else
                   (case simple_escape e of
                      None \<Rightarrow> None
                    | Some x \<Rightarrow> map_option (\<lambda>(v, q). (x # v, q)) (json_unquote r)))
          else if byte c < 32 then None
          else
            (case decode_rune (c # cs) of (r, w) \<Rightarrow>
               map_option (\<lambda>(v, q). (encode_rune r @ v, q)) (json_unquote (drop (w - 1) cs))))"
  by pat_completeness auto
termination
proof (relation "measure length", goal_cases)
  case (2 s c cs e r p n t)
  then show ?case using hex4_length join_surrogates_length [of n t] by fastforce
qed auto

declare json_unquote.simps [simp del]

section \<open>Reading values\<close>

datatype jv = JNull | JBool bool | JNumber string | JText string | JList "jv list" | JMap "(string \<times> jv) list"

definition json_space :: "char \<Rightarrow> bool" where
  "json_space c = (byte c \<in> {32, 9, 13, 10})"

definition skip_space :: "string \<Rightarrow> string" where
  "skip_space s = dropWhile json_space s"

definition is_digit :: "char \<Rightarrow> bool" where
  "is_digit c = (48 \<le> byte c \<and> byte c \<le> 57)"

text \<open>A number: sign, integer part without leading zeros, fraction, exponent.\<close>

definition number_int :: "string \<Rightarrow> (string \<times> string) option" where
  "number_int s =
     (case s of
        [] \<Rightarrow> None
      | c # cs \<Rightarrow> if c = CHR ''0'' then Some (''0'', cs)
                 else if is_digit c then Some (takeWhile is_digit s, dropWhile is_digit s) else None)"

definition number_part :: "string \<Rightarrow> string \<Rightarrow> (string \<times> string) option" where
  "number_part lead s =
     (if takeWhile is_digit s = [] then None else Some (lead @ takeWhile is_digit s, dropWhile is_digit s))"

definition json_number :: "string \<Rightarrow> (string \<times> string) option" where
  "json_number s0 =
     (let (sign, s) = (if prefix ''-'' s0 then (''-'', tl s0) else ([], s0)) in
      case number_int s of
        None \<Rightarrow> None
      | Some (i, s1) \<Rightarrow>
          (case (if prefix ''.'' s1 then number_part ''.'' (tl s1) else Some ([], s1)) of
             None \<Rightarrow> None
           | Some (f, s2) \<Rightarrow>
               (case (if s2 \<noteq> [] \<and> hd s2 \<in> set ''eE'' then
                        (let t = tl s2 in
                         if t \<noteq> [] \<and> hd t \<in> set ''+-'' then number_part [hd s2, hd t] (tl t) else number_part [hd s2] t)
                      else Some ([], s2)) of
                  None \<Rightarrow> None
                | Some (e, s3) \<Rightarrow> Some (sign @ i @ f @ e, s3))))"

text \<open>The first value of a text; \<open>depth\<close> is how many more objects and arrays may be opened.\<close>

fun json_value :: "nat \<Rightarrow> nat \<Rightarrow> string \<Rightarrow> (jv \<times> string) option"
  and json_members :: "nat \<Rightarrow> nat \<Rightarrow> string \<Rightarrow> ((string \<times> jv) list \<times> string) option"
  and json_elements :: "nat \<Rightarrow> nat \<Rightarrow> string \<Rightarrow> (jv list \<times> string) option"
where
  "json_value 0 depth s = None"
| "json_value (Suc fuel) depth s0 =
     (case skip_space s0 of
        [] \<Rightarrow> None
      | c # cs \<Rightarrow>
          if c = CHR 0x7B then
            (if depth = 0 then None
             else (case skip_space cs of
                     [] \<Rightarrow> None
                   | d # ds \<Rightarrow> if d = CHR 0x7D then Some (JMap [], ds)
                              else map_option (\<lambda>(m, r). (JMap m, r)) (json_members fuel (depth - 1) (d # ds))))
          else if c = CHR ''['' then
            (if depth = 0 then None
             else (case skip_space cs of
                     [] \<Rightarrow> None
                   | d # ds \<Rightarrow> if d = CHR '']'' then Some (JList [], ds)
                              else map_option (\<lambda>(m, r). (JList m, r)) (json_elements fuel (depth - 1) (d # ds))))
          else if c = quote_char then map_option (\<lambda>(t, r). (JText t, r)) (json_unquote cs)
          else if prefix ''true'' (c # cs) then Some (JBool True, drop 4 (c # cs))
          else if prefix ''false'' (c # cs) then Some (JBool False, drop 5 (c # cs))
          else if prefix ''null'' (c # cs) then Some (JNull, drop 4 (c # cs))
          else map_option (\<lambda>(t, r). (JNumber t, r)) (json_number (c # cs)))"
| "json_members 0 depth s = None"
| "json_members (Suc fuel) depth s0 =
     (case skip_space s0 of
        [] \<Rightarrow> None
      | c # cs \<Rightarrow>
          if c \<noteq> quote_char then None
          else (case json_unquote cs of
            None \<Rightarrow> None
          | Some (k, s1) \<Rightarrow>
              (case skip_space s1 of
                 [] \<Rightarrow> None
               | d # ds \<Rightarrow>
                   if d \<noteq> CHR '':'' then None
                   else (case json_value fuel depth ds of
                     None \<Rightarrow> None
                   | Some (v, s2) \<Rightarrow>
                       (case skip_space s2 of
                          [] \<Rightarrow> None
                        | e # es \<Rightarrow>
                            if e = CHR 0x7D then Some ([(k, v)], es)
                            else if e = CHR '','' then map_option (\<lambda>(m, r). ((k, v) # m, r)) (json_members fuel depth es)
                            else None)))))"
| "json_elements 0 depth s = None"
| "json_elements (Suc fuel) depth s0 =
     (case json_value fuel depth s0 of
        None \<Rightarrow> None
      | Some (v, s1) \<Rightarrow>
          (case skip_space s1 of
             [] \<Rightarrow> None
           | e # es \<Rightarrow>
               if e = CHR '']'' then Some ([v], es)
               else if e = CHR '','' then map_option (\<lambda>(m, r). (v # m, r)) (json_elements fuel depth es)
               else None))"

definition max_nesting_depth :: nat where
  "max_nesting_depth = 10000"

definition json_decode :: "string \<Rightarrow> (jv \<times> string) option" where
  "json_decode s = json_value (2 * length s + 2) max_nesting_depth s"

text \<open>\<open>Decoder.More\<close> after the value: something follows, and it does not close an object or an array.\<close>

definition json_more :: "string \<Rightarrow> bool" where
  "json_more rest = (case skip_space rest of [] \<Rightarrow> False | c # _ \<Rightarrow> c \<noteq> CHR '']'' \<and> c \<noteq> CHR 0x7D)"

text \<open>Whether some object of a value names a member twice.\<close>

fun json_has_duplicate :: "jv \<Rightarrow> bool" where
  "json_has_duplicate (JMap kvs) = (\<not> distinct (map fst kvs) \<or> list_ex (\<lambda>(k, v). json_has_duplicate v) kvs)"
| "json_has_duplicate (JList vs) = list_ex json_has_duplicate vs"
| "json_has_duplicate v = False"

end
