(* ===== verification/Mime_Compose.thy ===== *)
theory Mime_Compose
  imports Mail_Message Go_Base64 Go_Json
begin

text \<open>
  \<open>internal/graphmail/message.go\<close>: composing the RFC 5322 message, with what it uses of \<open>mime\<close> and
  \<open>mime/multipart\<close> written out (Q encoding of headers, \<open>FormatMediaType\<close> with one parameter, the multipart
  writer). The date line and the boundary, which come from the clock and the random source, are arguments.
\<close>

section \<open>Encoded words\<close>

abbreviation crlf_seq :: string where
  "crlf_seq \<equiv> [CHR 0x0D, CHR 0x0A]"

definition needs_encoding :: "string \<Rightarrow> bool" where
  "needs_encoding s = list_ex (\<lambda>r. (r < 32 \<or> 126 < r) \<and> r \<noteq> 9) (runes s)"

definition upper_hex :: "nat \<Rightarrow> char" where
  "upper_hex n = char_of (if n < 10 then 48 + n else 55 + n)"

definition q_plain :: "char \<Rightarrow> bool" where
  "q_plain c = (33 \<le> byte c \<and> byte c \<le> 126 \<and> c \<notin> set ''=?_'')"

definition q_byte :: "char \<Rightarrow> string" where
  "q_byte c = (if c = CHR '' '' then ''_'' else if q_plain c then [c]
               else [CHR ''='', upper_hex (byte c div 16), upper_hex (byte c mod 16)])"

definition max_content_len :: nat where
  "max_content_len = 75 - length ''=?UTF-8?q?'' - length ''?=''"

text \<open>
  The content of the encoded words of a string: a rune never straddles two words, and a word is closed before
  the rune that would make it too long. \<open>acc\<close> is the content of the word being written.
\<close>

fun q_words :: "string \<Rightarrow> nat \<Rightarrow> string \<Rightarrow> string list" where
  "q_words acc cur [] = [acc]"
| "q_words acc cur (c # cs) =
     (let w = (if c = CHR '' '' \<or> q_plain c then 1 else snd (decode_rune (c # cs)));
          enc = (if c = CHR '' '' \<or> q_plain c then 1 else 3 * w);
          piece = concat (map q_byte (take w (c # cs)))
      in if max_content_len < cur + enc
         then acc # q_words piece enc (drop (w - 1) cs)
         else q_words (acc @ piece) (cur + enc) (drop (w - 1) cs))"

definition q_open :: string where "q_open = ''=?utf-8?q?''"
definition q_close :: string where "q_close = ''?=''"

definition q_encode :: "string \<Rightarrow> string" where
  "q_encode s =
     (if \<not> needs_encoding s then s
      else join_with '' '' (map (\<lambda>p. q_open @ p @ q_close) (q_words [] 0 s)))"

definition encode_subject :: "string \<Rightarrow> string" where
  "encode_subject s = replace_all ''?= =?'' (''?='' @ crlf_seq @ '' =?'') (q_encode s)"

definition crlf :: "string \<Rightarrow> string" where
  "crlf s = replace_all [CHR 0x0A] crlf_seq (replace_all crlf_seq [CHR 0x0A] s)"

section \<open>FormatMediaType\<close>

definition tspecial :: "char \<Rightarrow> bool" where
  "tspecial c = (c \<in> set ''()<>@,;:/[]?='' \<or> byte c = 34 \<or> byte c = 92)"

definition is_token :: "string \<Rightarrow> bool" where
  "is_token s = (s \<noteq> [] \<and> list_all (\<lambda>c. 32 < byte c \<and> byte c < 127 \<and> \<not> tspecial c) s)"

definition attr_byte :: "char \<Rightarrow> string" where
  "attr_byte c =
     (if byte c \<le> 32 \<or> 127 \<le> byte c \<or> c = CHR ''*'' \<or> byte c = 39 \<or> c = CHR ''%'' \<or> tspecial c
      then [CHR ''%'', upper_hex (byte c div 16), upper_hex (byte c mod 16)] else [c])"

definition apostrophe :: char where "apostrophe = char_of (39 :: nat)"

definition quoted_value :: "string \<Rightarrow> string" where
  "quoted_value s =
     [quote_char] @ concat (map (\<lambda>c. if c = quote_char \<or> c = backslash then [backslash, c] else [c]) s) @ [quote_char]"

text \<open>\<open>mime.FormatMediaType("attachment", {"filename": name})\<close>.\<close>

definition attachment_disposition :: "string \<Rightarrow> string" where
  "attachment_disposition name =
     ''attachment; filename'' @
     (if needs_encoding name then ''*=utf-8'' @ [apostrophe, apostrophe] @ concat (map attr_byte name)
      else ''='' @ (if is_token name then name else quoted_value name))"

section \<open>Base64 bodies\<close>

text \<open>\<open>lineWrap.Write\<close>: the output and the column after it; \<open>col\<close> stays below 76.\<close>

function line_wrap :: "nat \<Rightarrow> string \<Rightarrow> string \<times> nat" where
  "line_wrap col p =
     (if p = [] \<or> 76 \<le> col then ([], col)
      else let n = min (76 - col) (length p);
               full = (col + n = 76);
               (rest, c) = line_wrap (if full then 0 else col + n) (drop n p)
           in (take n p @ (if full then crlf_seq else []) @ rest, c))"
  by pat_completeness auto
termination
  by (relation "measure (\<lambda>(col, p). length p)") auto

declare line_wrap.simps [simp del]

definition encoded_file :: "string \<Rightarrow> string" where
  "encoded_file content = fst (line_wrap 0 (std_encode (map byte content)))"

section \<open>The multipart writer and the message\<close>

text \<open>\<open>CreatePart\<close>: the delimiter, the header lines, an empty line.\<close>

definition create_part :: "string \<Rightarrow> bool \<Rightarrow> (string \<times> string) list \<Rightarrow> string" where
  "create_part boundary first hs =
     (if first then [] else crlf_seq) @ ''--'' @ boundary @ crlf_seq @
     concat (map (\<lambda>(k, v). k @ '': '' @ v @ crlf_seq) hs) @ crlf_seq"

definition close_parts :: "string \<Rightarrow> string" where
  "close_parts boundary = crlf_seq @ ''--'' @ boundary @ ''--'' @ crlf_seq"

definition attach_file :: "(path \<Rightarrow> string option) \<Rightarrow> string \<Rightarrow> attachment \<Rightarrow> string option" where
  "attach_file fs boundary a =
     map_option (\<lambda>content.
         create_part boundary False
           [(''Content-Disposition'', attachment_disposition (at_name a)),
            (''Content-Transfer-Encoding'', ''base64''),
            (''Content-Type'', ''application/pdf'')] @ encoded_file content)
       (fs (at_path a))"

fun attach_files :: "(path \<Rightarrow> string option) \<Rightarrow> string \<Rightarrow> attachment list \<Rightarrow> string option" where
  "attach_files fs boundary [] = Some []"
| "attach_files fs boundary (a # as) =
     (case attach_file fs boundary a of
        None \<Rightarrow> None
      | Some p \<Rightarrow> map_option ((@) p) (attach_files fs boundary as))"

definition message_headers :: "string \<Rightarrow> string \<Rightarrow> message \<Rightarrow> string" where
  "message_headers sender date m =
     ''From: '' @ sender @ crlf_seq @
     ''To: '' @ join_with '', '' (ms_to m) @ crlf_seq @
     ''Subject: '' @ encode_subject (ms_subject m) @ crlf_seq @
     ''Date: '' @ date @ crlf_seq @
     ''MIME-Version: 1.0'' @ crlf_seq"

definition build_message ::
  "(path \<Rightarrow> string option) \<Rightarrow> string \<Rightarrow> string \<Rightarrow> string \<Rightarrow> message \<Rightarrow> string option" where
  "build_message fs date boundary sender m =
     (if ms_attachments m = []
      then Some (message_headers sender date m @ ''Content-Type: text/plain; charset=utf-8'' @ crlf_seq @ crlf_seq @
                 crlf (ms_body m))
      else map_option (\<lambda>parts.
             message_headers sender date m @
             ''Content-Type: multipart/mixed; boundary='' @ quoted_value boundary @ crlf_seq @ crlf_seq @
             create_part boundary True [(''Content-Type'', ''text/plain; charset=utf-8'')] @ crlf (ms_body m) @
             parts @ close_parts boundary)
           (attach_files fs boundary (ms_attachments m)))"

end
