(* ===== verification/Mime_Properties.thy ===== *)
theory Mime_Properties
  imports Mime_Compose
begin

text \<open>
  The composed message: base64 lines of at most 76 bytes whatever pieces the encoder writes, and a subject header
  that cannot break out of its line.
\<close>

section \<open>Base64 lines\<close>

lemma line_wrap_short: "col + length p < 76 \<Longrightarrow> line_wrap col p = (p, col + length p)"
  by (subst line_wrap.simps) (auto simp: Let_def min_def line_wrap.simps [of _ "[]"])

lemma line_wrap_long:
  assumes "col < 76" "76 \<le> col + length p"
  shows "line_wrap col p = (let (rest, c) = line_wrap 0 (drop (76 - col) p) in (take (76 - col) p @ crlf_seq @ rest, c))"
proof -
  have "p \<noteq> []" "min (76 - col) (length p) = 76 - col" using assms by auto
  with assms show ?thesis by (subst line_wrap.simps) (simp add: Let_def)
qed

lemma line_wrap_append:
  "col < 76 \<Longrightarrow> line_wrap col (p @ q) = (let (a, c) = line_wrap col p; (b, d) = line_wrap c q in (a @ b, d))"
proof (induction "length p" arbitrary: p col rule: less_induct)
  case less
  show ?case
  proof (cases "col + length p < 76")
    case short: True
    show ?thesis
    proof (cases "col + length (p @ q) < 76")
      case True
      with short show ?thesis by (simp add: line_wrap_short)
    next
      case False
      with short less.prems show ?thesis
        by (simp add: line_wrap_short line_wrap_long case_prod_beta Let_def)
    qed
  next
    case False
    with less.prems have "length (drop (76 - col) p) < length p" by simp
    from less.hyps [OF this, of 0] False less.prems show ?thesis
      by (simp add: line_wrap_long case_prod_beta Let_def)
  qed
qed

lemma line_wrap_col: "col < 76 \<Longrightarrow> snd (line_wrap col p) < 76"
proof (induction "length p" arbitrary: p col rule: less_induct)
  case less
  show ?case
  proof (cases "col + length p < 76")
    case True
    then show ?thesis by (simp add: line_wrap_short)
  next
    case False
    with less.prems have "length (drop (76 - col) p) < length p" by simp
    from less.hyps [OF this, of 0] False less.prems show ?thesis
      by (simp add: line_wrap_long case_prod_beta Let_def)
  qed
qed

text \<open>The reference: 76 bytes a line, every full line ended.\<close>

definition wrapped :: "string \<Rightarrow> string" where
  "wrapped p = concat (map (\<lambda>l. if length l = 76 then l @ crlf_seq else l) (chunks 76 p))"

lemma wrapped_short: "length p < 76 \<Longrightarrow> wrapped p = p"
  by (cases "p = []") (simp_all add: wrapped_def chunks_step)

lemma wrapped_long: "76 \<le> length p \<Longrightarrow> wrapped p = take 76 p @ crlf_seq @ wrapped (drop 76 p)"
proof -
  assume "76 \<le> length p"
  then have "chunks 76 p = take 76 p # chunks 76 (drop 76 p)" "length (take 76 p) = 76" by (auto intro: chunks_step)
  then show ?thesis by (simp add: wrapped_def)
qed

lemma line_wrap_wrapped: "fst (line_wrap 0 p) = wrapped p"
proof (induction "length p" arbitrary: p rule: less_induct)
  case less
  show ?case
  proof (cases "length p < 76")
    case True
    then show ?thesis by (simp add: line_wrap_short wrapped_short)
  next
    case False
    then have "fst (line_wrap 0 (drop 76 p)) = wrapped (drop 76 p)" by (intro less) simp
    with False show ?thesis by (simp add: line_wrap_long wrapped_long case_prod_beta Let_def)
  qed
qed

text \<open>The writes the streaming encoder makes, one after another.\<close>

fun wrap_writes :: "nat \<Rightarrow> string list \<Rightarrow> string" where
  "wrap_writes col [] = []"
| "wrap_writes col (p # ps) = (case line_wrap col p of (out, c) \<Rightarrow> out @ wrap_writes c ps)"

lemma wrap_writes_concat: "col < 76 \<Longrightarrow> wrap_writes col ps = fst (line_wrap col (concat ps))"
proof (induction ps arbitrary: col)
  case Nil
  then show ?case by (simp add: line_wrap_short)
next
  case (Cons p ps)
  with line_wrap_col [of col p] show ?case by (simp add: line_wrap_append case_prod_beta Let_def)
qed

text \<open>However the base64 encoder cuts its output into writes, the attachment body is the same: the encoded
  text in lines of 76 bytes, each full one ended with CRLF, so no line is longer and nothing but line ends is
  added.\<close>

theorem line_wrap_any_writes:
  "wrap_writes 0 ps = wrapped (concat ps) \<and> concat (chunks 76 (concat ps)) = concat ps \<and>
   list_all (\<lambda>l. length l \<le> 76) (chunks 76 (concat ps))"
  using wrap_writes_concat [of 0 ps] concat_chunks [of 76 "concat ps"] chunks_bounds [of 76 "concat ps"]
  by (auto simp: line_wrap_wrapped list_all_iff)

section \<open>The subject\<close>

definition no_break :: "string \<Rightarrow> bool" where
  "no_break s \<longleftrightarrow> CHR 0x0D \<notin> set s \<and> CHR 0x0A \<notin> set s"

abbreviation fold_sep :: string where
  "fold_sep \<equiv> crlf_seq @ '' ''"

lemma replace_all_skip:
  "(\<And>i. i < length u \<Longrightarrow> \<not> prefix old (drop i (u @ v))) \<Longrightarrow> replace_all old new (u @ v) = u @ replace_all old new v"
proof (induction u)
  case (Cons c u)
  have "\<not> prefix old (c # u @ v)" using Cons.prems [of 0] by simp
  moreover have "replace_all old new (u @ v) = u @ replace_all old new v"
    by (rule Cons.IH) (use Cons.prems [of "Suc _"] in auto)
  ultimately show ?case by (subst replace_all.simps) simp
qed simp

lemma replace_all_miss: "\<not> prefix old (c # t) \<Longrightarrow> replace_all old new (c # t) = c # replace_all old new t"
  by (subst replace_all.simps) simp

lemma replace_all_hit: "old \<noteq> [] \<Longrightarrow> replace_all old new (old @ s) = new @ replace_all old new s"
  by (cases old) (simp_all add: replace_all.simps [of _ _ "_ # _"])

text \<open>Folding a text without line breaks puts them nowhere else than between the pieces.\<close>

lemma join_with_Cons: "ps \<noteq> [] \<Longrightarrow> join_with sep (p # ps) = p @ sep @ join_with sep ps"
  by (cases ps) auto

lemma join_with_head: "ws \<noteq> [] \<Longrightarrow> u @ join_with sep ws = join_with sep ((u @ hd ws) # tl ws)"
  by (cases ws; cases "tl ws") auto

lemma fold_pieces:
  "no_break s \<Longrightarrow> \<exists>ws. ws \<noteq> [] \<and> replace_all ''?= =?'' (''?='' @ crlf_seq @ '' =?'') s = join_with fold_sep ws \<and> list_all no_break ws"
proof (induction "length s" arbitrary: s rule: less_induct)
  case less
  show ?case
  proof (cases "prefix ''?= =?'' s")
    case True
    then obtain t where s: "s = ''?= =?'' @ t" by (auto simp: prefix_def)
    then have "length t < length s" "no_break t" using less.prems by (auto simp: no_break_def)
    from less.hyps [OF this] obtain ws where ws: "ws \<noteq> []"
      "replace_all ''?= =?'' (''?='' @ crlf_seq @ '' =?'') t = join_with fold_sep ws" "list_all no_break ws" by blast
    have "replace_all ''?= =?'' (''?='' @ crlf_seq @ '' =?'') s = ''?='' @ fold_sep @ ''=?'' @ join_with fold_sep ws"
      using ws(2) unfolding s by (subst replace_all_hit) simp_all
    also have "... = join_with fold_sep (''?='' # (''=?'' @ hd ws) # tl ws)"
      using join_with_head [OF ws(1), of "''=?''" fold_sep] by simp
    finally show ?thesis
      using ws(1,3) by (intro exI [of _ "''?='' # (''=?'' @ hd ws) # tl ws"]) (cases ws, auto simp: no_break_def)
  next
    case False
    show ?thesis
    proof (cases s)
      case Nil
      then show ?thesis by (intro exI [of _ "[[]]"]) (simp add: no_break_def replace_all.simps)
    next
      case (Cons c t)
      then have "length t < length s" "no_break t" using less.prems by (auto simp: no_break_def)
      from less.hyps [OF this] obtain ws where ws: "ws \<noteq> []"
        "replace_all ''?= =?'' (''?='' @ crlf_seq @ '' =?'') t = join_with fold_sep ws" "list_all no_break ws" by blast
      have "replace_all ''?= =?'' (''?='' @ crlf_seq @ '' =?'') s = [c] @ join_with fold_sep ws"
        using replace_all_miss [OF False [unfolded Cons]] ws(2) Cons by simp
      then show ?thesis
        using ws less.prems Cons join_with_head [OF ws(1), of "[c]" fold_sep]
        by (intro exI [of _ "([c] @ hd ws) # tl ws"]) (cases ws, auto simp: no_break_def)
    qed
  qed
qed

text \<open>The words of the Q encoding: short, printable, and without the characters that end a word.\<close>

definition q_text :: "string \<Rightarrow> bool" where
  "q_text p \<longleftrightarrow> list_all (\<lambda>c. 33 \<le> byte c \<and> byte c \<le> 126 \<and> c \<noteq> CHR ''?'') p"

lemma upper_hex_text:
  assumes "n < 16"
  shows "33 \<le> byte (upper_hex n) \<and> byte (upper_hex n) \<le> 126 \<and> upper_hex n \<noteq> CHR ''?''"
proof -
  have "upper_hex n \<noteq> CHR ''?''"
  proof
    assume "upper_hex n = CHR ''?''"
    then have "byte (upper_hex n) = 63" by simp
    with assms show False by (simp add: upper_hex_def split: if_splits)
  qed
  with assms show ?thesis by (simp add: upper_hex_def)
qed

lemma q_byte_text: "q_text (q_byte c)" "length (q_byte c) = (if c = CHR '' '' \<or> q_plain c then 1 else 3)"
proof -
  have "byte c div 16 < 16" "byte c mod 16 < 16" using byte_less_256 [of c] by (simp_all add: less_mult_imp_div_less)
  note hex = upper_hex_text [OF this(1)] upper_hex_text [OF this(2)]
  consider "c = CHR '' ''" | "c \<noteq> CHR '' ''" "q_plain c" | "c \<noteq> CHR '' ''" "\<not> q_plain c" by blast
  then show "q_text (q_byte c)"
  proof cases
    case 3
    then have "q_byte c = [CHR ''='', upper_hex (byte c div 16), upper_hex (byte c mod 16)]" by (simp only: q_byte_def if_False)
    then show ?thesis using hex by (simp only: q_text_def list.pred_inject) simp
  qed (simp_all add: q_text_def q_byte_def q_plain_def)
  show "length (q_byte c) = (if c = CHR '' '' \<or> q_plain c then 1 else 3)" by (simp add: q_byte_def)
qed

lemma q_piece_text: "q_text (concat (map q_byte s))" "length (concat (map q_byte s)) \<le> 3 * length s"
  using q_byte_text by (induction s) (auto simp: q_text_def)

lemma decode_rune_max: "decode_rune s = (r, w) \<Longrightarrow> w \<le> 4"
  by (cases s) (auto simp: decode_rune.simps Let_def split: if_splits list.splits)

lemma decode_rune_width4: "snd (decode_rune s) \<le> 4"
  using decode_rune_max by (metis prod.collapse)

lemma q_words_text:
  "length acc \<le> cur \<Longrightarrow> cur \<le> max_content_len \<Longrightarrow> q_text acc \<Longrightarrow>
   q_words acc cur s \<noteq> [] \<and> list_all (\<lambda>p. q_text p \<and> length p \<le> max_content_len) (q_words acc cur s)"
proof (induction acc cur s rule: q_words.induct)
  case (1 acc cur)
  then show ?case by simp
next
  case (2 acc cur c cs)
  define w where "w = (if c = CHR '' '' \<or> q_plain c then 1 else snd (decode_rune (c # cs)))"
  define enc where "enc = (if c = CHR '' '' \<or> q_plain c then 1 else 3 * w)"
  define piece where "piece = concat (map q_byte (take w (c # cs)))"
  have eq: "q_words acc cur (c # cs) = (if max_content_len < cur + enc then acc # q_words piece enc (drop (w - 1) cs)
      else q_words (acc @ piece) (cur + enc) (drop (w - 1) cs))"
    by (simp add: w_def enc_def piece_def Let_def)
  have "w \<le> 4" using decode_rune_width4 [of "c # cs"] by (simp add: w_def)
  then have e: "enc \<le> max_content_len" by (auto simp: max_content_len_def enc_def)
  have t: "q_text piece" "length piece \<le> 3 * length (take w (c # cs))"
    unfolding piece_def by (rule q_piece_text)+
  have l: "length piece \<le> enc"
  proof (cases "c = CHR '' '' \<or> q_plain c")
    case True
    then show ?thesis using q_byte_text(2) [of c] by (auto simp: piece_def w_def enc_def)
  next
    case False
    with t(2) show ?thesis by (auto simp: enc_def min_def split: if_splits)
  qed
  show ?case
  proof (cases "max_content_len < cur + enc")
    case True
    then have "q_words piece enc (drop (w - 1) cs) \<noteq> [] \<and>
        list_all (\<lambda>p. q_text p \<and> length p \<le> max_content_len) (q_words piece enc (drop (w - 1) cs))"
      using 2(1) [OF w_def enc_def piece_def] l e t(1) by blast
    with True 2(3-5) show ?thesis unfolding eq by (simp del: q_words.simps)
  next
    case False
    have "q_text (acc @ piece)" using 2(5) t(1) by (simp add: q_text_def)
    moreover have "length (acc @ piece) \<le> cur + enc" using l 2(3) by simp
    moreover have "cur + enc \<le> max_content_len" using False by simp
    ultimately have "q_words (acc @ piece) (cur + enc) (drop (w - 1) cs) \<noteq> [] \<and>
        list_all (\<lambda>p. q_text p \<and> length p \<le> max_content_len) (q_words (acc @ piece) (cur + enc) (drop (w - 1) cs))"
      using 2(2) [OF w_def enc_def piece_def False] by blast
    with False show ?thesis unfolding eq by (simp del: q_words.simps)
  qed
qed

definition encoded_word :: "string \<Rightarrow> string" where
  "encoded_word p = q_open @ p @ q_close"

lemma encoded_word_no_space: "q_text p \<Longrightarrow> CHR '' '' \<notin> set (encoded_word p)"
proof -
  assume "q_text p"
  then have p: "\<And>c. c \<in> set p \<Longrightarrow> 33 \<le> byte c" unfolding q_text_def list_all_iff by blast
  have "CHR '' '' \<notin> set p"
  proof
    assume "CHR '' '' \<in> set p"
    from p [OF this] show False by simp
  qed
  then show ?thesis unfolding encoded_word_def q_open_def q_close_def by simp
qed

lemma no_fold_before_space:
  assumes "CHR '' '' \<notin> set u" "i + 2 < length u"
  shows "\<not> prefix ''?= =?'' (drop i (u @ v))"
proof
  assume "prefix ''?= =?'' (drop i (u @ v))"
  then obtain t where "drop i (u @ v) = ''?= =?'' @ t" by (auto simp: prefix_def)
  then have "drop i (u @ v) ! 2 = CHR '' ''" by simp
  moreover have "drop i (u @ v) ! 2 = u ! (i + 2)"
    using assms(2) by (simp del: drop_append add: nth_append)
  ultimately show False using assms by (metis nth_mem)
qed

abbreviation fold_text :: "string \<Rightarrow> string" where
  "fold_text \<equiv> replace_all ''?= =?'' (''?='' @ crlf_seq @ '' =?'')"

lemma fold_text_word_start: "fold_text (''=?u'' @ t) = ''=?u'' @ fold_text t"
  by (simp add: replace_all_miss)

lemma fold_text_gap: "fold_text (''?= =?u'' @ t) = ''?='' @ fold_sep @ ''=?u'' @ fold_text t"
proof -
  have "fold_text (''?= =?'' @ CHR ''u'' # t) = (''?='' @ crlf_seq @ '' =?'') @ fold_text (CHR ''u'' # t)"
    by (rule replace_all_hit) simp
  then show ?thesis by (simp add: replace_all_miss)
qed

lemma encoded_word_parts: "encoded_word p = (q_open @ p) @ ''?=''" "\<exists>t. encoded_word p = ''=?u'' @ t"
  by (simp_all add: encoded_word_def q_open_def q_close_def)

lemma fold_text_word:
  assumes "q_text p"
  shows "fold_text (encoded_word p) = encoded_word p"
proof -
  have p: "CHR '' '' \<notin> set (encoded_word p)" using assms by (rule encoded_word_no_space)
  have "fold_text (encoded_word p @ []) = encoded_word p @ fold_text []"
  proof (rule replace_all_skip [of "encoded_word p" _ "[]"])
    fix i
    show "\<not> prefix ''?= =?'' (drop i (encoded_word p @ []))"
    proof
      assume "prefix ''?= =?'' (drop i (encoded_word p @ []))"
      then have "CHR '' '' \<in> set (drop i (encoded_word p))" by (auto simp: prefix_def)
      with p show False by (meson in_set_dropD)
    qed
  qed
  moreover have "fold_text [] = []" by (simp add: replace_all.simps)
  ultimately show ?thesis by simp
qed

lemma fold_text_join:
  assumes "q_text p"
  shows "fold_text (encoded_word p @ '' '' @ ''=?u'' @ t) = encoded_word p @ fold_sep @ ''=?u'' @ fold_text t"
proof -
  let ?u = "q_open @ p"
  have p: "CHR '' '' \<notin> set (encoded_word p)" using assms by (rule encoded_word_no_space)
  have "fold_text (?u @ ''?= =?u'' @ t) = ?u @ fold_text (''?= =?u'' @ t)"
  proof (rule replace_all_skip [of ?u _ "''?= =?u'' @ t"])
    fix i assume i: "i < length ?u"
    have "\<not> prefix ''?= =?'' (drop i (encoded_word p @ '' =?u'' @ t))"
      by (rule no_fold_before_space [OF p]) (use i in \<open>simp add: encoded_word_parts(1)\<close>)
    then show "\<not> prefix ''?= =?'' (drop i (?u @ ''?= =?u'' @ t))" by (simp add: encoded_word_parts(1))
  qed
  then show ?thesis by (simp only: fold_text_gap) (simp add: encoded_word_parts(1))
qed

lemma join_words_start:
  assumes "ps \<noteq> []"
  shows "\<exists>t. join_with sep (map encoded_word ps) = ''=?u'' @ t"
proof -
  from assms obtain q qs where q: "ps = q # qs" by (cases ps) auto
  obtain t where t: "encoded_word q = ''=?u'' @ t" using encoded_word_parts(2) by blast
  show ?thesis
  proof (cases qs)
    case Nil
    with q t show ?thesis by auto
  next
    case (Cons r rs)
    with q t have "join_with sep (map encoded_word ps) = ''=?u'' @ (t @ sep @ join_with sep (map encoded_word qs))" by simp
    then show ?thesis by blast
  qed
qed

lemma fold_words:
  assumes "ps \<noteq> []" "list_all q_text ps"
  shows "fold_text (join_with '' '' (map encoded_word ps)) = join_with fold_sep (map encoded_word ps)"
  using assms
proof (induction ps)
  case (Cons p ps)
  then have p: "q_text p" by simp
  show ?case
  proof (cases "ps = []")
    case True
    with fold_text_word [OF p] show ?thesis by simp
  next
    case False
    then have ps: "map encoded_word ps \<noteq> []" by simp
    obtain t where t: "join_with '' '' (map encoded_word ps) = ''=?u'' @ t" using join_words_start [OF False] by blast
    have "fold_text (''=?u'' @ t) = join_with fold_sep (map encoded_word ps)"
      using Cons.IH False Cons.prems(2) t by simp
    then have ih: "''=?u'' @ fold_text t = join_with fold_sep (map encoded_word ps)" by (simp only: fold_text_word_start)
    have "join_with '' '' (map encoded_word (p # ps)) = encoded_word p @ '' '' @ ''=?u'' @ t"
      using join_with_Cons [OF ps, of "'' ''" "encoded_word p"] by (simp only: t list.map)
    then have "fold_text (join_with '' '' (map encoded_word (p # ps))) = encoded_word p @ fold_sep @ ''=?u'' @ fold_text t"
      by (simp only: fold_text_join [OF p])
    then show ?thesis
      using join_with_Cons [OF ps, of fold_sep "encoded_word p"] by (simp only: ih list.map)
  qed
qed simp

text \<open>A subject cannot break out of its header line. The only line breaks in the encoded subject are folds,
  each followed by a space, so no subject can add a header or end the header block; and a subject that needs
  encoding is folded into words of at most 75 printable characters, so no line nears the limit of RFC 5322.\<close>

theorem subject_stays_in_header:
  "if needs_encoding s
   then \<exists>ps. encode_subject s = join_with fold_sep (map encoded_word ps) \<and>
          list_all (\<lambda>p. q_text p \<and> length (encoded_word p) \<le> 75) ps
   else \<exists>ws. encode_subject s = join_with fold_sep ws \<and> list_all no_break ws"
proof (cases "needs_encoding s")
  case True
  have q: "q_words [] 0 s \<noteq> []" "list_all (\<lambda>p. q_text p \<and> length p \<le> max_content_len) (q_words [] 0 s)"
    using q_words_text [of "[]" 0 s] by (simp_all add: q_text_def)
  then have "encode_subject s = join_with fold_sep (map encoded_word (q_words [] 0 s))"
    using True fold_words [of "q_words [] 0 s"]
    by (simp add: encode_subject_def q_encode_def encoded_word_def [abs_def] list_all_iff)
  moreover have "list_all (\<lambda>p. q_text p \<and> length (encoded_word p) \<le> 75) (q_words [] 0 s)"
    using q(2) by (auto simp: list_all_iff encoded_word_def q_open_def q_close_def max_content_len_def)
  ultimately show ?thesis using True by auto
next
  case False
  have "no_break s"
  proof -
    have "byte c \<in> set (runes s)" if "c \<in> set s" "byte c < 128" for c using set_runes_ascii that by simp
    then show ?thesis
      using False unfolding no_break_def needs_encoding_def list_ex_iff by fastforce
  qed
  from fold_pieces [OF this] False show ?thesis by (auto simp: encode_subject_def q_encode_def)
qed

end
