(* ===== verification/Graphmail.thy ===== *)
theory Graphmail
  imports Mime_Compose Msapi "HOL-Library.List_Lexorder" "HOL-Library.Char_ord"
begin

text \<open>
  \<open>internal/graphmail/graphmail.go\<close> and \<open>upload.go\<close>: the two ways a message goes out through Microsoft Graph, and
  the JSON bodies \<open>encoding/json\<close> writes for the second. The files do not change while one message is sent.
\<close>

section \<open>JSON bodies\<close>

datatype json = JString string | JInt int | JArray "json list" | JObject "(string \<times> json) list"

definition int_text :: "int \<Rightarrow> string" where
  "int_text n = (if n < 0 then ''-'' @ dec (nat (- n)) else dec (nat n))"

text \<open>A Go map is written with its keys in order.\<close>

fun json_encode :: "json \<Rightarrow> string" where
  "json_encode (JString s) = json_string s"
| "json_encode (JInt n) = int_text n"
| "json_encode (JArray js) = ''['' @ join_with '','' (map json_encode js) @ '']''"
| "json_encode (JObject kvs) =
     [CHR 0x7B] @ join_with '','' (map snd (sort_key fst (map (\<lambda>(k, v). (k, json_string k @ '':'' @ json_encode v)) kvs))) @
     [CHR 0x7D]"

section \<open>The client\<close>

record graph_client =
  gc_base_url :: string
  gc_sender :: string
  gc_large_scans :: bool

datatype graph_error =
    StatFailed | TooLarge | OpenFailed | GraphRequest do_error | BadReply | NoUploadUrl

text \<open>
  What surrounds one send: the network, the JSON decoder of one string field (absent is empty), the clock's date
  line, the boundary the multipart writer drew, the files.
\<close>

record 'h graph_env =
  ge_net :: "'h net"
  ge_field :: "string \<Rightarrow> response \<Rightarrow> string option"
  ge_date :: string
  ge_boundary :: string
  ge_files :: "path \<Rightarrow> string option"

definition mailbox_url :: "graph_client \<Rightarrow> string" where
  "mailbox_url c = gc_base_url c @ ''/users/'' @ path_escape (gc_sender c)"

definition post_message :: "'h graph_env \<Rightarrow> graph_client \<Rightarrow> string \<Rightarrow> 'h http \<Rightarrow> graph_error option \<times> 'h http" where
  "post_message E c body w =
     (case do_request (ge_net E)
             (\<lambda>_. new_request Authorized ''POST'' (mailbox_url c @ ''/sendMail'') [(''Content-Type'', ''text/plain'')] body) w of
        (Inl e, w1) \<Rightarrow> (Some (GraphRequest e), w1)
      | (Inr r, w1) \<Rightarrow> (None, w1))"

text \<open>\<open>postJSON\<close>, giving the response for the caller to decode.\<close>

definition post_json :: "'h graph_env \<Rightarrow> graph_client \<Rightarrow> string \<Rightarrow> json option \<Rightarrow> 'h http \<Rightarrow> (graph_error + response) \<times> 'h http" where
  "post_json E c path body w =
     (let raw = (case body of None \<Rightarrow> [] | Some j \<Rightarrow> json_encode j);
          hs = (case body of None \<Rightarrow> [] | Some _ \<Rightarrow> [(''Content-Type'', ''application/json'')])
      in case do_request (ge_net E) (\<lambda>_. new_request Authorized ''POST'' (mailbox_url c @ path) hs raw) w of
           (Inl e, w1) \<Rightarrow> (Inl (GraphRequest e), w1)
         | (Inr r, w1) \<Rightarrow> (Inr r, w1))"

definition post_json_field ::
  "'h graph_env \<Rightarrow> graph_client \<Rightarrow> string \<Rightarrow> json \<Rightarrow> string \<Rightarrow> 'h http \<Rightarrow> (graph_error + string) \<times> 'h http" where
  "post_json_field E c path body fld w =
     (case post_json E c path (Some body) w of
        (Inl e, w1) \<Rightarrow> (Inl e, w1)
      | (Inr r, w1) \<Rightarrow> (case ge_field E fld r of None \<Rightarrow> (Inl BadReply, w1) | Some v \<Rightarrow> (Inr v, w1)))"

definition post_json_ignore ::
  "'h graph_env \<Rightarrow> graph_client \<Rightarrow> string \<Rightarrow> json option \<Rightarrow> 'h http \<Rightarrow> graph_error option \<times> 'h http" where
  "post_json_ignore E c path body w =
     (case post_json E c path body w of (Inl e, w1) \<Rightarrow> (Some e, w1) | (Inr r, w1) \<Rightarrow> (None, w1))"

section \<open>The upload path\<close>

definition upload_chunk_bytes :: nat where "upload_chunk_bytes = 3840 * 1024"
definition attachment_floor_bytes :: nat where "attachment_floor_bytes = 3 * 1024 * 1024"

definition content_range :: "nat \<Rightarrow> nat \<Rightarrow> nat \<Rightarrow> string" where
  "content_range off n sz = ''bytes '' @ dec off @ ''-'' @ dec (off + n - 1) @ ''/'' @ dec sz"

definition chunk_request :: "string \<Rightarrow> nat \<Rightarrow> nat \<Rightarrow> string \<Rightarrow> request option" where
  "chunk_request u off sz chunk =
     new_request PlainClient ''PUT'' u
       [(''Content-Type'', ''application/octet-stream''), (''Content-Range'', content_range off (length chunk) sz)] chunk"

text \<open>The loop over the chunks; \<open>rest\<close> is the file from \<open>off\<close> on.\<close>

function upload_chunks ::
  "'h net \<Rightarrow> string \<Rightarrow> nat \<Rightarrow> nat \<Rightarrow> string \<Rightarrow> 'h http \<Rightarrow> graph_error option \<times> 'h http" where
  "upload_chunks N u sz off rest w =
     (if rest = [] then (None, w)
      else let chunk = take upload_chunk_bytes rest in
        (case do_request N (\<lambda>_. chunk_request u off sz chunk) w of
           (Inl e, w1) \<Rightarrow> (Some (GraphRequest e), w1)
         | (Inr r, w1) \<Rightarrow> upload_chunks N u sz (off + length chunk) (drop upload_chunk_bytes rest) w1))"
  by pat_completeness auto
termination
  by (relation "measure (\<lambda>(N, u, sz, off, rest, w). length rest)") (auto simp: upload_chunk_bytes_def)

declare upload_chunks.simps [simp del]

definition draft_json :: "message \<Rightarrow> json" where
  "draft_json m = JObject
     [(''subject'', JString (ms_subject m)),
      (''body'', JObject [(''contentType'', JString ''Text''), (''content'', JString (ms_body m))]),
      (''toRecipients'', JArray (map (\<lambda>a. JObject [(''emailAddress'', JObject [(''address'', JString a)])]) (ms_to m)))]"

definition create_draft :: "'h graph_env \<Rightarrow> graph_client \<Rightarrow> message \<Rightarrow> 'h http \<Rightarrow> (graph_error + string) \<times> 'h http" where
  "create_draft E c m w = post_json_field E c ''/messages'' (draft_json m) ''id'' w"

definition attach :: "'h graph_env \<Rightarrow> graph_client \<Rightarrow> string \<Rightarrow> attachment \<Rightarrow> 'h http \<Rightarrow> graph_error option \<times> 'h http" where
  "attach E c draft a w =
     (case ge_files E (at_path a) of
        None \<Rightarrow> (Some OpenFailed, w)
      | Some content \<Rightarrow>
          if length content < attachment_floor_bytes then
            post_json_ignore E c (''/messages/'' @ path_escape draft @ ''/attachments'')
              (Some (JObject [(''@odata.type'', JString ''#microsoft.graph.fileAttachment''), (''name'', JString (at_name a)),
                              (''contentBytes'', JString (std_encode (map byte content)))])) w
          else
            (case post_json_field E c (''/messages/'' @ path_escape draft @ ''/attachments/createUploadSession'')
                    (JObject [(''AttachmentItem'', JObject [(''attachmentType'', JString ''file''), (''name'', JString (at_name a)),
                               (''size'', JInt (int (length content)))])]) ''uploadUrl'' w of
               (Inl e, w1) \<Rightarrow> (Some e, w1)
             | (Inr u, w1) \<Rightarrow>
                 if u = [] then (Some NoUploadUrl, w1)
                 else upload_chunks (ge_net E) u (length content) 0 content w1))"

fun attach_all :: "'h graph_env \<Rightarrow> graph_client \<Rightarrow> string \<Rightarrow> attachment list \<Rightarrow> 'h http \<Rightarrow> graph_error option \<times> 'h http" where
  "attach_all E c draft [] w = (None, w)"
| "attach_all E c draft (a # as) w =
     (case attach E c draft a w of
        (Some e, w1) \<Rightarrow> (Some e, w1)
      | (None, w1) \<Rightarrow> attach_all E c draft as w1)"

definition send_large :: "'h graph_env \<Rightarrow> graph_client \<Rightarrow> message \<Rightarrow> 'h http \<Rightarrow> graph_error option \<times> 'h http" where
  "send_large E c m w =
     (case create_draft E c m w of
        (Inl e, w1) \<Rightarrow> (Some e, w1)
      | (Inr draft, w1) \<Rightarrow>
          (case attach_all E c draft (ms_attachments m) w1 of
             (Some e, w2) \<Rightarrow> (Some e, w2)
           | (None, w2) \<Rightarrow> post_json_ignore E c (''/messages/'' @ path_escape draft @ ''/send'') None w2))"

section \<open>Send\<close>

fun attached_bytes :: "(path \<Rightarrow> string option) \<Rightarrow> attachment list \<Rightarrow> int option" where
  "attached_bytes fs [] = Some 0"
| "attached_bytes fs (a # as) =
     (case fs (at_path a) of
        None \<Rightarrow> None
      | Some content \<Rightarrow> map_option (\<lambda>n. int (length content) + n) (attached_bytes fs as))"

definition encoded_len :: "nat \<Rightarrow> nat" where
  "encoded_len n = (n + 2) div 3 * 4"

definition send :: "'h graph_env \<Rightarrow> graph_client \<Rightarrow> message \<Rightarrow> 'h http \<Rightarrow> graph_error option \<times> 'h http" where
  "send E c m w =
     (case attached_bytes (ge_files E) (ms_attachments m) of
        None \<Rightarrow> (Some StatFailed, w)
      | Some attached \<Rightarrow>
          if max_attachment_bytes < attached then
            (if \<not> gc_large_scans c then (Some TooLarge, w) else send_large E c m w)
          else
            (case build_message (ge_files E) (ge_date E) (ge_boundary E) (gc_sender c) m of
               None \<Rightarrow> (Some OpenFailed, w)
             | Some raw \<Rightarrow>
                 if max_graph_message_bytes < int (encoded_len (length raw)) then
                   (if gc_large_scans c then send_large E c m w else (Some TooLarge, w))
                 else post_message E c (std_encode (map byte raw)) w))"

end
