(* ===== verification/Graphmail_Properties.thy ===== *)
theory Graphmail_Properties
  imports Graphmail Msapi_Properties Pipeline
begin

text \<open>
  The mail client: what it sends and to whom, which of its two ways a message takes, that an upload delivers the
  file, and that a draft is only sent with everything in it.
\<close>

section \<open>Sizes\<close>

lemma std_encode_length: "length (std_encode bs) = encoded_len (length bs)"
proof -
  obtain q r where n: "length bs = 3 * q + r" "r < 3" by (metis mult_div_mod_eq mod_less_divisor zero_less_numeral)
  have "(3 * q + r) mod 3 = r" "(3 * q + r + 2) div 3 = q + (r + 2) div 3" using n(2) by simp_all
  then have len: "length (std_encode bs) = 3 * q + r + (q + (r + 2) div 3) + (if r = 1 then 2 else if r = 2 then 1 else 0)"
    "encoded_len (length bs) = (q + (r + 2) div 3) * 4"
    by (simp_all only: std_encode_def length_sextets encoded_len_def n(1) length_append length_map) simp
  from n(2) consider "r = 0" | "r = 1" | "r = 2" by linarith
  then show ?thesis using len by cases simp_all
qed

section \<open>The requests of the client\<close>

definition send_mail_url :: "graph_client \<Rightarrow> string" where
  "send_mail_url c = mailbox_url c @ ''/sendMail''"

text \<open>
  A request of the client: one with its token, to a resource of its own mailbox, or one without, which carries a
  chunk of a file. Each is of a size the service takes in one request.
\<close>

definition graph_request :: "graph_client \<Rightarrow> request \<Rightarrow> bool" where
  "graph_request c rq \<longleftrightarrow>
     (case rq_client rq of
        Authorized \<Rightarrow> rq_method rq = ''POST'' \<and> prefix (mailbox_url c @ ''/'') (rq_url rq)
      | PlainClient \<Rightarrow> rq_method rq = ''PUT'' \<and> map fst (rq_headers rq) = [''Content-Type'', ''Content-Range''])"

definition fitting :: "graph_client \<Rightarrow> request \<Rightarrow> bool" where
  "fitting c rq \<longleftrightarrow>
     (case rq_client rq of
        Authorized \<Rightarrow> rq_url rq = send_mail_url c \<longrightarrow> length (rq_body rq) \<le> 4194304
      | PlainClient \<Rightarrow> length (rq_body rq) \<le> 3932160)"

abbreviation sound_request :: "graph_client \<Rightarrow> request \<Rightarrow> bool" where
  "sound_request c rq \<equiv> graph_request c rq \<and> fitting c rq"

lemma do_request_grown:
  assumes "\<And>i rq. mk i = Some rq \<Longrightarrow> ok rq"
  shows "grown ht_log ok w (snd (do_request N mk w))"
proof -
  obtain res w' where d: "do_request N mk w = (res, w')" by (cases "do_request N mk w")
  then obtain rqs where "ht_log w' = ht_log w @ rqs" "list_all (\<lambda>rq. \<exists>i. mk i = Some rq) rqs" by (rule do_request_sends)
  with assms d show ?thesis by (auto simp: grown_def list_all_iff)
qed

lemma fixed_request_grown:
  assumes "ok \<lparr>rq_client = cl, rq_method = meth, rq_url = u, rq_headers = hs, rq_body = body\<rparr>"
  shows "grown ht_log ok w (snd (do_request N (\<lambda>_. new_request cl meth u hs body) w))"
  by (rule do_request_grown) (use assms in \<open>simp add: new_request_def split: if_splits\<close>)

lemma post_json_log:
  assumes "\<And>rq. rq_client rq = Authorized \<Longrightarrow> rq_method rq = ''POST'' \<Longrightarrow> rq_url rq = mailbox_url c @ path \<Longrightarrow> ok rq"
  shows "grown ht_log ok w (snd (post_json E c path body w))"
proof -
  define hs :: "(string \<times> string) list" where "hs = (case body of None \<Rightarrow> [] | Some _ \<Rightarrow> [(''Content-Type'', ''application/json'')])"
  define raw where "raw = (case body of None \<Rightarrow> [] | Some j \<Rightarrow> json_encode j)"
  let ?mk = "\<lambda>_ :: nat. new_request Authorized ''POST'' (mailbox_url c @ path) hs raw"
  have "snd (post_json E c path body w) = snd (do_request (ge_net E) ?mk w)"
    by (simp add: post_json_def Let_def hs_def raw_def split: prod.splits sum.splits)
  moreover have "grown ht_log ok w (snd (do_request (ge_net E) ?mk w))"
    by (rule fixed_request_grown, rule assms) simp_all
  ultimately show ?thesis by simp
qed

lemma post_json_field_snd: "snd (post_json_field E c path body fld w) = snd (post_json E c path (Some body) w)"
  by (auto simp: post_json_field_def split: prod.splits sum.splits option.splits)

lemma post_json_ignore_snd: "snd (post_json_ignore E c path body w) = snd (post_json E c path body w)"
  by (auto simp: post_json_ignore_def split: prod.splits sum.splits)

lemma messages_request_sound:
  assumes "rq_client rq = Authorized" "rq_method rq = ''POST''" "rq_url rq = mailbox_url c @ ''/messages'' @ path"
  shows "sound_request c rq"
proof -
  have "rq_url rq \<noteq> send_mail_url c" by (simp add: assms(3) send_mail_url_def)
  moreover have "prefix (mailbox_url c @ ''/'') (rq_url rq)" by (simp add: assms(3))
  ultimately show ?thesis using assms(1,2) by (simp add: graph_request_def fitting_def)
qed

lemma post_json_sound: "grown ht_log (sound_request c) w (snd (post_json E c (''/messages'' @ path) body w))"
  by (rule post_json_log) (rule messages_request_sound)

lemma post_message_log:
  "grown ht_log (\<lambda>rq. rq_client rq = Authorized \<and> rq_method rq = ''POST'' \<and> rq_url rq = send_mail_url c \<and> rq_body rq = body)
     w (snd (post_message E c body w))"
proof -
  let ?mk = "\<lambda>_ :: nat. new_request Authorized ''POST'' (send_mail_url c) [(''Content-Type'', ''text/plain'')] body"
  have "snd (post_message E c body w) = snd (do_request (ge_net E) ?mk w)"
    by (simp add: post_message_def send_mail_url_def split: prod.splits sum.splits)
  then show ?thesis by (simp only:) (rule fixed_request_grown, simp)
qed

text \<open>A chunk of a file: without a token, and small.\<close>

definition chunk_put :: "request \<Rightarrow> bool" where
  "chunk_put rq \<longleftrightarrow> rq_client rq = PlainClient \<and> rq_method rq = ''PUT'' \<and>
     map fst (rq_headers rq) = [''Content-Type'', ''Content-Range''] \<and> length (rq_body rq) \<le> 3932160"

lemma upload_chunks_log: "grown ht_log chunk_put w (snd (upload_chunks N u sz off rest w))"
proof (induction N u sz off rest w rule: upload_chunks.induct)
  case (1 N u sz off rest w)
  show ?case
  proof (cases "rest = []")
    case True
    then show ?thesis by (simp add: upload_chunks.simps)
  next
    case False
    let ?chunk = "take upload_chunk_bytes rest"
    let ?mk = "\<lambda>_ :: nat. chunk_request u off sz ?chunk"
    have g: "grown ht_log chunk_put w (snd (do_request N ?mk w))"
      unfolding chunk_request_def by (rule fixed_request_grown) (simp add: chunk_put_def upload_chunk_bytes_def)
    obtain r w1 where d: "do_request N ?mk w = (r, w1)" by (cases "do_request N ?mk w")
    show ?thesis
    proof (cases r)
      case (Inl e)
      with g d False show ?thesis by (subst upload_chunks.simps) simp
    next
      case (Inr rs)
      have "grown ht_log chunk_put w1 (snd (upload_chunks N u sz (off + length ?chunk) (drop upload_chunk_bytes rest) w1))"
        using 1 [OF False refl d [symmetric] Inr] .
      with grown_trans [OF g] d have g2: "grown ht_log chunk_put w
          (snd (upload_chunks N u sz (off + length ?chunk) (drop upload_chunk_bytes rest) w1))" by simp
      have "upload_chunks N u sz off rest w = upload_chunks N u sz (off + length ?chunk) (drop upload_chunk_bytes rest) w1"
        using d Inr False by (subst upload_chunks.simps) (simp add: Let_def)
      with g2 show ?thesis by simp
    qed
  qed
qed

definition attachments_post :: "graph_client \<Rightarrow> string \<Rightarrow> request \<Rightarrow> bool" where
  "attachments_post c draft rq \<longleftrightarrow> rq_client rq = Authorized \<and> rq_method rq = ''POST'' \<and>
     (\<exists>rest. rq_url rq = mailbox_url c @ ''/messages/'' @ path_escape draft @ ''/attachments'' @ rest)"

text \<open>\<open>attach\<close>, way by way.\<close>

lemma attach_cases:
  assumes "attach E c draft a w = (r, w')"
  obtains (unopened) "ge_files E (at_path a) = None" "r = Some OpenFailed" "w' = w"
  | (posted) body where "post_json_ignore E c (''/messages/'' @ path_escape draft @ ''/attachments'' @ []) (Some body) w = (r, w')"
  | (no_session) body e where
      "post_json_field E c (''/messages/'' @ path_escape draft @ ''/attachments'' @ ''/createUploadSession'') body
         ''uploadUrl'' w = (Inl e, w')" "r = Some e"
  | (no_address) body where
      "post_json_field E c (''/messages/'' @ path_escape draft @ ''/attachments'' @ ''/createUploadSession'') body
         ''uploadUrl'' w = (Inr [], w')" "r = Some NoUploadUrl"
  | (chunked) body u w1 content where
      "post_json_field E c (''/messages/'' @ path_escape draft @ ''/attachments'' @ ''/createUploadSession'') body
         ''uploadUrl'' w = (Inr u, w1)" "u \<noteq> []" "ge_files E (at_path a) = Some content"
      "upload_chunks (ge_net E) u (length content) 0 content w1 = (r, w')"
proof (cases "ge_files E (at_path a)")
  case None
  with assms unopened show thesis by (simp add: attach_def)
next
  case (Some content)
  show thesis
  proof (cases "length content < attachment_floor_bytes")
    case True
    with assms Some posted show thesis by (simp add: attach_def)
  next
    case False
    define body where "body = JObject [(''AttachmentItem'', JObject [(''attachmentType'', JString ''file''),
        (''name'', JString (at_name a)), (''size'', JInt (int (length content)))])]"
    define path where "path = ''/messages/'' @ path_escape draft @ ''/attachments'' @ ''/createUploadSession''"
    obtain q w1 where p: "post_json_field E c path body ''uploadUrl'' w = (q, w1)"
      by (cases "post_json_field E c path body ''uploadUrl'' w")
    have eq: "attach E c draft a w =
        (case q of Inl e \<Rightarrow> (Some e, w1)
         | Inr u \<Rightarrow> if u = [] then (Some NoUploadUrl, w1) else upload_chunks (ge_net E) u (length content) 0 content w1)"
      using Some False p by (simp add: attach_def body_def path_def)
    show thesis
    proof (cases q)
      case (Inl e)
      with eq assms no_session p path_def show thesis by simp
    next
      case (Inr u)
      show thesis
      proof (cases "u = []")
        case True
        with Inr eq assms no_address p path_def show thesis by simp
      next
        case False
        with Inr eq assms have "upload_chunks (ge_net E) u (length content) 0 content w1 = (r, w')" by simp
        from chunked [OF _ False Some this] p Inr path_def show thesis by simp
      qed
    qed
  qed
qed

lemma attachments_json_log: "grown ht_log (attachments_post c draft) w
    (snd (post_json E c (''/messages/'' @ path_escape draft @ ''/attachments'' @ rest) body w))"
  by (rule post_json_log) (unfold attachments_post_def, intro conjI exI)

lemma attachments_ignore_log:
  assumes "post_json_ignore E c (''/messages/'' @ path_escape draft @ ''/attachments'' @ rest) body w = (r, w')"
  shows "grown ht_log (attachments_post c draft) w w'"
  using attachments_json_log [of c draft w E rest body] unfolding post_json_ignore_snd [symmetric] assms snd_conv .

lemma attachments_field_log:
  assumes "post_json_field E c (''/messages/'' @ path_escape draft @ ''/attachments'' @ rest) body fld w = (r, w')"
  shows "grown ht_log (attachments_post c draft) w w'"
  using attachments_json_log [of c draft w E rest "Some body"]
  unfolding post_json_field_snd [symmetric, where fld = fld] assms snd_conv .

lemma attach_log:
  assumes "attach E c draft a w = (r, w')"
  shows "grown ht_log (\<lambda>rq. attachments_post c draft rq \<or> chunk_put rq) w w'" (is "grown _ ?ok _ _")
proof -
  have ok: "grown ht_log ?ok v v'" if "grown ht_log (attachments_post c draft) v v'" for v v' :: "'a http"
    using that by (rule grown_mono) simp
  from assms show ?thesis
  proof (cases rule: attach_cases)
    case unopened
    then show ?thesis by simp
  next
    case (posted body)
    from attachments_ignore_log [OF posted] show ?thesis by (rule ok)
  next
    case (no_session body e)
    from attachments_field_log [OF no_session(1)] show ?thesis by (rule ok)
  next
    case (no_address body)
    from attachments_field_log [OF no_address(1)] show ?thesis by (rule ok)
  next
    case (chunked body u w1 content)
    from attachments_field_log [OF chunked(1)] have "grown ht_log ?ok w w1" by (rule ok)
    also have "grown ht_log chunk_put w1 w'"
      using upload_chunks_log [of w1 "ge_net E" u "length content" 0 content] chunked(4) by simp
    then have "grown ht_log ?ok w1 w'" by (rule grown_mono) simp
    finally show ?thesis .
  qed
qed

lemma attach_sound: "grown ht_log (sound_request c) w (snd (attach E c draft a w))"
proof (rule grown_mono [OF attach_log [OF prod.collapse [symmetric]]])
  fix rq assume "attachments_post c draft rq \<or> chunk_put rq"
  then show "sound_request c rq"
  proof
    assume "attachments_post c draft rq"
    then obtain rest where "rq_client rq = Authorized" "rq_method rq = ''POST''"
      "rq_url rq = mailbox_url c @ ''/messages'' @ (''/'' @ path_escape draft @ ''/attachments'' @ rest)"
      by (auto simp: attachments_post_def)
    then show ?thesis by (rule messages_request_sound)
  qed (simp add: chunk_put_def graph_request_def fitting_def)
qed

lemma attach_all_sound: "grown ht_log (sound_request c) w (snd (attach_all E c draft as w))"
proof (induction as arbitrary: w)
  case (Cons a as)
  obtain e w1 where a: "attach E c draft a w = (e, w1)" by (cases "attach E c draft a w")
  from attach_sound [of c w E draft a] a have g: "grown ht_log (sound_request c) w w1" by simp
  show ?case using grown_trans [OF g Cons.IH [of w1]] g a by (cases e) simp_all
qed simp

lemma create_draft_sound: "grown ht_log (sound_request c) w (snd (create_draft E c m w))"
  using post_json_sound [of c w E "[]"] by (simp add: create_draft_def post_json_field_snd)

lemma send_draft_sound:
  "grown ht_log (sound_request c) w (snd (post_json_ignore E c (''/messages/'' @ path_escape draft @ ''/send'') None w))"
  using post_json_sound [of c w E "''/'' @ path_escape draft @ ''/send''"] by (simp add: post_json_ignore_snd)

text \<open>\<open>sendLarge\<close>, ending by ending.\<close>

lemma send_large_cases:
  assumes "send_large E c m w = (r, w')"
  obtains (no_draft) e where "create_draft E c m w = (Inl e, w')" "r = Some e"
  | (unattached) d w1 e where "create_draft E c m w = (Inr d, w1)"
      "attach_all E c d (ms_attachments m) w1 = (Some e, w')" "r = Some e"
  | (draft_sent) d w1 w2 where "create_draft E c m w = (Inr d, w1)" "attach_all E c d (ms_attachments m) w1 = (None, w2)"
      "post_json_ignore E c (''/messages/'' @ path_escape d @ ''/send'') None w2 = (r, w')"
  using assms unfolding send_large_def by (auto split: prod.splits sum.splits option.splits)

lemma send_large_sound: "grown ht_log (sound_request c) w (snd (send_large E c m w))"
proof -
  obtain r w' where "send_large E c m w = (r, w')" by (cases "send_large E c m w")
  then show ?thesis
  proof (cases rule: send_large_cases)
    case no_draft
    with create_draft_sound [of c w E m] \<open>send_large E c m w = (r, w')\<close> show ?thesis by simp
  next
    case (unattached d w1 e)
    have "grown ht_log (sound_request c) w w1" "grown ht_log (sound_request c) w1 w'"
      using create_draft_sound [of c w E m] attach_all_sound [of c w1 E d "ms_attachments m"] unattached by simp_all
    from grown_trans [OF this] \<open>send_large E c m w = (r, w')\<close> show ?thesis by simp
  next
    case (draft_sent d w1 w2)
    have "grown ht_log (sound_request c) w w1" "grown ht_log (sound_request c) w1 w2"
      using create_draft_sound [of c w E m] attach_all_sound [of c w1 E d "ms_attachments m"] draft_sent by simp_all
    note w2 = grown_trans [OF this]
    have "grown ht_log (sound_request c) w2 w'" using send_draft_sound [of c w2 E d] draft_sent(3) by simp
    from grown_trans [OF w2 this] show ?thesis using \<open>send_large E c m w = (r, w')\<close> by simp
  qed
qed

section \<open>Which way a message takes\<close>

definition oversized :: "'h graph_env \<Rightarrow> graph_client \<Rightarrow> message \<Rightarrow> bool" where
  "oversized E c m \<longleftrightarrow>
     (case attached_bytes (ge_files E) (ms_attachments m) of
        None \<Rightarrow> False
      | Some n \<Rightarrow> max_attachment_bytes < n \<or>
          (case build_message (ge_files E) (ge_date E) (ge_boundary E) (gc_sender c) m of
             None \<Rightarrow> False
           | Some raw \<Rightarrow> max_graph_message_bytes < int (encoded_len (length raw))))"

lemma send_oversized:
  "oversized E c m \<Longrightarrow> send E c m w = (if gc_large_scans c then send_large E c m w else (Some TooLarge, w))"
  by (auto simp: oversized_def send_def split: option.splits)

lemma send_fitting:
  assumes "\<not> oversized E c m"
  shows "(snd (send E c m w) = w \<and> fst (send E c m w) \<noteq> None \<and> fst (send E c m w) \<noteq> Some TooLarge) \<or>
    (\<exists>raw. build_message (ge_files E) (ge_date E) (ge_boundary E) (gc_sender c) m = Some raw \<and>
       encoded_len (length raw) \<le> 4194304 \<and> send E c m w = post_message E c (std_encode (map byte raw)) w)"
  using assms unfolding oversized_def send_def max_graph_message_bytes_def
  by (auto split: option.splits)

lemma post_message_error: "fst (post_message E c body w) \<noteq> Some TooLarge"
  by (auto simp: post_message_def split: prod.splits sum.splits)

lemma send_fitting_grown:
  assumes "\<not> oversized E c m"
  shows "grown ht_log (\<lambda>rq. rq_client rq = Authorized \<and> rq_method rq = ''POST'' \<and> rq_url rq = send_mail_url c \<and>
            length (rq_body rq) \<le> 4194304) w (snd (send E c m w))"
    (is "grown _ ?ok _ _")
  using send_fitting [OF assms]
proof
  assume "\<exists>raw. build_message (ge_files E) (ge_date E) (ge_boundary E) (gc_sender c) m = Some raw \<and>
       encoded_len (length raw) \<le> 4194304 \<and> send E c m w = post_message E c (std_encode (map byte raw)) w"
  then obtain raw where raw: "encoded_len (length raw) \<le> 4194304"
    "send E c m w = post_message E c (std_encode (map byte raw)) w" by blast
  have "length (std_encode (map byte raw)) \<le> 4194304" using raw(1) by (simp add: std_encode_length)
  then show ?thesis
    unfolding raw(2) by (intro grown_mono [OF post_message_log]) auto
qed simp


lemma send_sound: "grown ht_log (sound_request c) w (snd (send E c m w))"
proof (cases "oversized E c m")
  case True
  then show ?thesis by (simp add: send_oversized send_large_sound)
next
  case False
  show ?thesis
    by (rule grown_mono [OF send_fitting_grown [OF False]])
       (simp add: graph_request_def fitting_def send_mail_url_def)
qed

text \<open>The Graph token, which reads and writes mailboxes, is only ever sent to the sender's mailbox resource at the
  configured base URL. Whatever the service answers, every request of a send either is a POST below that resource,
  or goes out over the plain client without a token, and is then a PUT of at most 3.75 MiB with the two headers of a
  chunk; so an upload address the service picks never sees the token.\<close>

theorem graph_token_stays_home:
  "grown ht_log (\<lambda>rq. graph_request c rq \<and> fitting c rq) w (snd (send E c m w))"
  by (rule send_sound)

section \<open>An upload delivers the file\<close>

fun upload_plan :: "string \<Rightarrow> nat \<Rightarrow> nat \<Rightarrow> string list \<Rightarrow> request option list" where
  "upload_plan u sz off [] = []"
| "upload_plan u sz off (x # xs) = chunk_request u off sz x # upload_plan u sz (off + length x) xs"

text \<open>The attempts at one request: at most four, all alike.\<close>

definition attempts_at :: "request option \<Rightarrow> request list \<Rightarrow> bool" where
  "attempts_at q g \<longleftrightarrow> length g \<le> 4 \<and> list_all (\<lambda>rq. q = Some rq) g"

lemma do_request_attempts:
  assumes "do_request N (\<lambda>_. q) w = (res, w')"
  obtains g where "ht_log w' = ht_log w @ g" "attempts_at q g" "\<And>rs. res = Inr rs \<Longrightarrow> g \<noteq> []"
proof -
  from do_from_bounded [OF assms [unfolded do_request_def]] obtain g where
    "ht_log w' = ht_log w @ g" "length g \<le> max_attempts - 1 + 1" "\<forall>i < length g. q = Some (g ! i)"
    "\<forall>rs. res = Inr rs \<longrightarrow> rs_status rs < 300 \<and> g \<noteq> []" by blast
  then show thesis by (intro that [of g]) (auto simp: attempts_at_def list_all_length max_attempts_def)
qed

definition uploaded :: "request option list \<Rightarrow> bool \<Rightarrow> request list list \<Rightarrow> bool" where
  "uploaded plan done gs \<longleftrightarrow> length gs \<le> length plan \<and> list_all2 attempts_at (take (length gs) plan) gs \<and>
     (done \<longrightarrow> length gs = length plan \<and> list_all (\<lambda>g. g \<noteq> []) gs)"

lemma upload_chunks_groups:
  "upload_chunks N u sz off rest w = (res, w') \<Longrightarrow>
   \<exists>gs. ht_log w' = ht_log w @ concat gs \<and> uploaded (upload_plan u sz off (chunks upload_chunk_bytes rest)) (res = None) gs"
proof (induction N u sz off rest w rule: upload_chunks.induct)
  case (1 N u sz off rest w)
  show ?case
  proof (cases "rest = []")
    case True
    with 1(2) show ?thesis by (intro exI [of _ "[]"]) (simp add: upload_chunks.simps uploaded_def)
  next
    case False
    define chunk where "chunk = take upload_chunk_bytes rest"
    define more where "more = drop upload_chunk_bytes rest"
    have ch: "chunks upload_chunk_bytes rest = chunk # chunks upload_chunk_bytes more"
      using False by (simp add: chunk_def more_def chunks_step upload_chunk_bytes_def)
    obtain r w1 where d: "do_request N (\<lambda>_. chunk_request u off sz chunk) w = (r, w1)"
      by (cases "do_request N (\<lambda>_. chunk_request u off sz chunk) w")
    then obtain g where g: "ht_log w1 = ht_log w @ g" "attempts_at (chunk_request u off sz chunk) g"
      "\<And>rs. r = Inr rs \<Longrightarrow> g \<noteq> []" by (rule do_request_attempts) blast
    have eq: "upload_chunks N u sz off rest w =
        (case r of Inl e \<Rightarrow> (Some (GraphRequest e), w1) | Inr rs \<Rightarrow> upload_chunks N u sz (off + length chunk) more w1)"
      using False d by (subst upload_chunks.simps) (simp add: Let_def chunk_def more_def split: sum.splits)
    show ?thesis
    proof (cases r)
      case (Inl e)
      with 1(2) eq have "res = Some (GraphRequest e)" "w' = w1" by simp_all
      with g ch show ?thesis by (intro exI [of _ "[g]"]) (simp add: uploaded_def)
    next
      case (Inr rs)
      with 1(2) eq have "upload_chunks N u sz (off + length chunk) more w1 = (res, w')" by simp
      from 1(1) [OF False refl d [unfolded chunk_def, symmetric] Inr this [unfolded chunk_def more_def]] obtain gs where
        "ht_log w' = ht_log w1 @ concat gs"
        "uploaded (upload_plan u sz (off + length chunk) (chunks upload_chunk_bytes more)) (res = None) gs"
        unfolding chunk_def more_def by blast
      then show ?thesis using g Inr ch by (intro exI [of _ "g # gs"]) (auto simp: uploaded_def)
    qed
  qed
qed

lemma chunk_request_body: "chunk_request u off sz x = Some rq \<Longrightarrow> rq_body rq = x"
  by (auto simp: chunk_request_def new_request_def split: if_splits)

lemma uploaded_bodies:
  "uploaded (upload_plan u sz off xs) True gs \<Longrightarrow> map (\<lambda>g. rq_body (hd g)) gs = xs"
proof (induction xs arbitrary: off gs)
  case Nil
  then show ?case by (simp add: uploaded_def)
next
  case (Cons x xs)
  then obtain g gs' where gs: "gs = g # gs'" by (cases gs) (auto simp: uploaded_def)
  with Cons.prems have "uploaded (upload_plan u sz (off + length x) xs) True gs'" by (auto simp: uploaded_def)
  moreover have "rq_body (hd g) = x"
  proof -
    have "g \<noteq> []" "attempts_at (chunk_request u off sz x) g" using Cons.prems gs by (auto simp: uploaded_def)
    then show ?thesis using chunk_request_body by (cases g) (auto simp: attempts_at_def)
  qed
  ultimately show ?case using Cons.IH gs by simp
qed


section \<open>A draft is sent with everything in it\<close>

definition send_url :: "graph_client \<Rightarrow> string \<Rightarrow> string" where
  "send_url c draft = mailbox_url c @ ''/messages/'' @ path_escape draft @ ''/send''"

definition sends_draft :: "graph_client \<Rightarrow> request \<Rightarrow> bool" where
  "sends_draft c rq \<longleftrightarrow> rq_client rq = Authorized \<and> (\<exists>draft. rq_url rq = send_url c draft)"

lemma escaped_segments:
  assumes "path_escape d @ ''/'' @ x = path_escape d' @ ''/'' @ y"
  shows "x = y"
proof -
  have "dropWhile (\<lambda>c. c \<noteq> CHR ''/'') (path_escape e @ ''/'' @ z) = ''/'' @ z" for e z
    using path_escape_safe [of _ e] by (subst dropWhile_append2) auto
  from this [of d x] this [of d' y] assms show ?thesis by simp
qed

lemma attachments_not_send:
  assumes "attachments_post c draft rq"
  shows "\<not> sends_draft c rq"
proof
  assume "sends_draft c rq"
  then obtain d where d: "rq_url rq = send_url c d" unfolding sends_draft_def by blast
  obtain rest where "rq_url rq = mailbox_url c @ ''/messages/'' @ path_escape draft @ ''/attachments'' @ rest"
    using assms unfolding attachments_post_def by blast
  with d have "path_escape draft @ ''/'' @ (''attachments'' @ rest) = path_escape d @ ''/'' @ ''send''"
    by (simp add: send_url_def)
  from escaped_segments [OF this] show False by simp
qed

lemma chunk_not_send: "chunk_put rq \<Longrightarrow> \<not> sends_draft c rq"
  by (simp add: chunk_put_def sends_draft_def)

lemma create_draft_not_send:
  assumes "create_draft E c m w = (r, w')"
  shows "grown ht_log (\<lambda>rq. \<not> sends_draft c rq) w w'"
proof -
  have "grown ht_log (\<lambda>rq. \<not> sends_draft c rq) w (snd (create_draft E c m w))"
    unfolding create_draft_def post_json_field_snd
    by (rule post_json_log) (simp add: sends_draft_def send_url_def)
  with assms show ?thesis by simp
qed

lemma attach_all_not_send: "attach_all E c draft as w = (r, w') \<Longrightarrow> grown ht_log (\<lambda>rq. \<not> sends_draft c rq) w w'"
proof (induction as arbitrary: w)
  case (Cons a as)
  obtain e w1 where a: "attach E c draft a w = (e, w1)" by (cases "attach E c draft a w")
  from attach_log [OF a] have g: "grown ht_log (\<lambda>rq. \<not> sends_draft c rq) w w1"
    by (rule grown_mono) (use attachments_not_send chunk_not_send in blast)
  show ?case
  proof (cases e)
    case None
    with Cons.prems a have "attach_all E c draft as w1 = (r, w')" by simp
    from grown_trans [OF g Cons.IH [OF this]] show ?thesis .
  next
    case (Some x)
    with Cons.prems a g show ?thesis by simp
  qed
qed simp

lemma send_draft_attempts:
  assumes "post_json_ignore E c (''/messages/'' @ path_escape d @ ''/send'') None w = (r, w')"
  obtains g where "ht_log w' = ht_log w @ g" "attempts_at (new_request Authorized ''POST'' (send_url c d) [] []) g"
    "r = None \<Longrightarrow> g \<noteq> []"
proof -
  let ?mk = "new_request Authorized ''POST'' (send_url c d) [] []"
  obtain x w1 where d: "do_request (ge_net E) (\<lambda>_. ?mk) w = (x, w1)" by (cases "do_request (ge_net E) (\<lambda>_. ?mk) w")
  with assms have "w1 = w'" "(case x of Inl e \<Rightarrow> r = Some (GraphRequest e) | Inr y \<Rightarrow> r = None)"
    by (simp_all add: post_json_ignore_def post_json_def send_url_def split: sum.splits)
  moreover from d obtain g where "ht_log w1 = ht_log w @ g" "attempts_at ?mk g" "\<And>rs. x = Inr rs \<Longrightarrow> g \<noteq> []"
    by (rule do_request_attempts) blast
  ultimately show thesis by (intro that [of g]) (auto split: sum.splits)
qed


section \<open>The mailer the pipeline sees\<close>

text \<open>What surrounds a send depends on the context it is made in and the moment.\<close>

definition graph_send ::
  "(send_context \<Rightarrow> 'h \<Rightarrow> 'h graph_env) \<Rightarrow> graph_client \<Rightarrow> send_context \<Rightarrow> message \<Rightarrow> 'h http \<Rightarrow> mail_result \<times> 'h http" where
  "graph_send Es c ctx m w =
     (case send (Es ctx (ht_net w)) c m w of
        (None, w1) \<Rightarrow> (MailOk, w1)
      | (Some TooLarge, w1) \<Rightarrow> (MailTooLarge, w1)
      | (Some e, w1) \<Rightarrow> (MailFailed, w1))"

lemma post_json_error: "fst (post_json E c path body w) \<noteq> Inl TooLarge"
  by (auto simp: post_json_def Let_def split: prod.splits sum.splits)

lemma post_json_ignore_error: "fst (post_json_ignore E c path body w) \<noteq> Some TooLarge"
  using post_json_error [of E c path body w] by (auto simp: post_json_ignore_def split: prod.splits sum.splits)

lemma post_json_field_error: "fst (post_json_field E c path body fld w) \<noteq> Inl TooLarge"
  using post_json_error [of E c path "Some body" w]
  by (auto simp: post_json_field_def split: prod.splits sum.splits option.splits)

lemma upload_chunks_error: "fst (upload_chunks N u sz off rest w) \<noteq> Some TooLarge"
proof (induction N u sz off rest w rule: upload_chunks.induct)
  case (1 N u sz off rest w)
  show ?case
  proof (cases "rest = []")
    case True
    then show ?thesis by (simp add: upload_chunks.simps)
  next
    case False
    obtain r w1 where d: "do_request N (\<lambda>_. chunk_request u off sz (take upload_chunk_bytes rest)) w = (r, w1)"
      by (cases "do_request N (\<lambda>_. chunk_request u off sz (take upload_chunk_bytes rest)) w")
    show ?thesis
      using d False 1 [OF False refl d [symmetric]] by (subst upload_chunks.simps) (cases r; simp add: Let_def)
  qed
qed

lemma attach_error:
  assumes "attach E c draft a w = (r, w')"
  shows "r \<noteq> Some TooLarge"
  using assms
proof (cases rule: attach_cases)
  case (posted body)
  with post_json_ignore_error show ?thesis by (metis fst_conv)
next
  case (no_session body e)
  with post_json_field_error show ?thesis by (metis fst_conv option.inject)
next
  case (chunked body u w1 content)
  with upload_chunks_error show ?thesis by (metis fst_conv)
qed simp_all

lemma attach_all_error: "attach_all E c draft as w = (r, w') \<Longrightarrow> r \<noteq> Some TooLarge"
proof (induction as arbitrary: w)
  case (Cons a as)
  obtain e w1 where a: "attach E c draft a w = (e, w1)" by (cases "attach E c draft a w")
  with Cons attach_error [OF a] show ?case by (cases e) auto
qed simp

lemma send_large_error:
  assumes "send_large E c m w = (r, w')"
  shows "r \<noteq> Some TooLarge"
  using assms
proof (cases rule: send_large_cases)
  case (no_draft e)
  with post_json_field_error show ?thesis unfolding create_draft_def by (metis fst_conv option.inject)
next
  case (unattached d w1 e)
  with attach_all_error show ?thesis by metis
next
  case (draft_sent d w1 w2)
  with post_json_ignore_error show ?thesis by (metis fst_conv)
qed

lemma send_too_large: "send E c m w = (Some TooLarge, w') \<Longrightarrow> w' = w"
proof (cases "oversized E c m")
  case True
  assume "send E c m w = (Some TooLarge, w')"
  with send_oversized [OF True, of w] send_large_error [of E c m w "Some TooLarge" w'] show ?thesis
    by (cases "gc_large_scans c") auto
next
  case False
  assume "send E c m w = (Some TooLarge, w')"
  with send_fitting [OF False, of w] post_message_error show ?thesis by (metis fst_conv)
qed

interpretation graph: mailer "graph_send Es c" ht_log "\<lambda>rq. graph_request c rq \<and> fitting c rq" for Es c
proof
  fix s :: "'a http" and ctx m
  have "snd (graph_send Es c ctx m s) = snd (send (Es ctx (ht_net s)) c m s)"
    by (simp add: graph_send_def split: prod.splits option.splits graph_error.splits)
  then show "grown ht_log (\<lambda>rq. graph_request c rq \<and> fitting c rq) s (snd (graph_send Es c ctx m s))"
    by (simp add: send_sound)
next
  fix ctx m and s s' :: "'a http"
  assume "graph_send Es c ctx m s = (MailTooLarge, s')"
  then have "send (Es ctx (ht_net s)) c m s = (Some TooLarge, s')"
    by (simp add: graph_send_def split: prod.splits option.splits graph_error.splits)
  then show "s' = s" by (rule send_too_large)
qed

end
