(* ===== verification/Docintel.thy ===== *)
theory Docintel
  imports Msapi
begin

text \<open>
  \<open>internal/docintel/docintel.go\<close>: the three calls that turn a scan into a searchable PDF. The operation status
  is what the JSON decoder \<open>js\<close> makes of a response; the disk behind the output takes the first \<open>room\<close> bytes
  (all of them for \<open>None\<close>); the polling loop runs on fuel, and \<open>None\<close> is a loop that has not ended yet.
\<close>

section \<open>The client\<close>

record di_client =
  dc_endpoint :: string
  dc_api_version :: string

definition poll_interval :: duration where
  "poll_interval = 3 * 1000000000"

definition di_magic :: string where
  "di_magic = ''%PDF-''"

datatype di_error =
    SeekFailed | DiRequest do_error | NoLocation | BadLocation | BadEndpoint | ForeignLocation string
  | BadStatus | AnalysisEnded string string | DiContextDone | ReadFailed | NotPdf | WriteFailed

definition analyze_url :: "di_client \<Rightarrow> string" where
  "analyze_url c =
     dc_endpoint c @ ''/documentintelligence/documentModels/prebuilt-read:analyze?'' @
     ''api-version='' @ query_escape (dc_api_version c) @ ''&output=pdf''"

definition submit_request :: "di_client \<Rightarrow> string \<Rightarrow> request option" where
  "submit_request c pdf = new_request Authorized ''POST'' (analyze_url c) [(''Content-Type'', ''application/pdf'')] pdf"

definition get_request :: "string \<Rightarrow> request option" where
  "get_request u = new_request Authorized ''GET'' u [] []"

definition same_origin :: "di_client \<Rightarrow> string \<Rightarrow> di_error option" where
  "same_origin c loc =
     (case url_parse loc of
        None \<Rightarrow> Some BadLocation
      | Some u \<Rightarrow>
          (case url_parse (dc_endpoint c) of
             None \<Rightarrow> Some BadEndpoint
           | Some e \<Rightarrow>
               if u_scheme u \<noteq> u_scheme e \<or> u_host u \<noteq> u_host e then Some (ForeignLocation (u_host u)) else None))"

definition result_url :: "url \<Rightarrow> string" where
  "result_url u = url_string (u\<lparr>u_path := u_path u @ ''/pdf''\<rparr>)"

section \<open>Polling\<close>

text \<open>\<open>js\<close> gives the status and the message of the error object, if there is one.\<close>

fun poll ::
  "'h net \<Rightarrow> (response \<Rightarrow> (string \<times> string option) option) \<Rightarrow> string \<Rightarrow> nat \<Rightarrow> 'h http \<Rightarrow>
   ((di_error + string) \<times> 'h http) option" where
  "poll N js loc 0 w = None"
| "poll N js loc (Suc fuel) w =
     (case do_request N (\<lambda>_. get_request loc) w of
        (Inl e, w1) \<Rightarrow> Some (Inl (DiRequest e), w1)
      | (Inr r, w1) \<Rightarrow>
          (let d = retry_after N (ht_net w1) r poll_interval in
           case js r of
             None \<Rightarrow> Some (Inl BadStatus, w1)
           | Some (st, msg) \<Rightarrow>
               if st = ''succeeded'' then
                 (case url_parse loc of
                    None \<Rightarrow> Some (Inl BadLocation, w1)
                  | Some u \<Rightarrow> Some (Inr (result_url u), w1))
               else if st = ''failed'' \<or> st = ''canceled'' then
                 Some (Inl (AnalysisEnded st (case msg of
                              Some m \<Rightarrow> if m \<noteq> [] then m else ''no details provided''
                            | None \<Rightarrow> ''no details provided'')), w1)
               else
                 (case wait N d w1 of
                    (False, w2) \<Rightarrow> Some (Inl DiContextDone, w2)
                  | (True, w2) \<Rightarrow> poll N js loc fuel w2)))"

section \<open>SearchablePDF\<close>

text \<open>The last step: the body of the result goes to the output once it is known to start like a PDF.\<close>

definition stream_pdf :: "nat option \<Rightarrow> response \<Rightarrow> di_error option \<times> string" where
  "stream_pdf room r =
     (let body = rs_body r; written = (case room of None \<Rightarrow> body | Some n \<Rightarrow> take n body) in
      if length body < length di_magic then (Some ReadFailed, [])
      else if take (length di_magic) body \<noteq> di_magic then (Some NotPdf, [])
      else if written \<noteq> body then (Some WriteFailed, written)
      else if \<not> rs_body_ok r then (Some WriteFailed, written)
      else (None, written))"

definition searchable_pdf ::
  "'h net \<Rightarrow> (response \<Rightarrow> (string \<times> string option) option) \<Rightarrow> di_client \<Rightarrow> nat option \<Rightarrow> nat \<Rightarrow> string option \<Rightarrow> 'h http \<Rightarrow>
   (di_error option \<times> string \<times> 'h http) option" where
  "searchable_pdf N js c room fuel doc w =
     (case doc of
        None \<Rightarrow> Some (Some SeekFailed, [], w)
      | Some pdf \<Rightarrow>
          (case do_request N (\<lambda>_. submit_request c pdf) w of
             (Inl e, w1) \<Rightarrow> Some (Some (DiRequest e), [], w1)
           | (Inr r, w1) \<Rightarrow>
               (let loc = rs_get r ''Operation-Location'' in
                if loc = [] then Some (Some NoLocation, [], w1)
                else (case same_origin c loc of
                   Some e \<Rightarrow> Some (Some e, [], w1)
                 | None \<Rightarrow>
                     (case poll N js loc fuel w1 of
                        None \<Rightarrow> None
                      | Some (Inl e, w2) \<Rightarrow> Some (Some e, [], w2)
                      | Some (Inr u, w2) \<Rightarrow>
                          (case do_request N (\<lambda>_. get_request u) w2 of
                             (Inl e, w3) \<Rightarrow> Some (Some (DiRequest e), [], w3)
                           | (Inr r2, w3) \<Rightarrow>
                               (case stream_pdf room r2 of (e, out) \<Rightarrow> Some (e, out, w3))))))))"

text \<open>The service the pipeline sees: whether it worked, and what was written.\<close>

definition docintel_ocr ::
  "'h net \<Rightarrow> (response \<Rightarrow> (string \<times> string option) option) \<Rightarrow> di_client \<Rightarrow> nat option \<Rightarrow> nat \<Rightarrow> string \<Rightarrow> 'h http \<Rightarrow>
   (bool \<times> string) \<times> 'h http" where
  "docintel_ocr N js c room fuel pdf w =
     (case searchable_pdf N js c room fuel (Some pdf) w of
        None \<Rightarrow> ((False, []), w)
      | Some (e, out, w') \<Rightarrow> ((e = None, out), w'))"

end
