(* ===== verification/Docintel_Properties.thy ===== *)
theory Docintel_Properties
  imports Docintel Msapi_Properties Pipeline
begin

text \<open>
  The Document Intelligence client: whom it shows its token to, what it delivers, and that it ends.
\<close>

section \<open>Where the token goes\<close>

text \<open>Everything up to the path, as the request line's recipient reads it.\<close>

definition authority_of :: "url \<Rightarrow> string" where
  "authority_of u = u_scheme u @ ''://'' @
     (case u_user u of None \<Rightarrow> [] | Some ui \<Rightarrow> userinfo_string ui @ ''@'') @ url_escape EncHost (u_host u)"

lemma parse_opaque: "url_parse s = Some u \<Longrightarrow> u_host u \<noteq> [] \<Longrightarrow> u_opaque u = []"
proof -
  have set_path_keeps: "set_path p v = Some v' \<Longrightarrow> u_opaque v' = u_opaque v \<and> u_host v' = u_host v" for p v v'
    by (auto simp: set_path_def split: option.splits)
  have "parse_unfragmented t = Some v \<Longrightarrow> u_opaque v = [] \<or> u_host v = []" for t v
    by (auto simp: parse_unfragmented_def empty_url_def Let_def dest!: set_path_keeps split: if_splits option.splits prod.splits)
  moreover assume "url_parse s = Some u" "u_host u \<noteq> []"
  ultimately show ?thesis by (fastforce simp: url_parse_def Let_def split: option.splits if_splits)
qed

lemma url_string_authority:
  assumes "u_scheme u \<noteq> []" "u_host u \<noteq> []" "u_opaque u = []"
  obtains rest where "url_string u = authority_of u @ rest" "rest = [] \<or> hd rest \<in> set ''/?#''"
proof -
  let ?path = "escaped_path u"
  let ?slash = "if ?path \<noteq> [] \<and> \<not> prefix ''/'' ?path then ''/'' else []"
  let ?query = "if u_force_query u \<or> u_raw_query u \<noteq> [] then ''?'' @ u_raw_query u else []"
  let ?frag = "if u_fragment u \<noteq> [] then ''#'' @ escaped_fragment u else []"
  have "url_string u = authority_of u @ ?slash @ ?path @ ?query @ ?frag"
    using assms by (simp add: url_string_def authority_of_def Let_def)
  moreover have "?slash @ ?path @ ?query @ ?frag = [] \<or> hd (?slash @ ?path @ ?query @ ?frag) \<in> set ''/?#''"
    by (cases ?path) auto
  ultimately show thesis by (rule that)
qed

lemma result_url_authority:
  assumes "url_parse loc = Some u" "u_scheme u \<noteq> []" "u_host u \<noteq> []"
  shows "\<exists>rest. result_url u = authority_of u @ rest \<and> (rest = [] \<or> hd rest \<in> set ''/?#'')"
proof -
  let ?v = "u\<lparr>u_path := u_path u @ ''/pdf''\<rparr>"
  have "u_scheme ?v \<noteq> []" "u_host ?v \<noteq> []" "u_opaque ?v = []" using assms parse_opaque by auto
  then obtain rest where "url_string ?v = authority_of ?v @ rest" "rest = [] \<or> hd rest \<in> set ''/?#''"
    by (rule url_string_authority)
  then show ?thesis by (auto simp: result_url_def authority_of_def)
qed

text \<open>A request the client may put its token on: the analyze call, or one to the endpoint's own origin.\<close>

definition own_request :: "di_client \<Rightarrow> request \<Rightarrow> bool" where
  "own_request c rq \<longleftrightarrow> rq_client rq = Authorized \<and>
     (rq_url rq = analyze_url c \<or>
      (\<exists>u e. url_parse (dc_endpoint c) = Some e \<and> u_scheme u = u_scheme e \<and> u_host u = u_host e \<and>
         (url_parse (rq_url rq) = Some u \<or>
          (\<exists>rest. rq_url rq = authority_of u @ rest \<and> (rest = [] \<or> hd rest \<in> set ''/?#'')))))"

lemma get_own:
  assumes "same_origin c loc = None" "get_request loc = Some rq"
  shows "own_request c rq"
  using assms new_request_fields [of Authorized "''GET''" loc "[]" "[]" rq]
  by (auto simp: own_request_def get_request_def same_origin_def split: option.splits if_splits)

lemma result_own:
  assumes "same_origin c loc = None" "url_parse loc = Some u" "url_parse (dc_endpoint c) = Some e"
    "u_scheme e \<noteq> []" "u_host e \<noteq> []" "get_request (result_url u) = Some rq"
  shows "own_request c rq"
proof -
  have same: "u_scheme u = u_scheme e" "u_host u = u_host e"
    using assms(1-3) by (auto simp: same_origin_def split: if_splits)
  have "rq_client rq = Authorized" "rq_url rq = result_url u"
    using new_request_fields assms(6) by (auto simp: get_request_def)
  with result_url_authority [OF assms(2)] same assms(3-5) show ?thesis by (auto simp: own_request_def)
qed

lemma poll_own:
  assumes "poll N js loc fuel w = Some (res, w')" "same_origin c loc = None"
  shows "\<exists>rqs. ht_log w' = ht_log w @ rqs \<and> list_all (own_request c) rqs \<and>
    (\<forall>v. res = Inr v \<longrightarrow> (\<exists>u. url_parse loc = Some u \<and> v = result_url u))"
  using assms(1)
proof (induction fuel arbitrary: w)
  case (Suc fuel)
  obtain r w1 where d: "do_request N (\<lambda>_. get_request loc) w = (r, w1)" by (cases "do_request N (\<lambda>_. get_request loc) w")
  then obtain rqs where rqs: "ht_log w1 = ht_log w @ rqs" "list_all (\<lambda>rq. \<exists>i::nat. get_request loc = Some rq) rqs"
    by (rule do_request_sends)
  then have own: "list_all (own_request c) rqs" using get_own [OF assms(2)] by (auto simp: list_all_iff)
  show ?case
  proof (cases r)
    case (Inl e)
    with Suc.prems d rqs own show ?thesis by auto
  next
    case (Inr rs)
    show ?thesis
    proof (cases "\<exists>st msg. js rs = Some (st, msg) \<and> st \<notin> {''succeeded'', ''failed'', ''canceled''}")
      case False
      then have "w' = w1 \<and> (\<forall>v. res = Inr v \<longrightarrow> (\<exists>u. url_parse loc = Some u \<and> v = result_url u))"
        using Suc.prems d Inr by (auto simp: Let_def split: option.splits if_splits prod.splits)
      with rqs own show ?thesis by auto
    next
      case True
      let ?d = "retry_after N (ht_net w1) rs poll_interval"
      obtain go w2 where wt: "wait N ?d w1 = (go, w2)" by (cases "wait N ?d w1")
      note log2 = wait_simps [OF wt]
      show ?thesis
      proof (cases go)
        case False
        with Suc.prems d Inr True wt have "res = Inl DiContextDone" "w' = w2" by (auto simp: Let_def)
        with rqs own log2 show ?thesis by auto
      next
        case True': True
        with Suc.prems d Inr True wt have "poll N js loc fuel w2 = Some (res, w')" by (auto simp: Let_def)
        from Suc.IH [OF this] obtain more where "ht_log w' = ht_log w2 @ more" "list_all (own_request c) more"
          "\<forall>v. res = Inr v \<longrightarrow> (\<exists>u. url_parse loc = Some u \<and> v = result_url u)" by blast
        with rqs own log2 show ?thesis by (intro exI [of _ "rqs @ more"]) auto
      qed
    qed
  qed
qed simp

text \<open>With an endpoint that names a scheme and a host, every request is the client's own.\<close>

definition endpoint_ok :: "di_client \<Rightarrow> bool" where
  "endpoint_ok c = (case url_parse (dc_endpoint c) of None \<Rightarrow> False | Some e \<Rightarrow> u_scheme e \<noteq> [] \<and> u_host e \<noteq> [])"

abbreviation home_request :: "di_client \<Rightarrow> request \<Rightarrow> bool" where
  "home_request c rq \<equiv> endpoint_ok c \<longrightarrow> own_request c rq"

lemma result_home:
  assumes "same_origin c loc = None" "url_parse loc = Some u" "get_request (result_url u) = Some rq"
  shows "home_request c rq"
proof
  assume "endpoint_ok c"
  then obtain e where "url_parse (dc_endpoint c) = Some e" "u_scheme e \<noteq> []" "u_host e \<noteq> []"
    by (auto simp: endpoint_ok_def split: option.splits)
  from result_own [OF assms(1,2) this assms(3)] show "own_request c rq" .
qed

lemma searchable_pdf_log:
  assumes run: "searchable_pdf N js c room fuel doc w = Some (err, out, w')"
  shows "grown ht_log (home_request c) w w'"
proof (cases doc)
  case None
  with run show ?thesis by (simp add: searchable_pdf_def)
next
  case (Some pdf)
  obtain r w1 where d: "do_request N (\<lambda>_. submit_request c pdf) w = (r, w1)"
    by (cases "do_request N (\<lambda>_. submit_request c pdf) w")
  then obtain rqs where rqs: "ht_log w1 = ht_log w @ rqs" "list_all (\<lambda>rq. \<exists>i::nat. submit_request c pdf = Some rq) rqs"
    by (rule do_request_sends)
  then have "list_all (own_request c) rqs"
    using new_request_fields by (fastforce simp: list_all_iff submit_request_def own_request_def)
  with rqs have g1: "grown ht_log (home_request c) w w1" by (auto simp: grown_def list_all_iff)
  show ?thesis
  proof (cases "\<exists>rs. r = Inr rs \<and> rs_get rs ''Operation-Location'' \<noteq> [] \<and> same_origin c (rs_get rs ''Operation-Location'') = None")
    case False
    then have "w' = w1"
      using run Some d by (auto simp: searchable_pdf_def Let_def split: sum.splits if_splits option.splits)
    with g1 show ?thesis by simp
  next
    case True
    then obtain loc where loc: "\<exists>rs. r = Inr rs \<and> rs_get rs ''Operation-Location'' = loc" "loc \<noteq> []" "same_origin c loc = None"
      by auto
    obtain p w2 where p: "poll N js loc fuel w1 = Some (p, w2)"
      using run Some d loc by (cases "poll N js loc fuel w1") (auto simp: searchable_pdf_def Let_def)
    obtain more where more: "ht_log w2 = ht_log w1 @ more" "list_all (own_request c) more"
      "\<forall>v. p = Inr v \<longrightarrow> (\<exists>u. url_parse loc = Some u \<and> v = result_url u)" using poll_own [OF p loc(3)] by blast
    then have "grown ht_log (home_request c) w1 w2" by (auto simp: grown_def list_all_iff)
    with g1 have g2: "grown ht_log (home_request c) w w2" by (rule grown_trans)
    show ?thesis
    proof (cases p)
      case (Inl e')
      with run Some d loc p have "w' = w2" by (auto simp: searchable_pdf_def Let_def)
      with g2 show ?thesis by simp
    next
      case (Inr v)
      with more obtain u where u: "url_parse loc = Some u" "v = result_url u" by blast
      obtain r2 w3 where d3: "do_request N (\<lambda>_. get_request v) w2 = (r2, w3)" by (cases "do_request N (\<lambda>_. get_request v) w2")
      then obtain last where last: "ht_log w3 = ht_log w2 @ last" "list_all (\<lambda>rq. \<exists>i::nat. get_request v = Some rq) last"
        by (rule do_request_sends)
      then have "list_all (home_request c) last"
        using result_home [OF loc(3) u(1)] u(2) unfolding list_all_iff by blast
      with last have "grown ht_log (home_request c) w2 w3" by (auto simp: grown_def)
      moreover have "w' = w3"
        using run Some d loc p Inr d3 by (auto simp: searchable_pdf_def Let_def split: sum.splits prod.splits)
      ultimately show ?thesis using grown_trans [OF g2] by simp
    qed
  qed
qed

text \<open>The bearer token only ever goes to the configured endpoint. Whatever the service answers (the
  Operation-Location header is entirely its own), every request the client sends is either the analyze call or
  addresses the scheme and host of the endpoint, and the result is fetched from an address that reads exactly
  like that origin up to its path.\<close>

theorem docintel_token_stays_home:
  assumes "url_parse (dc_endpoint c) = Some e" "u_scheme e \<noteq> []" "u_host e \<noteq> []"
    "searchable_pdf N js c room fuel doc w = Some (err, out, w')"
  shows "\<exists>rqs. ht_log w' = ht_log w @ rqs \<and> list_all (own_request c) rqs"
proof -
  have "endpoint_ok c" using assms(1-3) by (simp add: endpoint_ok_def)
  with searchable_pdf_log [OF assms(4)] show ?thesis by (auto simp: grown_def)
qed

section \<open>What is delivered\<close>

lemma stream_pdf_ok: "stream_pdf room r = (None, out) \<Longrightarrow> out = rs_body r \<and> prefix di_magic out \<and> rs_body_ok r"
  by (auto simp: stream_pdf_def Let_def prefix_def split: if_splits) (metis append_take_drop_id)

lemma searchable_pdf_out:
  assumes "searchable_pdf N js c room fuel doc w = Some (None, out, w')"
  shows "\<exists>r :: response. out = rs_body r \<and> rs_body_ok r \<and> rs_status r < 300 \<and> prefix ''%PDF-'' out"
proof -
  obtain pdf where doc: "doc = Some pdf" using assms by (cases doc) (auto simp: searchable_pdf_def)
  have "\<exists>v w2 r w3. do_request N (\<lambda>_. get_request v) w2 = (Inr r, w3) \<and> stream_pdf room r = (None, out)"
    using assms doc
    by (auto simp: searchable_pdf_def Let_def split: sum.splits prod.splits if_splits option.splits)
  then obtain v w2 r w3 where r: "do_request N (\<lambda>_. get_request v) w2 = (Inr r, w3)" "stream_pdf room r = (None, out)"
    by blast
  from r(1) have "rs_status r < 300" by (rule do_request_sends) simp
  with stream_pdf_ok [OF r(2)] show ?thesis by (intro exI [of _ r]) (auto simp: di_magic_def)
qed

text \<open>Success means a PDF. When the call succeeds, what it wrote is the whole body of a response with a status
  below 300, that body was read without an error, and it starts with the PDF magic; an empty answer or an error
  page never becomes the scan.\<close>

theorem searchable_pdf_delivers_pdf:
  assumes "searchable_pdf N js c room fuel doc w = Some (None, out, w')"
  shows "\<exists>r :: response. out = rs_body r \<and> rs_body_ok r \<and> rs_status r < 300 \<and> prefix ''%PDF-'' out"
  using searchable_pdf_out [OF assms] .

text \<open>The service as the pipeline sees it.\<close>

interpretation docintel: networked_ocr "docintel_ocr N js c room fuel" ht_log "home_request c" for N js c room fuel
proof
  fix pdf out and w w' :: "'a http"
  assume "docintel_ocr N js c room fuel pdf w = ((True, out), w')"
  then have "searchable_pdf N js c room fuel (Some pdf) w = Some (None, out, w')"
    by (auto simp: docintel_ocr_def split: option.splits)
  from searchable_pdf_out [OF this] show "prefix ''%PDF-'' out" by blast
next
  fix pdf and w :: "'a http"
  show "grown ht_log (home_request c) w (snd (docintel_ocr N js c room fuel pdf w))"
    using searchable_pdf_log [of N js c room fuel "Some pdf" w]
    by (auto simp: docintel_ocr_def split: option.splits)
qed

section \<open>It ends\<close>

lemma poll_ends:
  assumes "deadline_net N left" "left (ht_net w) < fuel"
  shows "poll N js loc fuel w \<noteq> None"
  using assms(2)
proof (induction fuel arbitrary: w)
  case (Suc fuel)
  obtain r w1 where d: "do_request N (\<lambda>_. get_request loc) w = (r, w1)" by (cases "do_request N (\<lambda>_. get_request loc) w")
  show ?case
  proof (cases r)
    case (Inr rs)
    let ?d = "retry_after N (ht_net w1) rs poll_interval"
    obtain go w2 where wt: "wait N ?d w1 = (go, w2)" by (cases "wait N ?d w1")
    have "base_backoff \<le> ?d"
      using retry_after_bounds [of poll_interval N] by (simp add: poll_interval_def base_backoff_def max_wait_def)
    then have "go \<Longrightarrow> left (ht_net w2) < fuel"
      using wait_left [OF assms(1)] wt do_request_left [OF assms(1)] d Inr Suc.prems by fastforce
    with Suc.IH d Inr wt show ?thesis
      by (cases go) (auto simp: Let_def split: option.splits)
  qed (use d in simp)
qed simp

text \<open>C30: Polling ends with the caller's deadline. If every wait of half a second or more uses up some of the time
  the context has left, the whole operation returns a result once the fuel exceeds that time: it cannot poll
  forever, whatever the service answers.\<close>

theorem searchable_pdf_ends:
  assumes "deadline_net N left" "left (ht_net w) < fuel"
  shows "searchable_pdf N js c room fuel doc w \<noteq> None"
proof (cases doc)
  case None
  then show ?thesis by (simp add: searchable_pdf_def)
next
  case (Some pdf)
  obtain r w1 where d: "do_request N (\<lambda>_. submit_request c pdf) w = (r, w1)"
    by (cases "do_request N (\<lambda>_. submit_request c pdf) w")
  show ?thesis
  proof (cases r)
    case (Inr rs)
    have "left (ht_net w1) < fuel" using do_request_left [OF assms(1)] d Inr assms(2) by fastforce
    then obtain p w2 where "poll N js (rs_get rs ''Operation-Location'') fuel w1 = Some (p, w2)"
      using poll_ends [OF assms(1)] by (metis not_None_eq surj_pair)
    with Some d Inr show ?thesis
      by (auto simp: searchable_pdf_def Let_def split: option.splits sum.splits prod.splits)
  qed (use Some d in \<open>simp add: searchable_pdf_def\<close>)
qed

section \<open>An operation that succeeds\<close>

definition ex_di_net :: "nat net" where
  "ex_di_net = \<lparr>
     net_do = (\<lambda>rq h. (Some (
        if rq_method rq = ''POST'' then \<lparr>rs_status = 202, rs_status_line = ''202 Accepted'',
          rs_headers = [(''Operation-Location'', ''https://di.x/op?v=1'')], rs_body = [], rs_body_ok = True\<rparr>
        else \<lparr>rs_status = 200, rs_status_line = ''200 OK'', rs_headers = [], rs_body = ''%PDF-1.7'', rs_body_ok = True\<rparr>), h)),
     net_sleep = (\<lambda>d h. h - 1), net_done = (\<lambda>h. h = 0), net_until = (\<lambda>_ _. None), net_error = (\<lambda>_. None)\<rparr>"

definition ex_di :: di_client where
  "ex_di = \<lparr>dc_endpoint = ''https://di.x'', dc_api_version = ''2024-11-30''\<rparr>"

definition ex_http :: "nat http" where
  "ex_http = \<lparr>ht_net = 3, ht_log = [], ht_waits = []\<rparr>"

definition ex_di_out :: "nat http" where
  "ex_di_out = \<lparr>ht_net = 3, ht_log = [
     \<lparr>rq_client = Authorized, rq_method = ''POST'', rq_url = analyze_url ex_di,
      rq_headers = [(''Content-Type'', ''application/pdf'')], rq_body = ''%PDF-0''\<rparr>,
     \<lparr>rq_client = Authorized, rq_method = ''GET'', rq_url = ''https://di.x/op?v=1'', rq_headers = [], rq_body = []\<rparr>,
     \<lparr>rq_client = Authorized, rq_method = ''GET'', rq_url = ''https://di.x/op/pdf?v=1'', rq_headers = [], rq_body = []\<rparr>],
     ht_waits = []\<rparr>"

lemma ex_di_run:
  "searchable_pdf ex_di_net (\<lambda>_. Some (''succeeded'', None)) ex_di None 5 (Some ''%PDF-0'') ex_http =
     Some (None, ''%PDF-1.7'', ex_di_out)"
  by code_simp

lemma ex_di_endpoint: "url_parse (dc_endpoint ex_di) = Some (empty_url\<lparr>u_scheme := ''https'', u_host := ''di.x''\<rparr>)"
  by code_simp

theorem docintel_token_stays_home_witness: "list_all (own_request ex_di) (ht_log ex_di_out)"
  using docintel_token_stays_home [OF ex_di_endpoint _ _ ex_di_run] by (simp add: ex_http_def)

theorem searchable_pdf_delivers_pdf_witness: "\<exists>r :: response. rs_body r = ''%PDF-1.7'' \<and> rs_status r < 300"
  using searchable_pdf_delivers_pdf [OF ex_di_run] by auto

theorem searchable_pdf_ends_witness:
  "searchable_pdf ex_di_net (\<lambda>_. Some (''running'', None)) ex_di None 4 (Some ''%PDF-0'') ex_http \<noteq> None"
proof -
  have "deadline_net ex_di_net (\<lambda>h. h)" by (auto simp: deadline_net_def ex_di_net_def)
  then show ?thesis by (rule searchable_pdf_ends) (simp add: ex_http_def)
qed

end
