(* ===== verification/Job_Traffic.thy ===== *)
theory Job_Traffic
  imports Pipeline_Properties Graphmail_Properties Docintel_Properties
begin

text \<open>
  What a whole job makes the appliance send: the pipeline over any mailer and any networked OCR service, and then
  over the two clients of the program.
\<close>

section \<open>The services' states\<close>

lemma store_call_services [simp]:
  "pw_mail (snd (store_call V f w)) = pw_mail w" "pw_ocr (snd (store_call V f w)) = pw_ocr w"
  by (simp_all add: store_call_def split: prod.splits)

lemma delete_job_services [simp]: "pw_mail (delete_job V i w) = pw_mail w" "pw_ocr (delete_job V i w) = pw_ocr w"
  by (simp_all add: delete_job_def)

lemma send_mail_ocr [simp]: "pw_ocr (snd (send_mail V c m w)) = pw_ocr w"
  by (simp add: send_mail_def split: prod.splits)

lemma notice_ocr [simp]: "pw_ocr (notice V url j reason w) = pw_ocr w"
  by (simp add: notice_def)

lemma fail_job_ocr [simp]: "pw_ocr (fail_job V url j reason w) = pw_ocr w"
  by (simp add: fail_job_def Let_def)

lemma deliver_ocr: "deliver V url j w = (b, w') \<Longrightarrow> pw_ocr w' = pw_ocr w"
  using send_mail_ocr [of V JobContext "scan_message V j" w]
  by (auto simp: deliver_def simp del: send_mail_ocr split: prod.splits mail_result.splits)

lemma after_ocr_ocr [simp]: "pw_ocr (after_ocr V url j w) = pw_ocr w"
  by (auto simp: after_ocr_def split: prod.splits dest: deliver_ocr)

lemma run_ocr_mail: "run_ocr V jid ds w = (r, w') \<Longrightarrow> pw_mail w' = pw_mail w"
  by (rule run_ocr_invariant [where P = "\<lambda>v. pw_mail v = pw_mail w"]) simp_all

text \<open>A relation the services keep is kept by everything a worker does.\<close>

definition mail_kept :: "('m \<Rightarrow> 'm \<Rightarrow> bool) \<Rightarrow> ('o, 'm) services \<Rightarrow> bool" where
  "mail_kept R V \<longleftrightarrow> reflp R \<and> transp R \<and> (\<forall>c m s. R s (snd (sv_send V c m s)))"

definition ocr_kept :: "('o \<Rightarrow> 'o \<Rightarrow> bool) \<Rightarrow> ('o, 'm) services \<Rightarrow> bool" where
  "ocr_kept R V \<longleftrightarrow> reflp R \<and> transp R \<and> (\<forall>pdf s. R s (snd (sv_ocr V pdf s)))"

lemma mail_kept_refl [simp]: "mail_kept R V \<Longrightarrow> R s s"
  by (simp add: mail_kept_def reflpD)

lemma mail_kept_trans: "mail_kept R V \<Longrightarrow> R s s' \<Longrightarrow> R s' s'' \<Longrightarrow> R s s''"
  unfolding mail_kept_def by (blast dest: transpD)

lemma ocr_kept_refl [simp]: "ocr_kept R V \<Longrightarrow> R s s"
  by (simp add: ocr_kept_def reflpD)

lemma ocr_kept_trans: "ocr_kept R V \<Longrightarrow> R s s' \<Longrightarrow> R s' s'' \<Longrightarrow> R s s''"
  unfolding ocr_kept_def by (blast dest: transpD)

lemma send_mail_kept: "mail_kept R V \<Longrightarrow> send_mail V c m w = (r, w') \<Longrightarrow> R (pw_mail w) (pw_mail w')"
proof -
  assume "mail_kept R V"
  then have "R (pw_mail w) (snd (sv_send V c m (pw_mail w)))" by (simp add: mail_kept_def)
  moreover assume "send_mail V c m w = (r, w')"
  ultimately show ?thesis by (auto simp: send_mail_def split: prod.splits)
qed

lemma notice_kept: "mail_kept R V \<Longrightarrow> R (pw_mail w) (pw_mail (notice V url j reason w))"
  unfolding notice_def using send_mail_kept by (metis prod.collapse)

lemma fail_job_kept: "mail_kept R V \<Longrightarrow> R (pw_mail w) (pw_mail (fail_job V url j reason w))"
proof -
  assume k: "mail_kept R V"
  let ?w1 = "snd (store_call V (set_status (job_id j) StatusFailed reason (sv_now V (pw_tick w))) w)"
  from notice_kept [OF k, of ?w1 url j reason] k show ?thesis by (simp add: fail_job_def Let_def)
qed

lemma after_ocr_kept:
  assumes k: "mail_kept R V"
  shows "R (pw_mail w) (pw_mail (after_ocr V url j w))"
proof (cases "Email (caps j)")
  case False
  with k show ?thesis by (simp add: after_ocr_def)
next
  case True
  obtain r w1 where s: "send_mail V JobContext (scan_message V j) w = (r, w1)"
    by (cases "send_mail V JobContext (scan_message V j) w")
  note w1 = send_mail_kept [OF k s]
  show ?thesis
  proof (cases r)
    case MailOk
    with True s w1 show ?thesis by (simp add: after_ocr_def deliver_def)
  next
    case MailTooLarge
    with True s mail_kept_trans [OF k w1 notice_kept [OF k]] show ?thesis by (simp add: after_ocr_def deliver_def)
  next
    case MailFailed
    with True s mail_kept_trans [OF k w1 fail_job_kept [OF k]] show ?thesis by (simp add: after_ocr_def deliver_def)
  qed
qed

lemma run_ocr_kept:
  assumes k: "ocr_kept R V"
  shows "run_ocr V jid ds w = (r, w') \<Longrightarrow> R (pw_ocr w) (pw_ocr w')"
proof (induction ds arbitrary: w r)
  case Nil
  with k show ?case by simp
next
  case (Cons d ds)
  have ocr: "R s s'" if "sv_ocr V pdf s = (x, s')" for pdf s x s'
    using k that unfolding ocr_kept_def by (metis snd_conv)
  from Cons.prems show ?case
  proof (cases rule: run_ocr_cons_cases)
    case gone
    with k show ?thesis by simp
  next
    case (uncreated e)
    then have "pw_ocr w' = pw_ocr w" using store_call_services(2) by (metis snd_conv)
    with k show ?thesis by simp
  next
    case (unread f w1 content ok out o')
    have "pw_ocr w1 = pw_ocr w" using unread(1) store_call_services(2) by (metis snd_conv)
    with ocr [OF unread(2)] unread show ?thesis by simp
  next
    case (unplaced f w1 content out o' w2 rr)
    have "pw_ocr w1 = pw_ocr w" using unplaced(1) store_call_services(2) by (metis snd_conv)
    moreover have "pw_ocr w' = pw_ocr w2" using unplaced(5) store_call_services(2) by (metis snd_conv)
    ultimately show ?thesis using ocr [OF unplaced(3)] unplaced(4) by simp
  next
    case (placed f w1 content out o' w2 u w3 c rs)
    have "pw_ocr w1 = pw_ocr w" using placed(1) store_call_services(2) by (metis snd_conv)
    moreover have "pw_ocr w3 = pw_ocr w2" using placed(5) store_call_services(2) by (metis snd_conv)
    ultimately have "R (pw_ocr w) (pw_ocr w3)" using ocr [OF placed(3)] placed(4) by simp
    with ocr_kept_trans [OF k] Cons.IH [OF placed(7)] show ?thesis by blast
  qed
qed

text \<open>\<open>process\<close>, way by way.\<close>

lemma process_cases:
  assumes "process V url j w = w'"
  obtains (gone) e where "store_call V (set_status (job_id j) StatusProcessing [] (sv_now V (pw_tick w))) w = (Inl e, w')"
  | (failed) w1 w2 reason where "pw_mail w1 = pw_mail w" "pw_ocr w1 = pw_ocr w"
      "run_ocr V (job_id j) (documents j) w1 = (None, w2)" "w' = fail_job V url j reason w2"
  | (recognised) w1 w2 ds where "pw_mail w1 = pw_mail w" "pw_ocr w1 = pw_ocr w"
      "run_ocr V (job_id j) (documents j) w1 = (Some ds, w2)" "w' = after_ocr V url (j\<lparr>documents := ds\<rparr>) w2"
  | (plain) w1 where "pw_mail w1 = pw_mail w" "pw_ocr w1 = pw_ocr w" "w' = after_ocr V url j w1"
proof -
  obtain r w1 where s: "store_call V (set_status (job_id j) StatusProcessing [] (sv_now V (pw_tick w))) w = (r, w1)"
    by (cases "store_call V (set_status (job_id j) StatusProcessing [] (sv_now V (pw_tick w))) w")
  have m: "pw_mail w1 = pw_mail w" "pw_ocr w1 = pw_ocr w" using store_call_services s by (metis snd_conv)+
  show thesis
  proof (cases r)
    case (Inl e)
    with s assms gone show thesis by (simp add: process_def)
  next
    case (Inr u)
    show thesis
    proof (cases "OCR (caps j)")
      case False
      with Inr s assms plain [OF m] show thesis by (simp add: process_def)
    next
      case True
      obtain od w2 where o: "run_ocr V (job_id j) (documents j) w1 = (od, w2)"
        by (cases "run_ocr V (job_id j) (documents j) w1")
      show thesis
      proof (cases od)
        case None
        with True Inr s o assms
        have "w' = fail_job V url j (if Web (caps j) then reason_ocr_failed_web else reason_ocr_failed) w2"
          by (simp add: process_def)
        with failed [OF m o [unfolded None]] show thesis by blast
      next
        case (Some ds)
        with True Inr s o assms recognised [OF m, of ds w2] show thesis by (simp add: process_def)
      qed
    qed
  qed
qed

lemma process_mail_kept:
  assumes k: "mail_kept R V"
  shows "R (pw_mail w) (pw_mail (process V url j w))"
  using refl [of "process V url j w"]
proof (cases rule: process_cases)
  case (gone e)
  then have "pw_mail (process V url j w) = pw_mail w" using store_call_services(1) by (metis snd_conv)
  with k show ?thesis by simp
next
  case (failed w1 w2 reason)
  have "pw_mail w2 = pw_mail w" using run_ocr_mail [OF failed(3)] failed(1) by simp
  with fail_job_kept [OF k, of w2] failed(4) show ?thesis by simp
next
  case (recognised w1 w2 ds)
  have "pw_mail w2 = pw_mail w" using run_ocr_mail [OF recognised(3)] recognised(1) by simp
  with after_ocr_kept [OF k, of w2] recognised(4) show ?thesis by simp
next
  case (plain w1)
  with after_ocr_kept [OF k, of w1] show ?thesis by simp
qed

lemma process_ocr_kept:
  assumes k: "ocr_kept R V"
  shows "R (pw_ocr w) (pw_ocr (process V url j w))"
  using refl [of "process V url j w"]
proof (cases rule: process_cases)
  case (gone e)
  then have "pw_ocr (process V url j w) = pw_ocr w" using store_call_services(2) by (metis snd_conv)
  with k show ?thesis by simp
next
  case (failed w1 w2 reason)
  with run_ocr_kept [OF k failed(3)] show ?thesis by simp
next
  case (recognised w1 w2 ds)
  with run_ocr_kept [OF k recognised(3)] show ?thesis by simp
next
  case (plain w1)
  with k show ?thesis by simp
qed

section \<open>Over any mailer and any networked OCR service\<close>

context mailer
begin

lemma kept: "sv_send V = send \<Longrightarrow> mail_kept (grown traffic fit) V"
  unfolding mail_kept_def using traffic_grows by (auto intro: reflpI transpI grown_trans)

lemma job_traffic: "sv_send V = send \<Longrightarrow> grown traffic fit (pw_mail w) (pw_mail (process V url j w))"
  by (rule process_mail_kept [OF kept])

end

context networked_ocr
begin

lemma kept: "sv_ocr V = ocr \<Longrightarrow> ocr_kept (grown calls fit) V"
  unfolding ocr_kept_def using calls_grow by (auto intro: reflpI transpI grown_trans)

lemma job_calls: "sv_ocr V = ocr \<Longrightarrow> grown calls fit (pw_ocr w) (pw_ocr (process V url j w))"
  by (rule process_ocr_kept [OF kept])

end

section \<open>Over the program's own clients\<close>

text \<open>C29: Processing a job shows the tokens to nobody else. With the pipeline wired to the two clients of the program, and an
  OCR endpoint that names a scheme and a host, everything the processing of one job sends, whatever services, disk and
  other goroutines do, is a request of the OCR client to that endpoint's origin, a request of the mail client below
  the sender's mailbox, or a chunk without a token.\<close>

theorem job_tokens_stay_home:
  assumes "sv_ocr V = docintel_ocr N js dc room fuel" "sv_send V = graph_send Es gc" "endpoint_ok dc"
  shows "grown ht_log (own_request dc) (pw_ocr w) (pw_ocr (process V url j w)) \<and>
         grown ht_log (\<lambda>rq. graph_request gc rq \<and> fitting gc rq) (pw_mail w) (pw_mail (process V url j w))"
  using grown_mono [OF docintel.job_calls [OF assms(1)]] graph.job_traffic [OF assms(2)] assms(3) by blast

definition ex_graph :: graph_client where
  "ex_graph = \<lparr>gc_base_url = ''https://graph.x/v1.0'', gc_sender = ''scan@x.org'', gc_large_scans = True\<rparr>"

definition ex_wired :: "(nat http, nat http) services" where
  "ex_wired = \<lparr>sv_now = (\<lambda>_. 7), sv_env = (\<lambda>_ s. s), sv_mid = (\<lambda>_ s. s),
     sv_temp = (\<lambda>_ d p. Some (d @ ''/'' @ p @ ''1'')), sv_close = (\<lambda>_. True), sv_date = (\<lambda>_. ''today''),
     sv_ocr = docintel_ocr ex_di_net (\<lambda>_. Some (''succeeded'', None)) ex_di None 5,
     sv_send = graph_send (\<lambda>_ _. \<lparr>ge_net = ex_di_net, ge_field = (\<lambda>_ _. Some ''id''), ge_date = ''today'',
       ge_boundary = ''b'', ge_files = (\<lambda>_. Some ''%PDF-1.7'')\<rparr>) ex_graph\<rparr>"

definition ex_wired_world :: "(nat http, nat http) world" where
  "ex_wired_world = \<lparr>pw_store = sys_store (ex_committed [ex_dir @ ''/f'']), pw_files = (\<lambda>_. Some ''%PDF-0''),
     pw_ocr = ex_http, pw_mail = ex_http, pw_tick = 0, pw_sent = []\<rparr>"

theorem job_tokens_stay_home_witness:
  "grown ht_log (own_request ex_di) ex_http (pw_ocr (process ex_wired [] ex_committed_job ex_wired_world)) \<and>
   grown ht_log (\<lambda>rq. graph_request ex_graph rq \<and> fitting ex_graph rq) ex_http
     (pw_mail (process ex_wired [] ex_committed_job ex_wired_world))"
proof -
  have "endpoint_ok ex_di" by (simp add: endpoint_ok_def ex_di_endpoint empty_url_def)
  moreover have "pw_ocr ex_wired_world = ex_http" "pw_mail ex_wired_world = ex_http" by (simp_all add: ex_wired_world_def)
  ultimately show ?thesis
    using job_tokens_stay_home [of ex_wired ex_di_net _ ex_di None 5 _ ex_graph ex_wired_world "[]" ex_committed_job]
    by (simp add: ex_wired_def)
qed

end
