(* ===== verification/Config_File.thy ===== *)
theory Config_File
  imports Go_Strings "HOL-Library.List_Lexorder" "HOL-Library.Char_ord"
begin

text \<open>
  \<open>internal/config/file.go\<close>: the configuration file and how it is layered under the process environment. An
  environment is a function from names to values, empty for unset; a parsed file is an association list in file order,
  without duplicate names.
\<close>

section \<open>One line\<close>

definition quote_mark :: "char \<Rightarrow> bool" where
  "quote_mark c = (byte c = 39 \<or> byte c = 34)"

definition unquote :: "string \<Rightarrow> string" where
  "unquote s = (if 2 \<le> length s \<and> quote_mark (hd s) \<and> last s = hd s then butlast (tl s) else s)"

datatype file_line = Skipped | Setting string string | Malformed

definition parse_line :: "string \<Rightarrow> file_line" where
  "parse_line raw =
     (let line = trim_space (trim_prefix ''export '' (trim_space raw)) in
      if line = [] \<or> prefix ''#'' line then Skipped
      else (case cut (CHR ''='') line of
              None \<Rightarrow> Malformed
            | Some (n, v) \<Rightarrow>
                let name = trim_space n in
                if name = [] \<or> CHR '' '' \<in> set name \<or> CHR 0x09 \<in> set name then Malformed
                else Setting name (unquote (trim_space v))))"

section \<open>The file\<close>

datatype file_error = FileUnreadable | BadLine nat | DuplicateKey nat string

fun parse_lines :: "nat \<Rightarrow> (string \<times> string) list \<Rightarrow> string list \<Rightarrow> file_error + (string \<times> string) list" where
  "parse_lines i out [] = Inr out"
| "parse_lines i out (l # ls) =
     (case parse_line l of
        Skipped \<Rightarrow> parse_lines (i + 1) out ls
      | Malformed \<Rightarrow> Inl (BadLine i)
      | Setting n v \<Rightarrow>
          if n \<in> fst ` set out then Inl (DuplicateKey i n)
          else parse_lines (i + 1) (out @ [(n, v)]) ls)"

definition byte_order_mark :: string where
  "byte_order_mark = [CHR 0xEF, CHR 0xBB, CHR 0xBF]"

definition parse_file :: "(string \<Rightarrow> string option) \<Rightarrow> string \<Rightarrow> file_error + (string \<times> string) list" where
  "parse_file disk path =
     (case disk path of
        None \<Rightarrow> Inl FileUnreadable
      | Some text \<Rightarrow> parse_lines 1 [] (split_on (CHR 0x0A) (trim_prefix byte_order_mark text)))"

section \<open>Layering\<close>

definition paired_name :: "string \<Rightarrow> string" where
  "paired_name name =
     (if suffix ''_FILE'' name then take (length name - length ''_FILE'') name else name @ ''_FILE'')"

definition lookup :: "(string \<times> string) list \<Rightarrow> string \<Rightarrow> string" where
  "lookup kvs k = (case map_of kvs k of None \<Rightarrow> [] | Some v \<Rightarrow> v)"

definition layer :: "(string \<times> string) list \<Rightarrow> (string \<Rightarrow> string) \<Rightarrow> string \<Rightarrow> string" where
  "layer file environ name =
     (if environ name \<noteq> [] then environ name
      else if environ (paired_name name) \<noteq> [] then [] else lookup file name)"

definition file_env ::
  "(string \<Rightarrow> string option) \<Rightarrow> string \<Rightarrow> (string \<Rightarrow> string) \<Rightarrow> file_error + ((string \<Rightarrow> string) \<times> string list)" where
  "file_env disk path environ =
     (if path = [] then Inr (environ, [])
      else (case parse_file disk path of
              Inl e \<Rightarrow> Inl e
            | Inr file \<Rightarrow>
                Inr (layer file environ,
                     sort (filter (\<lambda>n. environ n \<noteq> [] \<or> environ (paired_name n) \<noteq> []) (map fst file)))))"

lemma parse_lines_distinct: "distinct (map fst out) \<Longrightarrow> parse_lines i out ls = Inr kvs \<Longrightarrow> distinct (map fst kvs)"
proof (induction ls arbitrary: i out)
  case (Cons l ls)
  show ?case
  proof (cases "parse_line l")
    case (Setting n v)
    with Cons.prems Cons.IH [of "out @ [(n, v)]" "i + 1"] show ?thesis by (auto split: if_splits)
  qed (use Cons in auto)
qed simp

lemma paired_name_cases:
  obtains (indirect) n where "name = n @ ''_FILE''" "paired_name name = n"
  | (direct) "\<not> suffix ''_FILE'' name" "paired_name name = name @ ''_FILE''"
  by (auto simp: paired_name_def suffix_def)

end
