(* ===== verification/Config_Env.thy ===== *)
theory Config_Env
  imports Config_File Config_Address Go_Url Msapi
begin

text \<open>
  \<open>internal/config/env.go\<close>: reading typed settings. The loader of the code collects errors as it goes and looks at them
  only at the end, so a reading is its value together with the errors it recorded, in order. An error is its kind and
  the setting it names.
\<close>

datatype cfg_error =
    BothSet string | FileUnread string | Missing string | BadDuration string | TooShort string | BadBool string
  | BadInt string | NotPositive string | BadUrl string | NotPlainPath string | BadProfiles | BadProfileKey string
  | EmptyProfile string | ProfileCollision string string | BadDomain string | NoAllowlist | BadSender string
  | AnonymousContradiction | UserWithoutPassword | EmptyPassword | EmptyUser | NoDelivery | StoreTooSmall
  | BadLevel | BadFormat

type_synonym 'a reading = "'a \<times> cfg_error list"

text \<open>
  What the loader reads through: the environment, the files \<open>S2G_X_FILE\<close> points at, the text of a fresh random
  password, the directory for temporary files, lower-casing above ASCII, and the product of the fraction of a duration
  with its unit, which the code computes in floating point.
\<close>

record cfg_env =
  ce_getenv :: "string \<Rightarrow> string"
  ce_read :: "string \<Rightarrow> string option"
  ce_random :: string
  ce_temp :: string
  ce_low :: "rune \<Rightarrow> rune"
  ce_fraction :: "nat \<Rightarrow> nat \<Rightarrow> nat \<Rightarrow> nat"

section \<open>resolve\<close>

definition resolve :: "cfg_env \<Rightarrow> string \<Rightarrow> string option reading" where
  "resolve E name =
     (let direct = ce_getenv E name; file_path = ce_getenv E (name @ ''_FILE'') in
      if direct \<noteq> [] \<and> file_path \<noteq> [] then (None, [BothSet name])
      else if file_path \<noteq> [] then
        (case ce_read E file_path of
           None \<Rightarrow> (None, [FileUnread name])
         | Some text \<Rightarrow> (Some (trim_right_set ('' '' @ [CHR 0x09, CHR 0x0D, CHR 0x0A]) text), []))
      else if direct \<noteq> [] then (Some direct, [])
      else (None, []))"

abbreviation value_of :: "string option \<Rightarrow> string" where
  "value_of v \<equiv> (case v of None \<Rightarrow> [] | Some x \<Rightarrow> x)"

text \<open>\<open>Resolve\<close>: the same reading, its errors dropped.\<close>

definition resolve_value :: "cfg_env \<Rightarrow> string \<Rightarrow> string" where
  "resolve_value E name = value_of (fst (resolve E name))"

definition resolve_required :: "cfg_env \<Rightarrow> string \<Rightarrow> string option reading" where
  "resolve_required E name =
     (case resolve E name of
        (v, es) \<Rightarrow> if v \<noteq> None \<and> v \<noteq> Some [] then (v, es) else (None, es @ [Missing name]))"

definition required_if :: "cfg_env \<Rightarrow> string \<Rightarrow> bool \<Rightarrow> string reading" where
  "required_if E name required =
     (case (if required then resolve_required E name else resolve E name) of (v, es) \<Rightarrow> (value_of v, es))"

definition string_default :: "cfg_env \<Rightarrow> string \<Rightarrow> string \<Rightarrow> string reading" where
  "string_default E name def = (case resolve E name of (None, es) \<Rightarrow> (def, es) | (Some v, es) \<Rightarrow> (v, es))"

section \<open>time.ParseDuration\<close>

text \<open>Leading digits; \<open>None\<close> above 2 to the 63.\<close>

fun leading_int :: "nat \<Rightarrow> string \<Rightarrow> (nat \<times> string) option" where
  "leading_int x [] = Some (x, [])"
| "leading_int x (c # cs) =
     (if 48 \<le> byte c \<and> byte c \<le> 57 then
        (if 2 ^ 63 div 10 < x then None
         else (let y = x * 10 + (byte c - 48) in if 2 ^ 63 < y then None else leading_int y cs))
      else Some (x, c # cs))"

text \<open>The digits of a fraction: their value, the scale, the rest; digits that would overflow are dropped.\<close>

fun leading_fraction :: "nat \<Rightarrow> nat \<Rightarrow> bool \<Rightarrow> string \<Rightarrow> nat \<times> nat \<times> string" where
  "leading_fraction x scale over [] = (x, scale, [])"
| "leading_fraction x scale over (c # cs) =
     (if 48 \<le> byte c \<and> byte c \<le> 57 then
        (if over then leading_fraction x scale over cs
         else if (2 ^ 63 - 1) div 10 < x then leading_fraction x scale True cs
         else (let y = x * 10 + (byte c - 48) in
               if 2 ^ 63 < y then leading_fraction x scale True cs
               else leading_fraction y (scale * 10) False cs))
      else (x, scale, c # cs))"

definition unit_char :: "char \<Rightarrow> bool" where
  "unit_char c = (c \<noteq> CHR ''.'' \<and> \<not> (48 \<le> byte c \<and> byte c \<le> 57))"

definition duration_unit :: "string \<Rightarrow> nat option" where
  "duration_unit u =
     (if u = ''ns'' then Some 1
      else if u = ''us'' \<or> u = [CHR 0xC2, CHR 0xB5, CHR ''s''] \<or> u = [CHR 0xCE, CHR 0xBC, CHR ''s''] then Some 1000
      else if u = ''ms'' then Some 1000000
      else if u = ''s'' then Some 1000000000
      else if u = ''m'' then Some 60000000000
      else if u = ''h'' then Some 3600000000000
      else None)"

text \<open>One number with its unit; the value so far is \<open>d\<close>.\<close>

definition duration_term :: "(nat \<Rightarrow> nat \<Rightarrow> nat \<Rightarrow> nat) \<Rightarrow> nat \<Rightarrow> string \<Rightarrow> (nat \<times> string) option" where
  "duration_term frac d s =
     (if s = [] \<or> (hd s \<noteq> CHR ''.'' \<and> \<not> (48 \<le> byte (hd s) \<and> byte (hd s) \<le> 57)) then None
      else (case leading_int 0 s of
        None \<Rightarrow> None
      | Some (v, s1) \<Rightarrow>
          let dot = (s1 \<noteq> [] \<and> hd s1 = CHR ''.'');
              (f, scale, s2) = (if dot then leading_fraction 0 1 False (tl s1) else (0, 1, s1));
              pre = (length s1 \<noteq> length s);
              post = (dot \<and> length s2 \<noteq> length (tl s1));
              u = takeWhile unit_char s2
          in if \<not> pre \<and> \<not> post \<or> u = [] then None
             else (case duration_unit u of
                     None \<Rightarrow> None
                   | Some unit \<Rightarrow>
                       if 2 ^ 63 div unit < v then None
                       else (let w = v * unit + (if 0 < f then frac f unit scale else 0) in
                             if 2 ^ 63 < w \<or> 2 ^ 63 < d + w then None
                             else Some (d + w, dropWhile unit_char s2)))))"

text \<open>The loop over the terms; every one consumes its unit, so the length of the text is enough fuel.\<close>

fun duration_terms :: "(nat \<Rightarrow> nat \<Rightarrow> nat \<Rightarrow> nat) \<Rightarrow> nat \<Rightarrow> nat \<Rightarrow> string \<Rightarrow> nat option" where
  "duration_terms frac fuel d [] = Some d"
| "duration_terms frac 0 d (c # cs) = None"
| "duration_terms frac (Suc fuel) d (c # cs) =
     (case duration_term frac d (c # cs) of None \<Rightarrow> None | Some (d', s') \<Rightarrow> duration_terms frac fuel d' s')"

definition parse_duration :: "(nat \<Rightarrow> nat \<Rightarrow> nat \<Rightarrow> nat) \<Rightarrow> string \<Rightarrow> duration option" where
  "parse_duration frac s =
     (let neg = prefix ''-'' s; t = (if neg \<or> prefix ''+'' s then tl s else s) in
      if t = ''0'' then Some 0
      else if t = [] then None
      else (case duration_terms frac (length t) 0 t of
              None \<Rightarrow> None
            | Some d \<Rightarrow> if neg then Some (- int d) else if 2 ^ 63 - 1 < d then None else Some (int d)))"

section \<open>Typed values\<close>

definition duration_value :: "cfg_env \<Rightarrow> string \<Rightarrow> duration \<Rightarrow> (duration \<times> bool) reading" where
  "duration_value E name def =
     (case resolve E name of
        (None, es) \<Rightarrow> ((def, False), es)
      | (Some raw, es) \<Rightarrow>
          (case parse_duration (ce_fraction E) raw of
             None \<Rightarrow> ((def, False), es @ [BadDuration name])
           | Some d \<Rightarrow> ((d, True), es)))"

definition duration_at_least :: "cfg_env \<Rightarrow> string \<Rightarrow> duration \<Rightarrow> duration \<Rightarrow> duration reading" where
  "duration_at_least E name def least =
     (case duration_value E name def of
        ((d, resolved), es) \<Rightarrow> (d, es @ (if resolved \<and> d < least then [TooShort name] else [])))"

text \<open>\<open>strconv.ParseBool\<close>.\<close>

definition parse_bool :: "string \<Rightarrow> bool option" where
  "parse_bool s =
     (if s \<in> set [''1'', ''t'', ''T'', ''true'', ''TRUE'', ''True''] then Some True
      else if s \<in> set [''0'', ''f'', ''F'', ''false'', ''FALSE'', ''False''] then Some False
      else None)"

definition bool_value :: "cfg_env \<Rightarrow> string \<Rightarrow> bool \<Rightarrow> (bool \<times> bool) reading" where
  "bool_value E name def =
     (case resolve E name of
        (None, es) \<Rightarrow> ((def, False), es)
      | (Some raw, es) \<Rightarrow>
          (case parse_bool raw of
             None \<Rightarrow> ((def, False), es @ [BadBool name])
           | Some b \<Rightarrow> ((b, True), es)))"

text \<open>\<open>strconv.Atoi\<close> and \<open>strconv.ParseInt\<close> in base ten read the same numbers where an int has 64 bits.\<close>

definition int_positive :: "cfg_env \<Rightarrow> string \<Rightarrow> int \<Rightarrow> int reading" where
  "int_positive E name def =
     (case resolve E name of
        (None, es) \<Rightarrow> (def, es)
      | (Some raw, es) \<Rightarrow>
          (case atoi raw of
             None \<Rightarrow> (def, es @ [BadInt name])
           | Some n \<Rightarrow> (n, es @ (if n \<le> 0 then [NotPositive name] else []))))"

definition int64_positive :: "cfg_env \<Rightarrow> string \<Rightarrow> int \<Rightarrow> int reading" where
  "int64_positive E name def =
     (case resolve E name of
        (None, es) \<Rightarrow> (def, es)
      | (Some raw, es) \<Rightarrow>
          (case atoi raw of
             None \<Rightarrow> (def, es @ [BadInt name])
           | Some n \<Rightarrow> (n, es @ (if n \<le> 0 then [NotPositive name] else []))))"

section \<open>URLs\<close>

definition parse_base_url :: "string list \<Rightarrow> string \<Rightarrow> string option" where
  "parse_base_url schemes v =
     (case url_parse v of
        None \<Rightarrow> None
      | Some u \<Rightarrow>
          if \<not> is_abs_url u \<or> u_scheme u \<notin> set schemes \<or> u_host u = [] then None
          else if u_raw_query u \<noteq> [] \<or> u_fragment u \<noteq> [] then None
          else Some (url_string (u\<lparr>u_path := trim_right_set ''/'' (u_path u)\<rparr>)))"

definition base_url :: "cfg_env \<Rightarrow> string \<Rightarrow> bool \<Rightarrow> string list \<Rightarrow> string reading" where
  "base_url E name required schemes =
     (case required_if E name required of
        (raw, es) \<Rightarrow>
          if raw = [] then ([], es)
          else (case parse_base_url schemes raw of None \<Rightarrow> ([], es @ [BadUrl name]) | Some v \<Rightarrow> (v, es)))"

definition segment_first :: "char \<Rightarrow> bool" where
  "segment_first c = (48 \<le> byte c \<and> byte c \<le> 57 \<or> 65 \<le> byte c \<and> byte c \<le> 90 \<or> 97 \<le> byte c \<and> byte c \<le> 122 \<or> c \<in> set ''_~-'')"

text \<open>The regular expression \<open>plainSubpath\<close> as an automaton: between segments, or inside one.\<close>

fun plain_from :: "bool \<Rightarrow> string \<Rightarrow> bool" where
  "plain_from inside [] = True"
| "plain_from False (c # cs) = (c = CHR ''/'' \<and> cs \<noteq> [] \<and> segment_first (hd cs) \<and> plain_from True (tl cs))"
| "plain_from True (c # cs) =
     (if c = CHR ''/'' then cs \<noteq> [] \<and> segment_first (hd cs) \<and> plain_from True (tl cs)
      else (segment_first c \<or> c = CHR ''.'') \<and> plain_from True cs)"

definition plain_subpath :: "string \<Rightarrow> bool" where
  "plain_subpath s = plain_from False s"

definition public_base_url_value :: "cfg_env \<Rightarrow> string \<Rightarrow> bool \<Rightarrow> string reading" where
  "public_base_url_value E name required =
     (case base_url E name required [''http'', ''https''] of
        (v, es) \<Rightarrow>
          if v = [] then ([], es)
          else (case url_parse v of
                  None \<Rightarrow> ([], es @ [NotPlainPath name])
                | Some u \<Rightarrow> if plain_subpath (escaped_path u) then (v, es) else ([], es @ [NotPlainPath name])))"

definition base_url_default :: "cfg_env \<Rightarrow> string \<Rightarrow> string \<Rightarrow> string list \<Rightarrow> string reading" where
  "base_url_default E name def schemes =
     (case resolve E name of
        (v, es) \<Rightarrow>
          (case parse_base_url schemes (case v of None \<Rightarrow> def | Some x \<Rightarrow> x) of
             None \<Rightarrow> ([], es @ [BadUrl name]) | Some u \<Rightarrow> (u, es)))"

text \<open>\<open>ResolveBaseURL\<close> and \<open>BasePath\<close>.\<close>

definition resolve_base_url :: "cfg_env \<Rightarrow> string \<Rightarrow> string" where
  "resolve_base_url E name = fst (public_base_url_value E name False)"

definition base_path :: "string \<Rightarrow> string" where
  "base_path base = (case url_parse base of None \<Rightarrow> [] | Some u \<Rightarrow> trim_right_set ''/'' (u_path u))"

end
