(* ===== verification/Config_Load.thy ===== *)
theory Config_Load
  imports Config_Env Go_Json
begin

text \<open>
  \<open>Load\<close> of \<open>internal/config/config.go\<close>, with \<open>ParseProfiles\<close> of \<open>env.go\<close>: every setting, the errors in the order the
  code records them, and the configuration when there are none. The profiles come in the order of the text; the code's
  map has no order, which only decides which of two colliding keys an error names.
\<close>

section \<open>ParseProfiles\<close>

text \<open>Field names match without regard to case, later fields win, null leaves a field as it is.\<close>

definition ascii_fold :: "string \<Rightarrow> string" where
  "ascii_fold s = map (\<lambda>c. if 65 \<le> byte c \<and> byte c \<le> 90 then char_of (byte c + 32) else c) s"

definition set_capability :: "string \<Rightarrow> bool \<Rightarrow> capabilities \<Rightarrow> capabilities option" where
  "set_capability name b c =
     (let f = ascii_fold name in
      if f = ''email'' then Some (c\<lparr>cap_email := b\<rparr>)
      else if f = ''web'' then Some (c\<lparr>cap_web := b\<rparr>)
      else if f = ''ocr'' then Some (c\<lparr>cap_ocr := b\<rparr>)
      else None)"

fun decode_members :: "capabilities \<Rightarrow> (string \<times> jv) list \<Rightarrow> capabilities option" where
  "decode_members c [] = Some c"
| "decode_members c ((k, v) # kvs) =
     (case v of
        JBool b \<Rightarrow> (case set_capability k b c of None \<Rightarrow> None | Some c' \<Rightarrow> decode_members c' kvs)
      | JNull \<Rightarrow> (if set_capability k False c = None then None else decode_members c kvs)
      | _ \<Rightarrow> None)"

fun decode_capabilities :: "jv \<Rightarrow> capabilities option" where
  "decode_capabilities (JMap kvs) = decode_members no_caps kvs"
| "decode_capabilities JNull = Some no_caps"
| "decode_capabilities v = None"

fun decode_profiles :: "(string \<times> jv) list \<Rightarrow> (string \<times> capabilities) list option" where
  "decode_profiles [] = Some []"
| "decode_profiles ((k, v) # kvs) =
     (case decode_capabilities v of
        None \<Rightarrow> None
      | Some c \<Rightarrow> map_option (\<lambda>ps. (k, c) # ps) (decode_profiles kvs))"

definition duplicate_json_key :: "string \<Rightarrow> bool option" where
  "duplicate_json_key raw = map_option (\<lambda>(v, rest). json_has_duplicate v) (json_decode raw)"

definition parse_profiles :: "string \<Rightarrow> (string \<times> capabilities) list option" where
  "parse_profiles raw =
     (if duplicate_json_key raw \<noteq> Some False then None
      else (case json_decode raw of
              None \<Rightarrow> None
            | Some (v, rest) \<Rightarrow>
                if json_more rest then None
                else (case v of
                        JMap kvs \<Rightarrow> decode_profiles kvs
                      | JNull \<Rightarrow> Some []
                      | _ \<Rightarrow> None)))"

section \<open>Profiles, domains, sender\<close>

fun profile_entries ::
  "(rune \<Rightarrow> rune) \<Rightarrow> (string \<times> capabilities) list \<Rightarrow> (string \<times> capabilities) list \<Rightarrow> (string \<times> capabilities) list reading" where
  "profile_entries low out [] = (out, [])"
| "profile_entries low out ((k, cp) # raw) =
     (let canon = normalize_address low k in
      if canon = [] then (case profile_entries low out raw of (r, es) \<Rightarrow> (r, BadProfileKey k # es))
      else if cp = no_caps then (case profile_entries low out raw of (r, es) \<Rightarrow> (r, EmptyProfile k # es))
      else if canon \<in> fst ` set out then (case profile_entries low out raw of (r, es) \<Rightarrow> (r, ProfileCollision k canon # es))
      else profile_entries low (out @ [(canon, cp)]) raw)"

definition read_profiles :: "cfg_env \<Rightarrow> (string \<times> capabilities) list reading" where
  "read_profiles E =
     (case string_default E ''S2G_PROFILES'' ([CHR 0x7B, CHR 0x7D]) of
        (raw, es) \<Rightarrow>
          (case parse_profiles raw of
             None \<Rightarrow> ([], es @ [BadProfiles])
           | Some ps \<Rightarrow> (case profile_entries (ce_low E) [] ps of (out, es') \<Rightarrow> (out, es @ es'))))"

definition read_domains :: "cfg_env \<Rightarrow> bool \<Rightarrow> string list reading" where
  "read_domains E required =
     (case resolve E ''S2G_ALLOWED_RECIPIENT_DOMAINS'' of
        (v, es) \<Rightarrow>
          (case (case v of None \<Rightarrow> ([], []) | Some raw \<Rightarrow> parse_domains (ce_low E) raw) of
             (ds, bad) \<Rightarrow> (ds, es @ map BadDomain bad @ (if required \<and> ds = [] then [NoAllowlist] else []))))"

definition read_graph_sender :: "cfg_env \<Rightarrow> bool \<Rightarrow> string reading" where
  "read_graph_sender E required =
     (case required_if E ''S2G_GRAPH_SENDER'' required of
        (raw, es) \<Rightarrow>
          if raw = [] then ([], es)
          else (let n = normalize_address (ce_low E) raw in
                if n = [] then ([], es @ [BadSender raw]) else (n, es)))"

section \<open>SMTP AUTH\<close>

record smtp_auth_result =
  sa_user :: string
  sa_password :: string
  sa_anonymous :: bool
  sa_generated :: bool

definition smtp_auth :: "cfg_env \<Rightarrow> smtp_auth_result reading" where
  "smtp_auth E =
     (case resolve E ''S2G_SMTP_USERNAME'' of (user, e1) \<Rightarrow>
      case resolve E ''S2G_SMTP_PASSWORD'' of (pass, e2) \<Rightarrow>
      case bool_value E ''S2G_SMTP_ALLOW_ANONYMOUS'' False of ((anon, _), e3) \<Rightarrow>
      let user_set = (user \<noteq> None); pass_set = (pass \<noteq> None);
          e4 = (if anon \<and> (user_set \<or> pass_set) then [AnonymousContradiction] else [])
      in if anon then (\<lparr>sa_user = [], sa_password = [], sa_anonymous = True, sa_generated = False\<rparr>, e1 @ e2 @ e3 @ e4)
         else
           let e5 = (if user_set \<and> \<not> pass_set then [UserWithoutPassword] else []);
               e6 = (if pass = Some [] then [EmptyPassword] else []);
               e7 = (if user = Some [] then [EmptyUser] else []);
               es = e1 @ e2 @ e3 @ e4 @ e5 @ e6 @ e7
           in (case pass of
                 Some p \<Rightarrow> (\<lparr>sa_user = (case user of Some u \<Rightarrow> u | None \<Rightarrow> ''scanner''), sa_password = p,
                             sa_anonymous = False, sa_generated = False\<rparr>, es)
               | None \<Rightarrow> (\<lparr>sa_user = ''scanner'', sa_password = ce_random E, sa_anonymous = False,
                          sa_generated = True\<rparr>, es)))"

section \<open>Tenant URLs, limits, logging\<close>

definition tenant_url :: "cfg_env \<Rightarrow> string \<Rightarrow> string \<Rightarrow> string \<Rightarrow> string reading" where
  "tenant_url E name tenant path =
     (case resolve E name of
        (Some raw, es) \<Rightarrow>
          (case parse_base_url [''http'', ''https''] raw of None \<Rightarrow> ([], es @ [BadUrl name]) | Some v \<Rightarrow> (v, es))
      | (None, es) \<Rightarrow>
          if tenant = [] then ([], es) else (''https://login.microsoftonline.com/'' @ tenant @ path, es))"

text \<open>Go's division truncates; both operands are positive where it matters.\<close>

definition read_limits :: "cfg_env \<Rightarrow> limits reading" where
  "read_limits E =
     (case int64_positive E ''S2G_MAX_MESSAGE_BYTES'' 33554432 of (msg, e1) \<Rightarrow>
      case int64_positive E ''S2G_MAX_STORED_BYTES'' 536870912 of (stored, e2) \<Rightarrow>
      case int_positive E ''S2G_MAX_CONCURRENT_JOBS'' 2 of (workers, e3) \<Rightarrow>
      (\<lparr>max_message_bytes = msg, max_stored_bytes = stored, max_concurrent_jobs = workers\<rparr>,
       e1 @ e2 @ e3 @ (if 0 < stored \<and> stored div 2 < msg then [StoreTooSmall] else [])))"

definition read_log_level :: "cfg_env \<Rightarrow> log_level reading" where
  "read_log_level E =
     (case resolve E ''S2G_LOG_LEVEL'' of
        (None, es) \<Rightarrow> (LevelInfo, es)
      | (Some raw, es) \<Rightarrow>
          (let v = to_lower (ce_low E) (trim_space raw) in
           if v = ''debug'' then (LevelDebug, es)
           else if v = ''info'' then (LevelInfo, es)
           else if v = ''warn'' \<or> v = ''warning'' then (LevelWarn, es)
           else if v = ''error'' then (LevelError, es)
           else (LevelInfo, es @ [BadLevel])))"

definition read_log_format :: "cfg_env \<Rightarrow> string reading" where
  "read_log_format E =
     (case resolve E ''S2G_LOG_FORMAT'' of
        (None, es) \<Rightarrow> (''json'', es)
      | (Some raw, es) \<Rightarrow>
          (let v = to_lower (ce_low E) (trim_space raw) in
           if v \<noteq> ''json'' \<and> v \<noteq> ''text'' then (''json'', es @ [BadFormat]) else (v, es)))"

section \<open>Load\<close>

definition default_caps :: "string \<Rightarrow> string list \<Rightarrow> string \<Rightarrow> string \<Rightarrow> capabilities" where
  "default_caps sender domains public_url endpoint =
     \<lparr>cap_email = (sender \<noteq> [] \<and> domains \<noteq> []), cap_web = (public_url \<noteq> []), cap_ocr = (endpoint \<noteq> [])\<rparr>"

definition default_errors :: "string \<Rightarrow> string list \<Rightarrow> capabilities \<Rightarrow> cfg_error list" where
  "default_errors sender domains cp =
     (if sender \<noteq> [] \<and> domains = [] then [NoAllowlist] else []) @
     (if \<not> cap_email cp \<and> \<not> cap_web cp then [NoDelivery] else [])"

text \<open>The configuration as it is filled in, with the errors recorded on the way; \<open>Load\<close> gives it out only without errors.\<close>

definition settings :: "cfg_env \<Rightarrow> config reading" where
  "settings E =
     (let http = string_default E ''S2G_HTTP_ADDR'' '':8080'';
          smtp = string_default E ''S2G_SMTP_ADDR'' '':2525'';
          temp = string_default E ''S2G_TEMP_DIR'' (ce_temp E);
          fmt = read_log_format E;
          level = read_log_level E;
          title = string_default E ''S2G_UI_TITLE'' [];
          auth = smtp_auth E;
          profs = read_profiles E;
          any_email = list_ex (\<lambda>p. cap_email (snd p)) (fst profs);
          any_web = list_ex (\<lambda>p. cap_web (snd p)) (fst profs);
          any_ocr = list_ex (\<lambda>p. cap_ocr (snd p)) (fst profs);
          endpoint = base_url E ''S2G_DI_ENDPOINT'' any_ocr [''https''];
          version = string_default E ''S2G_DI_API_VERSION'' ''2024-11-30'';
          dscope = string_default E ''S2G_DI_SCOPE'' ''https://cognitiveservices.azure.com/.default'';
          domains = read_domains E any_email;
          public_url = public_base_url_value E ''S2G_PUBLIC_BASE_URL'' any_web;
          sender = read_graph_sender E any_email;
          dflt = (if fst profs = [] then default_caps (fst sender) (fst domains) (fst public_url) (fst endpoint) else no_caps);
          dflt_errs = (if fst profs = [] then default_errors (fst sender) (fst domains) dflt else []);
          tenant = required_if E ''S2G_ENTRA_TENANT_ID'' True;
          client = required_if E ''S2G_ENTRA_CLIENT_ID'' True;
          secret = required_if E ''S2G_ENTRA_CLIENT_SECRET'' True;
          authority = tenant_url E ''S2G_ENTRA_AUTHORITY_URL'' (fst tenant) ''/v2.0'';
          token = tenant_url E ''S2G_ENTRA_TOKEN_URL'' (fst tenant) ''/oauth2/v2.0/token'';
          graph = base_url_default E ''S2G_GRAPH_BASE_URL'' ''https://graph.microsoft.com/v1.0'' [''http'', ''https''];
          gscope = string_default E ''S2G_GRAPH_SCOPE'' ''https://graph.microsoft.com/.default'';
          ttl = duration_at_least E ''S2G_JOB_TTL'' (8 * 3600 * 1000000000) (60 * 1000000000);
          lims = read_limits E;
          errs = snd http @ snd smtp @ snd temp @ snd fmt @ snd level @ snd title @ snd auth @ snd profs @
                 snd endpoint @ snd version @ snd dscope @ snd domains @ snd public_url @ snd sender @ dflt_errs @
                 snd tenant @ snd client @ snd secret @ snd authority @ snd token @ snd graph @ snd gscope @ snd ttl @ snd lims
      in (\<lparr>http_addr = fst http, smtp_addr = fst smtp, public_base_url = fst public_url,
                   path_prefix = base_path (fst public_url), temp_dir = fst temp, cfg_log_level = fst level,
                   cfg_log_format = fst fmt,
                   ui_title = (if trim_space (fst title) = [] then ''scan2graph'' else trim_space (fst title)),
                   smtp_username = sa_user (fst auth), smtp_password = sa_password (fst auth),
                   smtp_allow_anonymous = sa_anonymous (fst auth), smtp_password_generated = sa_generated (fst auth),
                   profiles = fst profs, default_profile = dflt, allowed_recipient_domains = fst domains,
                   tenant_id = fst tenant, client_id = fst client, client_secret = fst secret,
                   authority_url = fst authority, token_url = fst token, graph_base_url = fst graph,
                   graph_scope = fst gscope, graph_sender = fst sender, di_endpoint = fst endpoint,
                   di_api_version = fst version, di_scope = fst dscope, job_ttl = fst ttl, cfg_limits = fst lims\<rparr>, errs))"

definition load :: "cfg_env \<Rightarrow> cfg_error list + config" where
  "load E = (case settings E of (c, es) \<Rightarrow> if es \<noteq> [] then Inl es else Inr c)"

section \<open>What is logged\<close>

definition smtp_auth_mode :: "config \<Rightarrow> string" where
  "smtp_auth_mode c =
     (if smtp_allow_anonymous c then ''disabled'' else if smtp_password_generated c then ''ephemeral'' else ''configured'')"

definition show_bool :: "bool \<Rightarrow> string" where
  "show_bool b = (if b then ''true'' else ''false'')"

definition profile_text :: "string \<Rightarrow> capabilities \<Rightarrow> string" where
  "profile_text addr cp =
     addr @ ''(email='' @ show_bool (cap_email cp) @ '',web='' @ show_bool (cap_web cp) @ '',ocr='' @ show_bool (cap_ocr cp) @ '')''"

definition profile_summaries :: "config \<Rightarrow> string list" where
  "profile_summaries c =
     (if profiles c = [] then [profile_text ''<any sender>'' (default_profile c)]
      else map (\<lambda>(a, cp). profile_text a cp) (sort_key fst (profiles c)))"

datatype log_value = LogText string | LogTexts "string list" | LogBool bool | LogLevel log_level | LogDuration duration | LogLimits limits

definition log_attrs :: "config \<Rightarrow> (string \<times> log_value) list" where
  "log_attrs c =
     [(''http_addr'', LogText (http_addr c)), (''smtp_addr'', LogText (smtp_addr c)),
      (''smtp_auth'', LogText (smtp_auth_mode c)), (''public_base_url'', LogText (public_base_url c)),
      (''temp_dir'', LogText (temp_dir c)), (''log_level'', LogLevel (cfg_log_level c)),
      (''log_format'', LogText (cfg_log_format c)), (''ui_title'', LogText (ui_title c)),
      (''profiles'', LogTexts (profile_summaries c)),
      (''allowed_recipient_domains'', LogTexts (allowed_recipient_domains c)),
      (''tenant_id'', LogText (tenant_id c)), (''client_id'', LogText (client_id c)),
      (''client_secret_set'', LogBool (client_secret c \<noteq> [])), (''authority_url'', LogText (authority_url c)),
      (''token_url'', LogText (token_url c)), (''graph_base_url'', LogText (graph_base_url c)),
      (''graph_scope'', LogText (graph_scope c)), (''graph_sender'', LogText (graph_sender c)),
      (''di_endpoint'', LogText (di_endpoint c)), (''di_api_version'', LogText (di_api_version c)),
      (''di_scope'', LogText (di_scope c)), (''job_ttl'', LogDuration (job_ttl c)), (''limits'', LogLimits (cfg_limits c))]"

end
