(* ===== verification/Config_Load_Properties.thy ===== *)
theory Config_Load_Properties
  imports Config_Load Smtp_System
begin

text \<open>
  What a configuration that loads guarantees to the rest of the program: it is no open relay, its SMTP login cannot be
  empty, its limits fit together and fit the store, its subpath is a plain one, and the file never mixes with the
  environment inside one setting.
\<close>

section \<open>What loading means\<close>

definition any_cap :: "(capabilities \<Rightarrow> bool) \<Rightarrow> config \<Rightarrow> bool" where
  "any_cap f c = list_ex (\<lambda>p. f (snd p)) (profiles c)"

text \<open>The fields are the readings, one by one, and the errors are all of theirs.\<close>

lemma settings_fields:
  fixes E
  defines "c \<equiv> fst (settings E)"
  shows "profiles c = fst (read_profiles E)"
    and "allowed_recipient_domains c = fst (read_domains E (any_cap cap_email c))"
    and "graph_sender c = fst (read_graph_sender E (any_cap cap_email c))"
    and "public_base_url c = fst (public_base_url_value E ''S2G_PUBLIC_BASE_URL'' (any_cap cap_web c))"
    and "di_endpoint c = fst (base_url E ''S2G_DI_ENDPOINT'' (any_cap cap_ocr c) [''https''])"
    and "smtp_username c = sa_user (fst (smtp_auth E))"
    and "smtp_password c = sa_password (fst (smtp_auth E))"
    and "smtp_allow_anonymous c = sa_anonymous (fst (smtp_auth E))"
    and "smtp_password_generated c = sa_generated (fst (smtp_auth E))"
    and "cfg_limits c = fst (read_limits E)"
    and "job_ttl c = fst (duration_at_least E ''S2G_JOB_TTL'' (8 * 3600 * 1000000000) (60 * 1000000000))"
    and "path_prefix c = base_path (public_base_url c)"
    and "default_profile c = (if profiles c = [] then default_caps (graph_sender c) (allowed_recipient_domains c)
           (public_base_url c) (di_endpoint c) else no_caps)"
    and "client_secret c = fst (required_if E ''S2G_ENTRA_CLIENT_SECRET'' True)"
  unfolding c_def any_cap_def settings_def Let_def by simp_all

lemma set_if_Nil: "set (if P then xs else []) = (if P then set xs else {})"
  by simp

lemma settings_errors:
  fixes E
  defines "c \<equiv> fst (settings E)"
  shows "set (snd (settings E)) \<supseteq> set (snd (read_profiles E)) \<union> set (snd (read_domains E (any_cap cap_email c))) \<union>
     set (snd (read_graph_sender E (any_cap cap_email c))) \<union>
     set (snd (public_base_url_value E ''S2G_PUBLIC_BASE_URL'' (any_cap cap_web c))) \<union>
     set (snd (base_url E ''S2G_DI_ENDPOINT'' (any_cap cap_ocr c) [''https''])) \<union> set (snd (smtp_auth E)) \<union>
     set (snd (read_limits E)) \<union>
     set (snd (duration_at_least E ''S2G_JOB_TTL'' (8 * 3600 * 1000000000) (60 * 1000000000))) \<union>
     set (snd (required_if E ''S2G_ENTRA_CLIENT_SECRET'' True)) \<union>
     (if profiles c = [] then set (default_errors (graph_sender c) (allowed_recipient_domains c) (default_profile c)) else {})"
  unfolding c_def any_cap_def settings_def Let_def fst_conv snd_conv set_append config.simps set_if_Nil
  by blast

lemma load_settings: "load E = Inr c \<Longrightarrow> c = fst (settings E) \<and> snd (settings E) = []"
  by (auto simp: load_def split: prod.splits if_splits)

text \<open>So a configuration that loads consists of readings without errors.\<close>

lemma load_parts:
  assumes "load E = Inr c"
  shows "read_profiles E = (profiles c, [])"
    and "read_domains E (any_cap cap_email c) = (allowed_recipient_domains c, [])"
    and "read_graph_sender E (any_cap cap_email c) = (graph_sender c, [])"
    and "public_base_url_value E ''S2G_PUBLIC_BASE_URL'' (any_cap cap_web c) = (public_base_url c, [])"
    and "base_url E ''S2G_DI_ENDPOINT'' (any_cap cap_ocr c) [''https''] = (di_endpoint c, [])"
    and "snd (smtp_auth E) = []"
    and "read_limits E = (cfg_limits c, [])"
    and "duration_at_least E ''S2G_JOB_TTL'' (8 * 3600 * 1000000000) (60 * 1000000000) = (job_ttl c, [])"
    and "required_if E ''S2G_ENTRA_CLIENT_SECRET'' True = (client_secret c, [])"
    and "profiles c = [] \<Longrightarrow> default_errors (graph_sender c) (allowed_recipient_domains c) (default_profile c) = []"
proof -
  have c: "c = fst (settings E)" and e: "set (snd (settings E)) = {}" using load_settings [OF assms] by simp_all
  note errs = settings_errors [of E, folded c, unfolded e]
  have no: "x = fst x' \<Longrightarrow> set (snd x') \<subseteq> {} \<Longrightarrow> x' = (x, [])" for x and x' :: "'x reading"
    by (cases x') simp
  show "read_profiles E = (profiles c, [])"
    by (rule no) (use errs settings_fields(1) [of E] c in auto)
  show "read_domains E (any_cap cap_email c) = (allowed_recipient_domains c, [])"
    by (rule no) (use errs settings_fields(2) [of E] c in auto)
  show "read_graph_sender E (any_cap cap_email c) = (graph_sender c, [])"
    by (rule no) (use errs settings_fields(3) [of E] c in auto)
  show "public_base_url_value E ''S2G_PUBLIC_BASE_URL'' (any_cap cap_web c) = (public_base_url c, [])"
    by (rule no) (use errs settings_fields(4) [of E] c in auto)
  show "base_url E ''S2G_DI_ENDPOINT'' (any_cap cap_ocr c) [''https''] = (di_endpoint c, [])"
    by (rule no) (use errs settings_fields(5) [of E] c in auto)
  show "snd (smtp_auth E) = []" using errs by auto
  show "read_limits E = (cfg_limits c, [])"
    by (rule no) (use errs settings_fields(10) [of E] c in auto)
  show "duration_at_least E ''S2G_JOB_TTL'' (8 * 3600 * 1000000000) (60 * 1000000000) = (job_ttl c, [])"
    by (rule no) (use errs settings_fields(11) [of E] c in auto)
  show "required_if E ''S2G_ENTRA_CLIENT_SECRET'' True = (client_secret c, [])"
    by (rule no) (use errs settings_fields(14) [of E] c in auto)
  show "default_errors (graph_sender c) (allowed_recipient_domains c) (default_profile c) = []" if "profiles c = []"
    using errs that by simp
qed

section \<open>Readings without errors\<close>

lemma required_if_ok: "required_if E name True = (v, []) \<Longrightarrow> v \<noteq> []"
  by (auto simp: required_if_def resolve_required_def split: prod.splits if_splits option.splits)

lemma url_string_scheme: "u_scheme u \<noteq> [] \<Longrightarrow> url_string u \<noteq> []"
  by (simp add: url_string_def Let_def)

lemma parse_base_url_nonempty: "parse_base_url schemes v = Some u \<Longrightarrow> u \<noteq> []"
  by (auto simp: parse_base_url_def is_abs_url_def url_string_scheme split: option.splits if_splits)

lemma base_url_ok: "base_url E name True schemes = (v, []) \<Longrightarrow> v \<noteq> []"
  using required_if_ok [of E name]
  by (auto simp: base_url_def parse_base_url_nonempty split: prod.splits if_splits option.splits)

lemma public_base_url_ok: "public_base_url_value E name True = (v, []) \<Longrightarrow> v \<noteq> []"
  by (auto simp: public_base_url_value_def split: prod.splits if_splits option.splits dest: base_url_ok)

lemma graph_sender_ok: "read_graph_sender E True = (v, []) \<Longrightarrow> v \<noteq> []"
  using required_if_ok [of E "''S2G_GRAPH_SENDER''"]
  by (auto simp: read_graph_sender_def Let_def split: prod.splits if_splits)

lemma domains_ok: "read_domains E req = (ds, []) \<Longrightarrow> (req \<longrightarrow> ds \<noteq> []) \<and> distinct ds \<and> list_all valid_domain ds"
  by (auto simp: read_domains_def split: prod.splits option.splits if_splits dest: parse_domains_ok)

section \<open>Capabilities\<close>

lemma profile_entries_ok:
  "profile_entries low out raw = (out', es) \<Longrightarrow> list_all (\<lambda>p. snd p \<noteq> no_caps) out \<Longrightarrow> distinct (map fst out) \<Longrightarrow>
   list_all (\<lambda>p. snd p \<noteq> no_caps) out' \<and> distinct (map fst out')"
proof (induction raw arbitrary: out out' es)
  case (Cons kc raw)
  obtain k cp where kc: "kc = (k, cp)" by (cases kc)
  let ?canon = "normalize_address low k"
  show ?case
  proof (cases "?canon = [] \<or> cp = no_caps \<or> ?canon \<in> fst ` set out")
    case True
    then obtain es' where "profile_entries low out raw = (out', es')"
      using Cons.prems(1) kc by (auto simp: Let_def split: prod.splits if_splits)
    from Cons.IH [OF this Cons.prems(2,3)] show ?thesis .
  next
    case False
    then have "profile_entries low (out @ [(?canon, cp)]) raw = (out', es)" using Cons.prems(1) kc by (simp add: Let_def)
    moreover have "list_all (\<lambda>p. snd p \<noteq> no_caps) (out @ [(?canon, cp)])" "distinct (map fst (out @ [(?canon, cp)]))"
      using False Cons.prems(2,3) by auto
    ultimately show ?thesis by (rule Cons.IH)
  qed
qed simp

lemma read_profiles_ok: "read_profiles E = (ps, []) \<Longrightarrow> list_all (\<lambda>p. snd p \<noteq> no_caps) ps"
proof -
  assume "read_profiles E = (ps, [])"
  then obtain raw where "profile_entries (ce_low E) [] raw = (ps, [])"
    by (auto simp: read_profiles_def split: prod.splits option.splits)
  from profile_entries_ok [OF this] show ?thesis by simp
qed

lemma load_capability_backed:
  assumes "load E = Inr c" "profile (ce_low E) c a = Some p"
  shows "(cap_email p \<longrightarrow> graph_sender c \<noteq> [] \<and> allowed_recipient_domains c \<noteq> []) \<and>
    (cap_web p \<longrightarrow> public_base_url c \<noteq> []) \<and> (cap_ocr p \<longrightarrow> di_endpoint c \<noteq> []) \<and> p \<noteq> no_caps"
proof (cases "profiles c = []")
  case True
  then have "p = default_profile c" using assms(2) by (auto simp: profile_def Let_def split: if_splits)
  moreover have "default_profile c = default_caps (graph_sender c) (allowed_recipient_domains c) (public_base_url c) (di_endpoint c)"
    using settings_fields(13) [of E] load_settings [OF assms(1)] True by simp
  ultimately show ?thesis
    using load_parts(10) [OF assms(1) True] by (auto simp: default_caps_def default_errors_def no_caps_def split: if_splits)
next
  case False
  then obtain k where k: "map_of (profiles c) k = Some p"
    using assms(2) by (auto simp: profile_def Let_def split: if_splits)
  then have mem: "(k, p) \<in> set (profiles c)" by (rule map_of_SomeD)
  have any: "any_cap f c" if "f p" for f using mem that by (force simp: any_cap_def list_ex_iff)
  have "p \<noteq> no_caps" using read_profiles_ok [OF load_parts(1) [OF assms(1)]] mem by (force simp: list_all_iff)
  moreover have "cap_email p \<longrightarrow> graph_sender c \<noteq> [] \<and> allowed_recipient_domains c \<noteq> []"
    using load_parts(2,3) [OF assms(1)] any [of cap_email] graph_sender_ok domains_ok by metis
  moreover have "cap_web p \<longrightarrow> public_base_url c \<noteq> []"
    using load_parts(4) [OF assms(1)] any [of cap_web] public_base_url_ok by metis
  moreover have "cap_ocr p \<longrightarrow> di_endpoint c \<noteq> []"
    using load_parts(5) [OF assms(1)] any [of cap_ocr] base_url_ok by metis
  ultimately show ?thesis by blast
qed

text \<open>C34: A configuration that loads is no open relay and backs every capability it grants. Whatever sender address
  the listener is asked about, the capabilities it gets are never none at all; email among them means that there is a
  Graph sender and a nonempty allowlist of valid domains, and then an address outside these domains is refused; web
  means there is a public address, and text recognition means there is an endpoint.\<close>

theorem load_no_open_relay:
  assumes "load E = Inr c" "profile (ce_low E) c a = Some p"
  shows "p \<noteq> no_caps \<and>
    (cap_email p \<longrightarrow> graph_sender c \<noteq> [] \<and> allowed_recipient_domains c \<noteq> [] \<and>
       list_all valid_domain (allowed_recipient_domains c) \<and>
       (recipient_allowed (ce_low E) c r \<longrightarrow>
          CHR ''@'' \<in> set r \<and> to_lower (ce_low E) (after_last (CHR ''@'') r) \<in> set (allowed_recipient_domains c))) \<and>
    (cap_web p \<longrightarrow> public_base_url c \<noteq> []) \<and> (cap_ocr p \<longrightarrow> di_endpoint c \<noteq> [])"
  using load_capability_backed [OF assms] domains_ok [OF load_parts(2) [OF assms(1)]]
  by (auto simp: recipient_allowed_def)

section \<open>The SMTP login\<close>

lemma smtp_auth_ok:
  assumes "snd (smtp_auth E) = []" "ce_random E \<noteq> []"
  shows "if sa_anonymous (fst (smtp_auth E)) then sa_user (fst (smtp_auth E)) = [] \<and> sa_password (fst (smtp_auth E)) = []
         else sa_user (fst (smtp_auth E)) \<noteq> [] \<and> sa_password (fst (smtp_auth E)) \<noteq> []"
proof -
  obtain user e1 where u: "resolve E ''S2G_SMTP_USERNAME'' = (user, e1)" by (cases "resolve E ''S2G_SMTP_USERNAME''")
  obtain pass e2 where p: "resolve E ''S2G_SMTP_PASSWORD'' = (pass, e2)" by (cases "resolve E ''S2G_SMTP_PASSWORD''")
  obtain anon b e3 where n: "bool_value E ''S2G_SMTP_ALLOW_ANONYMOUS'' False = ((anon, b), e3)"
    by (cases "bool_value E ''S2G_SMTP_ALLOW_ANONYMOUS'' False") auto
  note eq = smtp_auth_def [of E, unfolded u p n prod.case Let_def]
  show ?thesis
  proof (cases anon)
    case True
    then show ?thesis by (simp add: eq)
  next
    case False
    then show ?thesis using assms by (cases user; cases pass) (auto simp: eq split: if_splits)
  qed
qed

text \<open>C35: The listener is never open by accident. A configuration that loads either allows anonymous SMTP explicitly, and
  then has no credentials at all and offers no login, or it requires a login in which an empty user name or an empty
  password is never accepted; an empty secret file does not turn into an empty password.\<close>

theorem load_login_never_empty:
  assumes "load E = Inr c" "ce_random E \<noteq> []"
  shows "if smtp_allow_anonymous c
         then smtp_username c = [] \<and> smtp_password c = [] \<and> \<not> offers_auth c
         else offers_auth c \<and> fst (authenticate c user [] s) \<noteq> None \<and> fst (authenticate c [] pass s) \<noteq> None \<and>
              fst (authenticate c (smtp_username c) (smtp_password c) s) = None"
  using smtp_auth_ok [OF load_parts(6) [OF assms(1)] assms(2)] settings_fields(6-8) [of E] load_settings [OF assms(1)]
  by (auto simp: offers_auth_def authenticate_def Let_def)

section \<open>Limits\<close>

lemma atoi_less: "atoi s = Some n \<Longrightarrow> n < 2 ^ 63"
  by (auto simp: atoi_def Let_def split: if_splits option.splits)

lemma int64_positive_ok: "int64_positive E name def = (n, []) \<Longrightarrow> 0 < def \<Longrightarrow> def < 2 ^ 63 \<Longrightarrow> 0 < n \<and> n < 2 ^ 63"
  by (auto simp: int64_positive_def split: prod.splits option.splits if_splits dest: atoi_less)

lemma int_positive_ok: "int_positive E name def = (n, []) \<Longrightarrow> 0 < def \<Longrightarrow> 0 < n"
  by (auto simp: int_positive_def split: prod.splits option.splits if_splits)

lemma read_limits_ok:
  assumes "read_limits E = (lim, [])"
  shows "0 < max_message_bytes lim \<and> max_message_bytes lim \<le> max_stored_bytes lim div 2 \<and>
    max_stored_bytes lim < 2 ^ 63 \<and> 0 < max_concurrent_jobs lim"
proof -
  obtain m e1 where m: "int64_positive E ''S2G_MAX_MESSAGE_BYTES'' 33554432 = (m, e1)" by (meson surj_pair)
  obtain t e2 where t: "int64_positive E ''S2G_MAX_STORED_BYTES'' 536870912 = (t, e2)" by (meson surj_pair)
  obtain j e3 where j: "int_positive E ''S2G_MAX_CONCURRENT_JOBS'' 2 = (j, e3)" by (meson surj_pair)
  have "lim = \<lparr>max_message_bytes = m, max_stored_bytes = t, max_concurrent_jobs = j\<rparr>" "e1 = []" "e2 = []" "e3 = []"
    "\<not> (0 < t \<and> t div 2 < m)"
    using assms by (auto simp: read_limits_def m t j split: if_splits)
  with int64_positive_ok [of E _ _ m] int64_positive_ok [of E _ _ t] int_positive_ok [of E _ _ j] m t j
  show ?thesis by fastforce
qed

lemma duration_at_least_ok: "duration_at_least E name def least = (d, []) \<Longrightarrow> least \<le> def \<Longrightarrow> least \<le> d"
  by (auto simp: duration_at_least_def duration_value_def split: prod.splits option.splits if_splits)

lemma reserve_lock_fits:
  "\<not> store_closed t \<Longrightarrow> used t + want \<le> max_bytes t \<Longrightarrow>
   fst (reserve_lock want (Some i) now t) = Inr i \<and> used (snd (reserve_lock want (Some i) now t)) = used t + want \<and>
   max_bytes (snd (reserve_lock want (Some i) now t)) = max_bytes t \<and> \<not> store_closed (snd (reserve_lock want (Some i) now t))"
  by (simp add: reserve_lock_def admits_locked_def)

text \<open>Limits that load fit together without overflow, and fit the store built from them: an idle appliance always has
  room for two messages of the largest accepted size at once, which is what a scan being recognised can take.\<close>

theorem load_limits_fit_store:
  assumes "load E = Inr c"
    "new_store root abs_of prepare (job_ttl c) (max_stored_bytes (cfg_limits c)) = Inr t"
  shows "0 < max_message_bytes (cfg_limits c) \<and> 2 * max_message_bytes (cfg_limits c) \<le> max_stored_bytes (cfg_limits c) \<and>
    max_stored_bytes (cfg_limits c) < 2 ^ 63 \<and> 0 < max_concurrent_jobs (cfg_limits c) \<and> 60000000000 \<le> job_ttl c \<and>
    (case reserve_lock (max_message_bytes (cfg_limits c)) (Some i) now t of
       (r, t1) \<Rightarrow> r = Inr i \<and> fst (reserve_lock (max_message_bytes (cfg_limits c)) (Some j) later t1) = Inr j)"
proof -
  let ?m = "max_message_bytes (cfg_limits c)"
  note lims = read_limits_ok [OF load_parts(7) [OF assms(1)]]
  then have two: "2 * ?m \<le> max_stored_bytes (cfg_limits c)" by linarith
  have ttl: "60000000000 \<le> job_ttl c" using duration_at_least_ok [OF load_parts(8) [OF assms(1)]] by simp
  have t: "used t = 0" "max_bytes t = max_stored_bytes (cfg_limits c)" "\<not> store_closed t"
    using assms(2) by (auto simp: new_store_def Let_def split: if_splits option.splits)
  obtain r t1 where r: "reserve_lock ?m (Some i) now t = (r, t1)" by (meson surj_pair)
  from reserve_lock_fits [OF t(3), of ?m i now] r t two lims have
    "r = Inr i" "used t1 = ?m" "max_bytes t1 = max_stored_bytes (cfg_limits c)" "\<not> store_closed t1" by auto
  with reserve_lock_fits [of t1 ?m j later] two have "fst (reserve_lock ?m (Some j) later t1) = Inr j" by simp
  with \<open>r = Inr i\<close> r two ttl lims show ?thesis by simp
qed

section \<open>The subpath\<close>

lemma unescape_plain: "CHR ''%'' \<notin> set s \<Longrightarrow> url_unescape EncPath s = Some t \<Longrightarrow> t = s"
  by (induction s arbitrary: t) (auto split: if_splits)

lemma escape_plain: "CHR ''%'' \<notin> set (url_escape EncPath s) \<Longrightarrow> url_escape EncPath s = s"
  by (induction s) (auto simp: url_escape_def escape_char_def split: if_splits)

lemma plain_chars: "plain_from b s \<Longrightarrow> c \<in> set s \<Longrightarrow> c = CHR ''/'' \<or> c = CHR ''.'' \<or> segment_first c"
proof (induction b s rule: plain_from.induct)
  case (2 d ds)
  then show ?case by (cases ds) auto
next
  case (3 d ds)
  then show ?case by (cases ds) (auto split: if_splits)
qed simp

lemma plain_no_escape: "plain_subpath s \<Longrightarrow> CHR ''%'' \<notin> set s \<and> CHR ''*'' \<notin> set s"
proof -
  assume "plain_subpath s"
  then have "c \<in> set s \<Longrightarrow> c = CHR ''/'' \<or> c = CHR ''.'' \<or> segment_first c" for c
    unfolding plain_subpath_def by (rule plain_chars)
  moreover have "\<not> segment_first (CHR ''%'')" "\<not> segment_first (CHR ''*'')" by code_simp+
  ultimately show ?thesis by blast
qed

lemma plain_last: "plain_from b s \<Longrightarrow> s \<noteq> [] \<Longrightarrow> last s \<noteq> CHR ''/''"
proof (induction b s rule: plain_from.induct)
  case (2 d ds)
  then obtain e es where ds: "ds = e # es" by (cases ds) auto
  have "e \<noteq> CHR ''/''" using 2(2) ds by (auto simp: segment_first_def)
  with 2 ds show ?case by (cases es) auto
next
  case (3 d ds)
  show ?case
  proof (cases "d = CHR ''/''")
    case True
    then obtain e es where ds: "ds = e # es" using 3(3) by (cases ds) auto
    have "e \<noteq> CHR ''/''" using 3(3) True ds by (auto simp: segment_first_def)
    with 3 True ds show ?thesis by (cases es) auto
  next
    case False
    with 3 show ?thesis by (cases ds) auto
  qed
qed simp

lemma plain_escaped_path: "plain_subpath (escaped_path u) \<Longrightarrow> u_path u = escaped_path u"
proof -
  assume p: "plain_subpath (escaped_path u)"
  note no = plain_no_escape [OF p]
  show ?thesis
  proof (cases "u_raw_path u \<noteq> [] \<and> valid_encoded EncPath (u_raw_path u) \<and>
      url_unescape EncPath (u_raw_path u) = Some (u_path u)")
    case True
    then show ?thesis using unescape_plain no by (simp add: escaped_path_def)
  next
    case False
    then have "escaped_path u = (if u_path u = ''*'' then ''*'' else url_escape EncPath (u_path u))"
      by (auto simp: escaped_path_def)
    with no escape_plain [of "u_path u"] show ?thesis by (auto split: if_splits)
  qed
qed

lemma trim_right_set_id: "s = [] \<or> last s \<notin> set cs \<Longrightarrow> trim_right_set cs s = s"
  by (cases s rule: rev_cases) (auto simp: trim_right_set_def)

lemma public_base_url_plain:
  assumes "public_base_url_value E name req = (v, es)"
  shows "plain_subpath (base_path v)"
proof (cases "v = []")
  case True
  have "plain_subpath (base_path [])" by code_simp
  with True show ?thesis by simp
next
  case False
  then obtain u where u: "url_parse v = Some u" "plain_subpath (escaped_path u)"
    using assms by (auto simp: public_base_url_value_def split: prod.splits if_splits option.splits)
  then have "u_path u = [] \<or> last (u_path u) \<notin> set ''/''"
    using plain_escaped_path plain_last [of False "u_path u"] by (auto simp: plain_subpath_def)
  then have "base_path v = u_path u" using u(1) trim_right_set_id unfolding base_path_def by simp
  with u plain_escaped_path show ?thesis by simp
qed

text \<open>The subpath the appliance routes and emits is a plain one: empty, or segments of unreserved ASCII none of which
  starts with a dot. So no pattern built from it is unclean, no cookie path loses bytes, and no link made of it starts
  with two slashes, which would be another host.\<close>

theorem load_subpath_plain:
  assumes "load E = Inr c"
  shows "plain_subpath (path_prefix c) \<and> (path_prefix c \<noteq> [] \<longrightarrow> \<not> prefix ''//'' (path_prefix c @ rest)) \<and>
    (public_base_url c = [] \<longrightarrow> path_prefix c = [])"
proof -
  have eq: "path_prefix c = base_path (public_base_url c)"
    using settings_fields(12) [of E] load_settings [OF assms] by simp
  then have plain: "plain_subpath (path_prefix c)" using public_base_url_plain [OF load_parts(4) [OF assms]] by simp
  have "base_path [] = []" by code_simp
  moreover have "\<not> prefix ''//'' (path_prefix c @ rest)" if ne: "path_prefix c \<noteq> []"
  proof -
    obtain d ds where ds: "path_prefix c = d # ds" using ne by (cases "path_prefix c") auto
    with plain obtain e es where "path_prefix c = d # e # es" "segment_first e"
      by (cases ds) (auto simp: plain_subpath_def)
    moreover have "\<not> segment_first (CHR ''/'')" by code_simp
    ultimately show ?thesis by auto
  qed
  ultimately show ?thesis using plain eq by auto
qed

section \<open>Environment and file\<close>

text \<open>Reading a setting looks at its two spellings only.\<close>

lemma resolve_cong:
  "g name = h name \<Longrightarrow> g (name @ ''_FILE'') = h (name @ ''_FILE'') \<Longrightarrow>
   resolve (E\<lparr>ce_getenv := g\<rparr>) name = resolve (E\<lparr>ce_getenv := h\<rparr>) name"
  by (simp add: resolve_def Let_def)

lemma paired_name_simps:
  "paired_name (name @ ''_FILE'') = name" "\<not> suffix ''_FILE'' name \<Longrightarrow> paired_name name = name @ ''_FILE''"
  by (simp_all add: paired_name_def suffix_def)

lemma resolve_layered:
  assumes "\<not> suffix ''_FILE'' name"
  shows "resolve (E\<lparr>ce_getenv := layer file environ\<rparr>) name =
    (if environ name \<noteq> [] \<or> environ (name @ ''_FILE'') \<noteq> [] then resolve (E\<lparr>ce_getenv := environ\<rparr>) name
     else resolve (E\<lparr>ce_getenv := lookup file\<rparr>) name)"
  using assms by (auto intro!: resolve_cong simp: layer_def paired_name_simps)

text \<open>The environment overrides the file setting by setting, never one spelling of it. If the environment has either
  spelling of a setting, the setting is read as if there were no file; otherwise as if there were only the file. So the two
  spellings never mix across the layers, and the error that both are set only arises inside one of them.\<close>

theorem environment_overrides_file:
  assumes "\<not> suffix ''_FILE'' name"
  shows "resolve (E\<lparr>ce_getenv := layer file environ\<rparr>) name =
     (if environ name \<noteq> [] \<or> environ (name @ ''_FILE'') \<noteq> [] then resolve (E\<lparr>ce_getenv := environ\<rparr>) name
      else resolve (E\<lparr>ce_getenv := lookup file\<rparr>) name)"
  using resolve_layered assms by simp

section \<open>The configuration file\<close>

text \<open>The settings of a list of lines, without regard to errors.\<close>

definition line_settings :: "string list \<Rightarrow> (string \<times> string) list" where
  "line_settings ls = concat (map (\<lambda>l. case parse_line l of Setting n v \<Rightarrow> [(n, v)] | _ \<Rightarrow> []) ls)"

definition well_formed_lines :: "string list \<Rightarrow> bool" where
  "well_formed_lines ls \<longleftrightarrow> list_all (\<lambda>l. parse_line l \<noteq> Malformed) ls \<and> distinct (map fst (line_settings ls))"

definition explains :: "string list \<Rightarrow> file_error + (string \<times> string) list \<Rightarrow> bool" where
  "explains ls r \<longleftrightarrow>
     (case r of
        Inr kvs \<Rightarrow> well_formed_lines ls \<and> kvs = line_settings ls
      | Inl (BadLine i) \<Rightarrow> 1 \<le> i \<and> i \<le> length ls \<and> well_formed_lines (take (i - 1) ls) \<and> parse_line (ls ! (i - 1)) = Malformed
      | Inl (DuplicateKey i n) \<Rightarrow>
          1 \<le> i \<and> i \<le> length ls \<and> well_formed_lines (take (i - 1) ls) \<and>
          n \<in> fst ` set (line_settings (take (i - 1) ls)) \<and> (\<exists>v. parse_line (ls ! (i - 1)) = Setting n v)
      | Inl FileUnreadable \<Rightarrow> False)"

lemma line_settings_append [simp]: "line_settings (ls @ ms) = line_settings ls @ line_settings ms"
  by (simp add: line_settings_def)

lemma line_settings_one:
  "line_settings [l] = (case parse_line l of Setting n v \<Rightarrow> [(n, v)] | _ \<Rightarrow> [])"
  by (simp add: line_settings_def)

lemma parse_lines_explained:
  "well_formed_lines done \<Longrightarrow> explains (done @ ls) (parse_lines (length done + 1) (line_settings done) ls)"
proof (induction ls arbitrary: "done")
  case Nil
  then show ?case by (simp add: explains_def)
next
  case (Cons l ls)
  have step: "explains (done @ l # ls) (parse_lines (length done + 2) (line_settings (done @ [l])) ls)"
    if "well_formed_lines (done @ [l])"
    using Cons.IH [OF that] by simp
  show ?case
  proof (cases "parse_line l")
    case Skipped
    then have "well_formed_lines (done @ [l])" using Cons.prems by (simp add: well_formed_lines_def line_settings_one)
    from step [OF this] Skipped show ?thesis by (simp add: line_settings_one)
  next
    case Malformed
    then show ?thesis using Cons.prems by (simp add: explains_def nth_append)
  next
    case (Setting n v)
    show ?thesis
    proof (cases "n \<in> fst ` set (line_settings done)")
      case True
      then show ?thesis using Setting Cons.prems by (simp add: explains_def nth_append)
    next
      case False
      then have "well_formed_lines (done @ [l])" using Setting Cons.prems by (auto simp: well_formed_lines_def line_settings_one)
      from step [OF this] Setting False show ?thesis by (simp add: line_settings_one)
    qed
  qed
qed

text \<open>C36: What reading a configuration file answers. A file that is read gives exactly its settings, in order, and then no
  line is malformed and no name occurs twice; otherwise the error is the first one: the number of a line that is malformed,
  or of one whose name an earlier line has, all lines before it being in order.\<close>

theorem parse_file_explained:
  "case disk path of
     None \<Rightarrow> parse_file disk path = Inl FileUnreadable
   | Some content \<Rightarrow> explains (split_on (CHR 0x0A) (trim_prefix byte_order_mark content)) (parse_file disk path)"
proof (cases "disk path")
  case (Some content)
  have "well_formed_lines []" "line_settings [] = []" by (simp_all add: well_formed_lines_def line_settings_def)
  with parse_lines_explained [of "[]" "split_on (CHR 0x0A) (trim_prefix byte_order_mark content)"] Some
  show ?thesis by (simp add: parse_file_def)
qed (simp add: parse_file_def)

section \<open>A configuration that loads\<close>

definition ex_env :: cfg_env where
  "ex_env = \<lparr>ce_getenv = lookup
       [(''S2G_GRAPH_SENDER'', ''scan@x.org''), (''S2G_ALLOWED_RECIPIENT_DOMAINS'', ''x.org''),
        (''S2G_PUBLIC_BASE_URL'', ''https://nas.x/scanner/''), (''S2G_ENTRA_TENANT_ID'', ''t''),
        (''S2G_ENTRA_CLIENT_ID'', ''c''), (''S2G_ENTRA_CLIENT_SECRET_FILE'', ''/run/secret'')],
     ce_read = (\<lambda>p. if p = ''/run/secret'' then Some (''s'' @ [CHR 0x0A]) else None),
     ce_random = ''RANDOM'', ce_temp = ''/tmp'', ce_low = (\<lambda>r. r), ce_fraction = (\<lambda>f unit scale. f * unit div scale)\<rparr>"

theorem environment_overrides_file_witness:
  "resolve (ex_env\<lparr>ce_getenv := layer [(''S2G_ENTRA_CLIENT_SECRET_FILE'', ''/run/secret'')]
     (\<lambda>n. if n = ''S2G_ENTRA_CLIENT_SECRET'' then ''env'' else [])\<rparr>) ''S2G_ENTRA_CLIENT_SECRET'' = (Some ''env'', [])"
  using environment_overrides_file [of "''S2G_ENTRA_CLIENT_SECRET''" "[(''S2G_ENTRA_CLIENT_SECRET_FILE'', ''/run/secret'')]"
      "\<lambda>n. if n = ''S2G_ENTRA_CLIENT_SECRET'' then ''env'' else []" ex_env]
  by (simp add: suffix_def resolve_def)

definition ex_loaded :: config where
  "ex_loaded = (case load ex_env of Inr c \<Rightarrow> c | Inl es \<Rightarrow> undefined)"

lemma ex_parts:
  "string_default ex_env ''S2G_HTTP_ADDR'' '':8080'' = ('':8080'', [])"
  "string_default ex_env ''S2G_SMTP_ADDR'' '':2525'' = ('':2525'', [])"
  "string_default ex_env ''S2G_TEMP_DIR'' (ce_temp ex_env) = (''/tmp'', [])"
  "string_default ex_env ''S2G_UI_TITLE'' [] = ([], [])"
  "string_default ex_env ''S2G_DI_API_VERSION'' ''2024-11-30'' = (''2024-11-30'', [])"
  "string_default ex_env ''S2G_DI_SCOPE'' ''https://cognitiveservices.azure.com/.default'' = (''https://cognitiveservices.azure.com/.default'', [])"
  "string_default ex_env ''S2G_GRAPH_SCOPE'' ''https://graph.microsoft.com/.default'' = (''https://graph.microsoft.com/.default'', [])"
  "read_log_format ex_env = (''json'', [])" "read_log_level ex_env = (LevelInfo, [])"
  "smtp_auth ex_env = (\<lparr>sa_user = ''scanner'', sa_password = ''RANDOM'', sa_anonymous = False, sa_generated = True\<rparr>, [])"
  "read_profiles ex_env = ([], [])"
  "base_url ex_env ''S2G_DI_ENDPOINT'' False [''https''] = ([], [])"
  "public_base_url_value ex_env ''S2G_PUBLIC_BASE_URL'' False = (''https://nas.x/scanner'', [])"
  "base_path ''https://nas.x/scanner'' = ''/scanner''"
  "required_if ex_env ''S2G_ENTRA_TENANT_ID'' True = (''t'', [])"
  "required_if ex_env ''S2G_ENTRA_CLIENT_ID'' True = (''c'', [])"
  "required_if ex_env ''S2G_ENTRA_CLIENT_SECRET'' True = (''s'', [])"
  "tenant_url ex_env ''S2G_ENTRA_AUTHORITY_URL'' ''t'' ''/v2.0'' = (''https://login.microsoftonline.com/t/v2.0'', [])"
  "tenant_url ex_env ''S2G_ENTRA_TOKEN_URL'' ''t'' ''/oauth2/v2.0/token'' = (''https://login.microsoftonline.com/t/oauth2/v2.0/token'', [])"
  "base_url_default ex_env ''S2G_GRAPH_BASE_URL'' ''https://graph.microsoft.com/v1.0'' [''http'', ''https''] = (''https://graph.microsoft.com/v1.0'', [])"
  "duration_at_least ex_env ''S2G_JOB_TTL'' 28800000000000 60000000000 = (28800000000000, [])"
  "read_limits ex_env = (\<lparr>max_message_bytes = 33554432, max_stored_bytes = 536870912, max_concurrent_jobs = 2\<rparr>, [])"
  by code_simp+

lemma ex_domains: "read_domains ex_env False = ([''x.org''], [])" "read_graph_sender ex_env False = (''scan@x.org'', [])"
proof -
  have t: "trim_space ''x.org'' = ''x.org''"
    by (simp add: trim_space_def trim_right_space.simps trailing_space_def ends_in_space_def is_space_def)
  have c: "char_of (120 :: nat) = CHR ''x''" "char_of (46 :: nat) = CHR ''.''" "char_of (111 :: nat) = CHR ''o''"
    "char_of (114 :: nat) = CHR ''r''" "char_of (103 :: nat) = CHR ''g''" by code_simp+
  have "to_lower (\<lambda>r. r) ''x.org'' = ''x.org''"
    by (simp add: to_lower_def lower_rune_def encode_rune_def valid_rune_def c del: utf8_simps add: utf8_simps)
  moreover have "valid_domain ''x.org''" by (simp add: valid_domain_def domain_char_def suffix_def)
  moreover have "split_on (CHR '','') ''x.org'' = [''x.org'']" by code_simp
  ultimately have "parse_domains (\<lambda>r. r) ''x.org'' = ([''x.org''], [])" by (simp add: parse_domains_def t)
  moreover have "resolve ex_env ''S2G_ALLOWED_RECIPIENT_DOMAINS'' = (Some ''x.org'', [])"
    "required_if ex_env ''S2G_GRAPH_SENDER'' False = (''scan@x.org'', [])" by code_simp+
  moreover have "ce_low ex_env = (\<lambda>r. r)" by (simp add: ex_env_def)
  ultimately show "read_domains ex_env False = ([''x.org''], [])" "read_graph_sender ex_env False = (''scan@x.org'', [])"
    using ex_normalize(1) by (simp_all add: read_domains_def read_graph_sender_def)
qed

lemma ex_settings_errors: "snd (settings ex_env) = []"
  by (simp add: settings_def Let_def ex_parts ex_domains default_caps_def default_errors_def)

lemma ex_load: "load ex_env = Inr ex_loaded"
proof -
  obtain c where "settings ex_env = (c, [])" using ex_settings_errors by (cases "settings ex_env") simp
  then show ?thesis by (simp add: load_def ex_loaded_def)
qed

lemma ex_loaded_fields:
  "profiles ex_loaded = []" "ce_low ex_env = (\<lambda>r. r)" "ce_random ex_env = ''RANDOM''"
  "cfg_limits ex_loaded = \<lparr>max_message_bytes = 33554432, max_stored_bytes = 536870912, max_concurrent_jobs = 2\<rparr>"
  "job_ttl ex_loaded = 28800000000000" "public_base_url ex_loaded = ''https://nas.x/scanner''"
  "default_profile ex_loaded = \<lparr>cap_email = True, cap_web = True, cap_ocr = False\<rparr>"
  "\<not> smtp_allow_anonymous ex_loaded"
proof -
  show "ce_low ex_env = (\<lambda>r. r)" "ce_random ex_env = ''RANDOM''" by (simp_all add: ex_env_def)
qed (use load_settings [OF ex_load] settings_fields [of ex_env] in
  \<open>simp_all add: any_cap_def ex_parts ex_domains default_caps_def\<close>)

lemma ex_profile: "profile (ce_low ex_env) ex_loaded ''scan@x.org'' = Some \<lparr>cap_email = True, cap_web = True, cap_ocr = False\<rparr>"
  by (simp add: profile_def ex_loaded_fields ex_normalize)

theorem load_no_open_relay_witness:
  "allowed_recipient_domains ex_loaded \<noteq> [] \<and> public_base_url ex_loaded \<noteq> []"
  using load_no_open_relay [OF ex_load ex_profile] by simp

theorem load_login_never_empty_witness:
  "fst (authenticate ex_loaded ''scanner'' [] new_session) \<noteq> None"
proof -
  have "ce_random ex_env \<noteq> []" by (simp add: ex_loaded_fields)
  from load_login_never_empty [OF ex_load this, of "''scanner''" new_session] show ?thesis
    by (simp add: ex_loaded_fields)
qed

definition ex_empty_store :: store where
  "ex_empty_store = \<lparr>store_dir = ''/tmp/scan2graph'', store_ttl = 28800000000000, max_bytes = 536870912, jobs = [],
     reservations = [], used = 0, store_closed = False\<rparr>"

theorem load_limits_fit_store_witness:
  "case reserve_lock 33554432 (Some ''a'') 0 ex_empty_store of
     (r, t1) \<Rightarrow> r = Inr ''a'' \<and> fst (reserve_lock 33554432 (Some ''b'') 0 t1) = Inr ''b''"
proof -
  have "path_join ''/tmp'' ''scan2graph'' = ''/tmp/scan2graph''" by code_simp
  then have "new_store ''/tmp'' Some (\<lambda>_. True) (job_ttl ex_loaded) (max_stored_bytes (cfg_limits ex_loaded)) = Inr ex_empty_store"
    by (simp add: new_store_def ex_loaded_fields ex_empty_store_def)
  from load_limits_fit_store [OF ex_load this, where i = "''a''" and now = 0 and j = "''b''" and later = 0] show ?thesis by (simp add: ex_loaded_fields)
qed

theorem load_subpath_plain_witness: "path_prefix ex_loaded = ''/scanner'' \<and> plain_subpath ''/scanner''"
proof -
  have "path_prefix ex_loaded = ''/scanner''"
    using load_settings [OF ex_load] settings_fields(12) [of ex_env] by (simp add: ex_loaded_fields ex_parts)
  with load_subpath_plain [OF ex_load] show ?thesis by simp
qed

end
