(* ===== verification/Web_Session.thy ===== *)
theory Web_Session
  imports Config_Address Config_File
begin

text \<open>
  The web UI's sessions, \<open>internal/web/session.go\<close>, and the sign-in that creates them, \<open>internal/web/auth.go\<close>.
  What the browser sends is a request record, what it gets back a response record; the random texts, the clock and
  the identity provider (the OAuth2 and OpenID Connect libraries with the network behind them) are arguments. Only
  the log lines are left out.
\<close>

section \<open>Requests and responses\<close>

text \<open>
  A request as the handlers read it: the path in the segments \<open>http.ServeMux\<close> splits it into, already unescaped, and
  the parameters of the query and the cookies in the order they arrived.
\<close>

record web_request =
  wq_method :: string
  wq_segments :: "string list"
  wq_query :: "(string \<times> string) list"
  wq_cookies :: "(string \<times> string) list"

definition query_get :: "web_request \<Rightarrow> string \<Rightarrow> string" where
  "query_get r k = lookup (wq_query r) k"

definition cookie :: "web_request \<Rightarrow> string \<Rightarrow> string option" where
  "cookie r k = map_of (wq_cookies r) k"

record set_cookie =
  ck_name :: string
  ck_value :: string
  ck_path :: string
  ck_max_age :: int
  ck_http_only :: bool
  ck_secure :: bool
  ck_lax :: bool

text \<open>What a page shows; the templates only lay it out.\<close>

record page_data =
  pg_title :: string
  pg_brand :: string
  pg_user :: string
  pg_signed_in :: bool
  pg_refresh :: bool
  pg_base :: string

record scan_row =
  sr_id :: string
  sr_received :: string
  sr_profile :: string
  sr_subject :: string
  sr_size :: string
  sr_status :: string
  sr_expires :: string
  sr_error :: string

record doc_row =
  dr_name :: string
  dr_size :: string
  dr_url :: string

datatype body =
    Empty_Body
  | Message_Text string
  | List_Page page_data "scan_row list"
  | Detail_Page page_data scan_row "doc_row list"
  | Signed_Out_Page page_data
  | File_Bytes string
  | Mux_Answer "string list"

record web_response =
  wp_status :: nat
  wp_headers :: "(string \<times> string) list"
  wp_cookies :: "set_cookie list"
  wp_body :: body

text \<open>\<open>http.Error\<close> and \<open>http.Redirect\<close>; the link a redirect also writes into its body is left out.\<close>

definition http_error :: "string \<Rightarrow> nat \<Rightarrow> web_response" where
  "http_error msg code = \<lparr>wp_status = code,
     wp_headers = [(''Content-Type'', ''text/plain; charset=utf-8''), (''X-Content-Type-Options'', ''nosniff'')],
     wp_cookies = [], wp_body = Message_Text msg\<rparr>"

definition http_redirect :: "string \<Rightarrow> nat \<Rightarrow> web_response" where
  "http_redirect url code = \<lparr>wp_status = code, wp_headers = [(''Location'', url)], wp_cookies = [], wp_body = Empty_Body\<rparr>"

section \<open>The session store\<close>

definition session_ttl :: duration where
  "session_ttl = 8 * 3600 * 1000000000"

record web_session =
  sess_identities :: "string list"
  sess_name :: string
  sess_expires :: time

type_synonym session_map = "(string \<times> web_session) list"

text \<open>\<open>create\<close>, \<open>get\<close> and \<open>drop\<close>, one critical section each; \<open>ident\<close> is the random text.\<close>

definition session_create :: "string \<Rightarrow> web_session \<Rightarrow> time \<Rightarrow> session_map \<Rightarrow> string \<times> session_map" where
  "session_create ident sess now m =
     (let s = sess\<lparr>sess_expires := now + session_ttl\<rparr>;
          m1 = filter (\<lambda>p. now < sess_expires (snd p)) m
      in (ident, AList.update ident s m1))"

definition session_get :: "string \<Rightarrow> time \<Rightarrow> session_map \<Rightarrow> web_session option \<times> session_map" where
  "session_get ident now m =
     (case map_of m ident of
        None \<Rightarrow> (None, m)
      | Some s \<Rightarrow> if \<not> now < sess_expires s then (None, AList.delete ident m) else (Some s, m))"

definition session_drop :: "string \<Rightarrow> session_map \<Rightarrow> session_map" where
  "session_drop ident m = AList.delete ident m"

section \<open>Cookies\<close>

definition session_cookie :: string where "session_cookie = ''s2g_session''"
definition auth_cookie :: string where "auth_cookie = ''s2g_auth''"
definition auth_path :: string where "auth_path = ''/auth''"
definition auth_cookie_max_age :: int where "auth_cookie_max_age = 600"

definition make_cookie :: "string \<Rightarrow> string \<Rightarrow> string \<Rightarrow> int \<Rightarrow> set_cookie" where
  "make_cookie name v path age = \<lparr>ck_name = name, ck_value = v, ck_path = path, ck_max_age = age,
     ck_http_only = False, ck_secure = False, ck_lax = False\<rparr>"

text \<open>\<open>setCookie\<close> and \<open>clearCookie\<close>.\<close>

definition put_cookie :: "set_cookie \<Rightarrow> web_response \<Rightarrow> web_response" where
  "put_cookie c r = r\<lparr>wp_cookies := c\<lparr>ck_http_only := True, ck_secure := True, ck_lax := True\<rparr> # wp_cookies r\<rparr>"

definition clear_cookie :: "string \<Rightarrow> string \<Rightarrow> web_response \<Rightarrow> web_response" where
  "clear_cookie name path r = put_cookie (make_cookie name [] path (-1)) r"

definition or_root :: "string \<Rightarrow> string" where
  "or_root p = (if p \<noteq> [] then p else ''/'')"

section \<open>The sign-in\<close>

record claims =
  cl_email :: string
  cl_preferred_username :: string
  cl_name :: string

text \<open>
  The identity provider through its two libraries: the address of the login page for a state, a nonce and the verifier
  whose challenge goes with it; the exchange of a code, which fails, or gives a token response with or without an ID
  token; and the verification of an ID token, which fails, or gives its nonce and its claims, these being readable or
  not. Both calls depend on when they are made.
\<close>

record identity_provider =
  ip_auth_url :: "string \<Rightarrow> string \<Rightarrow> string \<Rightarrow> string"
  ip_exchange :: "time \<Rightarrow> string \<Rightarrow> string \<Rightarrow> string option option"
  ip_verify :: "time \<Rightarrow> string \<Rightarrow> (string \<times> claims option) option"

definition handle_login :: "identity_provider \<Rightarrow> config \<Rightarrow> string \<Rightarrow> string \<Rightarrow> string \<Rightarrow> web_response" where
  "handle_login idp cfg state nonce verifier =
     put_cookie (make_cookie auth_cookie (state @ ''|'' @ nonce @ ''|'' @ verifier) (path_prefix cfg @ auth_path)
                   auth_cookie_max_age)
       (http_redirect (ip_auth_url idp state nonce verifier) 302)"

definition sign_in_failed :: web_response where
  "sign_in_failed = http_error ''sign-in failed'' 400"

text \<open>\<open>identities\<close>: the loop over the claims, \<open>out\<close> being what it has collected.\<close>

fun add_identities :: "(rune \<Rightarrow> rune) \<Rightarrow> string list \<Rightarrow> string list \<Rightarrow> string list" where
  "add_identities low out [] = out"
| "add_identities low out (c # cs) =
     (let i = normalize_address low c in
      if i \<noteq> [] \<and> i \<notin> set out then add_identities low (out @ [i]) cs else add_identities low out cs)"

definition identities_of :: "(rune \<Rightarrow> rune) \<Rightarrow> string list \<Rightarrow> string list" where
  "identities_of low cs = add_identities low [] cs"

text \<open>The checks of \<open>handleCallback\<close>, in order, up to the claims it trusts; \<open>None\<close> is any of its refusals.\<close>

definition callback_claims :: "identity_provider \<Rightarrow> time \<Rightarrow> web_request \<Rightarrow> claims option" where
  "callback_claims idp now r =
     (case cookie r auth_cookie of
        None \<Rightarrow> None
      | Some c \<Rightarrow>
          (case split_on (CHR 0x7C) c of
             [state, nonce, verifier] \<Rightarrow>
               if state = [] \<or> nonce = [] \<or> verifier = [] then None
               else if query_get r ''error'' \<noteq> [] then None
               else if state \<noteq> query_get r ''state'' then None
               else (case ip_exchange idp now (query_get r ''code'') verifier of
                       None \<Rightarrow> None
                     | Some None \<Rightarrow> None
                     | Some (Some raw) \<Rightarrow>
                         (case ip_verify idp now raw of
                            None \<Rightarrow> None
                          | Some (token_nonce, cl) \<Rightarrow> if token_nonce \<noteq> nonce then None else cl))
           | _ \<Rightarrow> None))"

definition handle_callback ::
  "(rune \<Rightarrow> rune) \<Rightarrow> identity_provider \<Rightarrow> config \<Rightarrow> time \<Rightarrow> string \<Rightarrow> web_request \<Rightarrow> session_map \<Rightarrow> web_response \<times> session_map" where
  "handle_callback low idp cfg now rnd r m =
     (let cleared = clear_cookie auth_cookie (path_prefix cfg @ auth_path) in
      case callback_claims idp now r of
        None \<Rightarrow> (cleared sign_in_failed, m)
      | Some cl \<Rightarrow>
          let ids = identities_of low [cl_email cl, cl_preferred_username cl];
              (sid, m1) = session_create rnd \<lparr>sess_identities = ids, sess_name = cl_name cl, sess_expires = 0\<rparr> now m
          in (cleared (put_cookie (make_cookie session_cookie sid (or_root (path_prefix cfg)) (session_ttl div 1000000000))
                        (http_redirect (path_prefix cfg @ ''/'') 303)), m1))"

text \<open>\<open>render\<close>: \<open>tmpl\<close> says whether the template library laid the page out, which happens before anything is written.\<close>

definition render :: "(body \<Rightarrow> bool) \<Rightarrow> body \<Rightarrow> web_response" where
  "render tmpl b =
     (if \<not> tmpl b then http_error ''internal error'' 500
      else \<lparr>wp_status = 200, wp_headers = [(''Content-Type'', ''text/html; charset=utf-8'')], wp_cookies = [], wp_body = b\<rparr>)"

definition handle_logout :: "(body \<Rightarrow> bool) \<Rightarrow> config \<Rightarrow> web_request \<Rightarrow> session_map \<Rightarrow> web_response \<times> session_map" where
  "handle_logout tmpl cfg r m =
     (let m1 = (case cookie r session_cookie of None \<Rightarrow> m | Some c \<Rightarrow> session_drop c m) in
      (clear_cookie session_cookie (or_root (path_prefix cfg))
         (render tmpl (Signed_Out_Page \<lparr>pg_title = ''Signed out'', pg_brand = ui_title cfg, pg_user = [],
                        pg_signed_in = False, pg_refresh = False, pg_base = path_prefix cfg @ ''/''\<rparr>)), m1))"

definition request_session :: "web_request \<Rightarrow> time \<Rightarrow> session_map \<Rightarrow> web_session option \<times> session_map" where
  "request_session r now m =
     (case cookie r session_cookie of None \<Rightarrow> (None, m) | Some c \<Rightarrow> session_get c now m)"

end
