(* ===== verification/Web_Ui.thy ===== *)
theory Web_Ui
  imports Web_Session Pipeline Mime_Compose Go_Url
begin

text \<open>
  The pages of the web UI, \<open>internal/web/web.go\<close>: routing, the guard in front of the scan pages, the authorisation of
  one job, the list, the details and the download, and the little texts they show. The store is the model of
  \<open>Store\<close>; a handler reads it once, under its lock.
\<close>

section \<open>Texts\<close>

definition expires_in :: "duration \<Rightarrow> string" where
  "expires_in d =
     (let minute = 60 * 1000000000;
          m = (if 0 \<le> d then (d + minute div 2) div minute else - ((minute div 2 - d) div minute))
      in if m < 1 then ''expires any moment''
         else if m < 60 then ''expires in '' @ dec (nat m) @ '' min''
         else ''expires in '' @ dec (nat (m div 60)) @ '' h '' @ dec (nat (m mod 60)) @ '' min'')"

text \<open>\<open>%.0f\<close> of \<open>n / 2^10\<close>, ties to even.\<close>

definition kilobytes :: "nat \<Rightarrow> nat" where
  "kilobytes n =
     (let q = n div 1024; r = n mod 1024 in if 1024 < 2 * r \<or> (2 * r = 1024 \<and> odd q) then q + 1 else q)"

definition human_bytes :: "int \<Rightarrow> string" where
  "human_bytes n =
     (if 1048576 \<le> n then megabytes_text n @ '' MB''
      else if 1024 \<le> n then dec (kilobytes (nat n)) @ '' kB''
      else (if n < 0 then ''-'' @ dec (nat (- n)) else dec (nat n)) @ '' B'')"

definition scan_size :: "document list \<Rightarrow> string" where
  "scan_size docs =
     (let total_bytes = doc_bytes docs in
      if docs = [] then [CHR 0xE2, CHR 0x80, CHR 0x94]
      else if length docs = 1 then human_bytes total_bytes
      else dec (length docs) @ '' files '' @ [CHR 0xC2, CHR 0xB7] @ '' '' @ human_bytes total_bytes)"

definition status_text :: "status \<Rightarrow> string" where
  "status_text st =
     (case st of StatusPending \<Rightarrow> ''pending'' | StatusProcessing \<Rightarrow> ''processing'' | StatusReady \<Rightarrow> ''ready''
      | StatusFailed \<Rightarrow> ''failed'' | StatusEvicted \<Rightarrow> ''removed'')"

section \<open>The handlers\<close>

text \<open>What the handlers use beyond the store: the template library, the local form of a time, and the files on disk.\<close>

record web_env =
  we_tmpl :: "body \<Rightarrow> bool"
  we_time_text :: "time \<Rightarrow> string"
  we_open :: "path \<Rightarrow> string option"

definition not_found :: web_response where
  "not_found = http_error
     (''This scan is not available. Scans are kept for a limited time, '' @
      ''and are removed earlier when the space is needed for newer ones.'') 404"

definition page_for :: "config \<Rightarrow> string \<Rightarrow> web_session \<Rightarrow> bool \<Rightarrow> page_data" where
  "page_for cfg title sess refresh =
     \<lparr>pg_title = title, pg_brand = ui_title cfg, pg_user = sess_name sess, pg_signed_in = True,
      pg_refresh = refresh, pg_base = path_prefix cfg @ ''/''\<rparr>"

definition row :: "web_env \<Rightarrow> time \<Rightarrow> job \<Rightarrow> scan_row" where
  "row env now j =
     \<lparr>sr_id = job_id j, sr_received = we_time_text env (received_at j), sr_profile = job_profile j,
      sr_subject = subject j, sr_size = scan_size (documents j), sr_status = status_text (status j),
      sr_expires = expires_in (expires_at j - now), sr_error = job_error j\<rparr>"

definition in_progress :: "job \<Rightarrow> bool" where
  "in_progress j = (status j = StatusPending \<or> status j = StatusProcessing)"

text \<open>\<open>job\<close>: lookup and authorisation in one step.\<close>

definition web_job :: "web_session \<Rightarrow> string \<Rightarrow> time \<Rightarrow> store \<Rightarrow> job option" where
  "web_job sess jid now s =
     (case get jid now s of
        None \<Rightarrow> None
      | Some j \<Rightarrow>
          if \<not> Web (caps j) then None
          else if list_ex (\<lambda>i. i \<in> set (recipients j)) (sess_identities sess) then Some j else None)"

definition handle_list :: "web_env \<Rightarrow> config \<Rightarrow> time \<Rightarrow> store \<Rightarrow> web_session \<Rightarrow> web_response" where
  "handle_list env cfg now s sess =
     (let found = list_for_user (sess_identities sess) now s in
      render (we_tmpl env)
        (List_Page (page_for cfg ''Scans'' sess (list_ex in_progress found)) (map (row env now) found)))"

definition handle_detail :: "web_env \<Rightarrow> config \<Rightarrow> time \<Rightarrow> store \<Rightarrow> string \<Rightarrow> web_session \<Rightarrow> web_response" where
  "handle_detail env cfg now s jid sess =
     (case web_job sess jid now s of
        None \<Rightarrow> not_found
      | Some j \<Rightarrow>
          let r = row env now j in
          render (we_tmpl env)
            (Detail_Page (page_for cfg (sr_subject r) sess (in_progress j)) r
               (map (\<lambda>d. \<lparr>dr_name = display_name d, dr_size = human_bytes (doc_size d),
                          dr_url = path_prefix cfg @ ''/scan/'' @ job_id j @ ''/'' @ doc_id d\<rparr>) (documents j))))"

definition handle_download :: "web_env \<Rightarrow> config \<Rightarrow> time \<Rightarrow> store \<Rightarrow> string \<Rightarrow> string \<Rightarrow> web_session \<Rightarrow> web_response" where
  "handle_download env cfg now s jid did sess =
     (case web_job sess jid now s of
        None \<Rightarrow> not_found
      | Some j \<Rightarrow>
          (case find (\<lambda>d. doc_id d = did) (documents j) of
             None \<Rightarrow> not_found
           | Some d \<Rightarrow>
               if in_progress j then http_error ''the scan is still being processed'' 409
               else (case we_open env (doc_path d) of
                       None \<Rightarrow> http_error ''document unavailable'' 500
                     | Some content \<Rightarrow>
                         \<lparr>wp_status = 200,
                          wp_headers = [(''Content-Type'', ''application/pdf''),
                            (''Content-Disposition'', attachment_disposition (display_name d)),
                            (''Content-Length'', (if doc_size d < 0 then ''-'' @ dec (nat (- doc_size d)) else dec (nat (doc_size d))))],
                          wp_cookies = [], wp_body = File_Bytes content\<rparr>)))"

section \<open>Routing\<close>

datatype route =
    R_List | R_Detail string | R_Download string string
  | R_Login | R_Callback | R_Logout | R_Static "string list" | R_None

text \<open>
  The patterns of \<open>routes\<close>. The segments are those of the path after the prefix; a pattern for \<open>GET\<close> also serves
  \<open>HEAD\<close>; a wildcard stands for one segment that is not empty. What no pattern matches is the mux's to answer (not
  found, a redirect to a cleaned path, or a method that is not allowed), without a handler.
\<close>

definition prefix_segments :: "string \<Rightarrow> string list" where
  "prefix_segments p = tl (split_on (CHR ''/'') p)"

definition route_of :: "string \<Rightarrow> string \<Rightarrow> string list \<Rightarrow> route" where
  "route_of p meth segs =
     (let n = length (prefix_segments p) in
      if take n segs \<noteq> prefix_segments p then R_None
      else (case drop n segs of
              [a] \<Rightarrow> if a = [] \<and> meth \<in> {''GET'', ''HEAD''} then R_List else R_None
            | [a, b] \<Rightarrow>
                if a = ''scan'' \<and> b \<noteq> [] \<and> meth \<in> {''GET'', ''HEAD''} then R_Detail b
                else if a = ''auth'' \<and> b = ''login'' \<and> meth \<in> {''GET'', ''HEAD''} then R_Login
                else if a = ''auth'' \<and> b = ''callback'' \<and> meth \<in> {''GET'', ''HEAD''} then R_Callback
                else if a = ''auth'' \<and> b = ''logout'' \<and> meth = ''POST'' then R_Logout
                else if a = ''static'' \<and> meth \<in> {''GET'', ''HEAD''} then R_Static [b]
                else R_None
            | a # b # c # rest \<Rightarrow>
                if a = ''scan'' \<and> b \<noteq> [] \<and> c \<noteq> [] \<and> rest = [] \<and> meth \<in> {''GET'', ''HEAD''} then R_Download b c
                else if a = ''static'' \<and> meth \<in> {''GET'', ''HEAD''} then R_Static (b # c # rest)
                else R_None
            | [] \<Rightarrow> R_None))"

text \<open>\<open>guard\<close>: the handler runs with the session the request carries, or not at all.\<close>

definition guard :: "config \<Rightarrow> (web_session \<Rightarrow> web_response) \<Rightarrow> time \<Rightarrow> web_request \<Rightarrow> session_map \<Rightarrow> web_response \<times> session_map" where
  "guard cfg h now r m =
     (case request_session r now m of
        (None, m1) \<Rightarrow> (http_redirect (path_prefix cfg @ ''/auth/login'') 303, m1)
      | (Some sess, m1) \<Rightarrow> (h sess, m1))"

definition security_headers :: "(string \<times> string) list" where
  "security_headers =
     [(''Cache-Control'', ''no-store''), (''X-Content-Type-Options'', ''nosniff''), (''Referrer-Policy'', ''no-referrer''),
      (''Content-Security-Policy'', ''default-src '' @ [CHR 0x27] @ ''none'' @ [CHR 0x27] @ ''; style-src '' @ [CHR 0x27] @ ''self'' @
         [CHR 0x27] @ ''; '' @ ''form-action '' @ [CHR 0x27] @ ''self'' @ [CHR 0x27] @ ''; base-uri '' @ [CHR 0x27] @ ''none'' @
         [CHR 0x27] @ ''; frame-ancestors '' @ [CHR 0x27] @ ''none'' @ [CHR 0x27])]"

text \<open>\<open>secureHeaders\<close> sets its headers before the handler runs, so what the handler sets itself comes on top.\<close>

definition secure_headers :: "web_response \<Rightarrow> web_response" where
  "secure_headers rsp =
     rsp\<lparr>wp_headers := filter (\<lambda>h. fst h \<notin> fst ` set (wp_headers rsp)) security_headers @ wp_headers rsp\<rparr>"

record web_random =
  wr_state :: string
  wr_nonce :: string
  wr_verifier :: string
  wr_session :: string

record web_server =
  ws_cfg :: config
  ws_env :: web_env
  ws_idp :: identity_provider
  ws_low :: "rune \<Rightarrow> rune"

definition mux_answer :: "string list \<Rightarrow> web_response" where
  "mux_answer segs = \<lparr>wp_status = 0, wp_headers = [], wp_cookies = [], wp_body = Mux_Answer segs\<rparr>"

definition web_routes ::
  "web_server \<Rightarrow> web_random \<Rightarrow> time \<Rightarrow> store \<Rightarrow> web_request \<Rightarrow> session_map \<Rightarrow> web_response \<times> session_map" where
  "web_routes W rnd now s r m =
     (let cfg = ws_cfg W; env = ws_env W in
      case route_of (path_prefix cfg) (wq_method r) (wq_segments r) of
        R_List \<Rightarrow> guard cfg (handle_list env cfg now s) now r m
      | R_Detail jid \<Rightarrow> guard cfg (handle_detail env cfg now s jid) now r m
      | R_Download jid did \<Rightarrow> guard cfg (handle_download env cfg now s jid did) now r m
      | R_Login \<Rightarrow> (handle_login (ws_idp W) cfg (wr_state rnd) (wr_nonce rnd) (wr_verifier rnd), m)
      | R_Callback \<Rightarrow> handle_callback (ws_low W) (ws_idp W) cfg now (wr_session rnd) r m
      | R_Logout \<Rightarrow> handle_logout (we_tmpl env) cfg r m
      | R_Static f \<Rightarrow> (mux_answer f, m)
      | R_None \<Rightarrow> (mux_answer [], m))"

definition web_handle ::
  "web_server \<Rightarrow> web_random \<Rightarrow> time \<Rightarrow> store \<Rightarrow> web_request \<Rightarrow> session_map \<Rightarrow> web_response \<times> session_map" where
  "web_handle W rnd now s r m = (case web_routes W rnd now s r m of (rsp, m1) \<Rightarrow> (secure_headers rsp, m1))"

end
