(* ===== verification/Web_Properties.thy ===== *)
theory Web_Properties
  imports Web_Ui Store_Properties Config_Properties
begin

text \<open>
  What the web UI guarantees: its session store is a map whose entries run out; whatever page or file it hands out goes
  to a session a verified sign-in created, and only shows scans addressed to that user; a scan of somebody else does not
  change a single answer; a signed-out session stays signed out.
\<close>

section \<open>The contract of a session store\<close>

text \<open>
  A session store promises a map of the sessions as they are at a time: taking one out does not change what anybody
  sees from then on, a new one lasts until it expires, a dropped one is gone. \<open>inv\<close> is what its representation keeps.
\<close>

locale session_contract =
  fixes inv :: "'s \<Rightarrow> bool"
    and view :: "'s \<Rightarrow> time \<Rightarrow> string \<rightharpoonup> web_session"
    and take_out :: "string \<Rightarrow> time \<Rightarrow> 's \<Rightarrow> web_session option \<times> 's"
    and put :: "string \<Rightarrow> web_session \<Rightarrow> time \<Rightarrow> 's \<Rightarrow> string \<times> 's"
    and remove :: "string \<Rightarrow> 's \<Rightarrow> 's"
    and ttl :: duration
  assumes take_inv: "inv s \<Longrightarrow> inv (snd (take_out k now s))"
    and put_inv: "inv s \<Longrightarrow> inv (snd (put k v now s))"
    and remove_inv: "inv s \<Longrightarrow> inv (remove k s)"
    and take_value: "inv s \<Longrightarrow> fst (take_out k now s) = view s now k"
    and take_view: "inv s \<Longrightarrow> now \<le> t \<Longrightarrow> view (snd (take_out k now s)) t = view s t"
    and put_key: "fst (put k v now s) = k"
    and put_view: "inv s \<Longrightarrow> now \<le> t \<Longrightarrow> view (snd (put k v now s)) t =
        (view s t)(k := (if t < now + ttl then Some (v\<lparr>sess_expires := now + ttl\<rparr>) else None))"
    and remove_view: "inv s \<Longrightarrow> view (remove k s) t = (view s t)(k := None)"
    and view_shrinks: "inv s \<Longrightarrow> t \<le> u \<Longrightarrow> view s t k = None \<Longrightarrow> view s u k = None"
begin

text \<open>An id nobody holds stays without a session for as long as no new session is put under it.\<close>

lemma take_out_absent: "inv s \<Longrightarrow> view s t k = None \<Longrightarrow> now \<le> t \<Longrightarrow> view (snd (take_out k' now s)) t k = None"
  by (simp add: take_view)

lemma put_absent: "inv s \<Longrightarrow> view s t k = None \<Longrightarrow> now \<le> t \<Longrightarrow> k' \<noteq> k \<Longrightarrow> view (snd (put k' v now s)) t k = None"
  by (simp add: put_view)

lemma remove_absent: "inv s \<Longrightarrow> view s t k = None \<or> k' = k \<Longrightarrow> view (remove k' s) t k = None"
  by (auto simp: remove_view)

lemma take_out_gone: "inv s \<Longrightarrow> view s t k = None \<Longrightarrow> t \<le> now \<Longrightarrow> fst (take_out k now s) = None"
  by (simp add: take_value view_shrinks)

end

lemma set_update_subset: "set (AList.update k v al) \<subseteq> insert (k, v) (set al)"
  by (induction al) auto

definition session_view :: "session_map \<Rightarrow> time \<Rightarrow> string \<rightharpoonup> web_session" where
  "session_view m t k =
     (case map_of m k of None \<Rightarrow> None | Some s \<Rightarrow> if t < sess_expires s then Some s else None)"

definition session_inv :: "session_map \<Rightarrow> bool" where
  "session_inv m = distinct (map fst m)"

lemma session_view_create:
  assumes "session_inv m" "now \<le> t"
  shows "session_view (snd (session_create k v now m)) t =
    (session_view m t)(k := (if t < now + session_ttl then Some (v\<lparr>sess_expires := now + session_ttl\<rparr>) else None))"
proof
  fix x
  show "session_view (snd (session_create k v now m)) t x =
    ((session_view m t)(k := (if t < now + session_ttl then Some (v\<lparr>sess_expires := now + session_ttl\<rparr>) else None))) x"
    using assms map_of_filter_val [of m "\<lambda>s. now < sess_expires s" x]
    by (auto simp: session_view_def session_create_def session_inv_def Let_def map_of_update' split: option.splits)
qed

lemma session_view_get: "now \<le> t \<Longrightarrow> session_view (snd (session_get k now m)) t = session_view m t"
  by (rule ext) (auto simp: session_view_def session_get_def map_of_delete' split: option.splits)

interpretation sessions: session_contract session_inv session_view session_get session_create session_drop session_ttl
proof (unfold_locales, goal_cases)
  case (1 s k now)
  then show ?case by (auto simp: session_inv_def session_get_def distinct_delete split: option.splits)
next
  case (2 s k v now)
  then show ?case by (auto simp: session_inv_def session_create_def Let_def distinct_update distinct_filter_keys)
next
  case (3 s k)
  then show ?case by (simp add: session_inv_def session_drop_def distinct_delete)
next
  case (4 s k now)
  then show ?case by (auto simp: session_view_def session_get_def split: option.splits)
next
  case (5 s now t k)
  then show ?case by (simp add: session_view_get)
next
  case (6 k v now s)
  then show ?case by (simp add: session_create_def Let_def)
next
  case (7 s now t k v)
  then show ?case by (simp add: session_view_create)
next
  case (8 s k t)
  show ?case by (rule ext) (simp add: session_view_def session_drop_def map_of_delete')
next
  case (9 s t u k)
  then show ?case by (auto simp: session_view_def split: option.splits if_splits)
qed

section \<open>The web server as a system\<close>

text \<open>
  The sessions over any sequence of requests: the clock does not run backwards, a session id the random source gives was
  never given before (\<open>ws_issued\<close> is the list of those it gave), and between two requests the job store may have become
  any other one.
\<close>

record web_system =
  ws_sessions :: session_map
  ws_issued :: "string list"
  ws_clock :: time

inductive web_step :: "web_server \<Rightarrow> web_system \<Rightarrow> web_request \<Rightarrow> web_response \<Rightarrow> web_system \<Rightarrow> bool" for W where
  web_serve:
    "ws_clock X \<le> now \<Longrightarrow> wr_session rnd \<notin> set (ws_issued X) \<Longrightarrow>
     web_handle W rnd now s r (ws_sessions X) = (rsp, m) \<Longrightarrow>
     web_step W X r rsp \<lparr>ws_sessions = m, ws_issued = wr_session rnd # ws_issued X, ws_clock = now\<rparr>"

inductive_cases web_stepE: "web_step W X r rsp Y"

definition web_init :: "web_system \<Rightarrow> bool" where
  "web_init X \<longleftrightarrow> ws_sessions X = [] \<and> ws_issued X = []"

definition web_next :: "web_server \<Rightarrow> web_system \<Rightarrow> web_system \<Rightarrow> bool" where
  "web_next W X Y \<longleftrightarrow> (\<exists>r rsp. web_step W X r rsp Y)"

abbreviation reachable_web :: "web_server \<Rightarrow> web_system \<Rightarrow> bool" where
  "reachable_web W \<equiv> reachable_by web_init (web_next W)"

text \<open>What a sign-in has to be: the browser's own state and nonce came back, the nonce inside an ID token that verified.\<close>

definition verified_sign_in :: "identity_provider \<Rightarrow> time \<Rightarrow> web_request \<Rightarrow> claims \<Rightarrow> bool" where
  "verified_sign_in idp t r cl \<longleftrightarrow>
     (\<exists>state nonce verifier raw.
        cookie r auth_cookie = Some (state @ ''|'' @ nonce @ ''|'' @ verifier) \<and>
        state \<noteq> [] \<and> nonce \<noteq> [] \<and> verifier \<noteq> [] \<and>
        query_get r ''state'' = state \<and> query_get r ''error'' = [] \<and>
        ip_exchange idp t (query_get r ''code'') verifier = Some (Some raw) \<and>
        ip_verify idp t raw = Some (nonce, Some cl))"

lemma split_three: "split_on c s = [x, y, z] \<Longrightarrow> s = x @ [c] @ y @ [c] @ z"
  using join_split_on [of c s] by simp

lemma callback_claims_verified: "callback_claims idp t r = Some cl \<Longrightarrow> verified_sign_in idp t r cl"
  unfolding callback_claims_def verified_sign_in_def
  by (auto split: option.splits list.splits if_splits dest!: split_three) blast

lemma set_add_identities:
  "set (add_identities low out cs) = set out \<union> {i. i \<noteq> [] \<and> i \<in> normalize_address low ` set cs}"
  by (induction low out cs rule: add_identities.induct) (auto simp: Let_def)

lemma set_identities_of: "set (identities_of low cs) = {i. i \<noteq> [] \<and> i \<in> normalize_address low ` set cs}"
  by (simp add: identities_of_def set_add_identities)

text \<open>What one request does to the sessions.\<close>

lemma web_handle_sessions:
  assumes "web_handle W rnd now s r m = (rsp, m')"
  obtains (same) "m' = m"
  | (looked) c where "cookie r session_cookie = Some c" "m' = snd (session_get c now m)"
  | (signed_in) cl where "callback_claims (ws_idp W) now r = Some cl"
      "m' = snd (session_create (wr_session rnd)
         \<lparr>sess_identities = identities_of (ws_low W) [cl_email cl, cl_preferred_username cl],
          sess_name = cl_name cl, sess_expires = 0\<rparr> now m)"
  | (signed_out) c where "cookie r session_cookie = Some c" "m' = session_drop c m"
proof -
  obtain rsp0 where run: "web_routes W rnd now s r m = (rsp0, m')"
    using assms by (auto simp: web_handle_def split: prod.splits)
  have guarded: "m' = m \<or> (\<exists>c. cookie r session_cookie = Some c \<and> m' = snd (session_get c now m))"
    if "guard cfg h now r m = (rsp0, m')" for cfg h
    using that by (auto simp: guard_def request_session_def split: prod.splits option.splits)
  consider "m' = m" | (g) cfg h where "guard cfg h now r m = (rsp0, m')"
    | (cb) "handle_callback (ws_low W) (ws_idp W) (ws_cfg W) now (wr_session rnd) r m = (rsp0, m')"
    | (lo) "handle_logout (we_tmpl (ws_env W)) (ws_cfg W) r m = (rsp0, m')"
    using run by (auto simp: web_routes_def Let_def split: route.splits)
  then show thesis
  proof cases
    case g
    then show thesis using guarded looked same by blast
  next
    case cb
    then show thesis
      by (auto simp: handle_callback_def Let_def session_create_def split: option.splits
               intro: same signed_in [unfolded session_create_def Let_def snd_conv])
  next
    case lo
    then show thesis by (auto simp: handle_logout_def Let_def split: option.splits intro: same signed_out)
  qed (rule same)
qed

text \<open>Every session on the store is the outcome of a verified sign-in not longer ago than it lasts.\<close>

definition session_from_sign_in :: "web_server \<Rightarrow> time \<Rightarrow> web_session \<Rightarrow> bool" where
  "session_from_sign_in W now sess \<longleftrightarrow>
     (\<exists>t r cl. verified_sign_in (ws_idp W) t r cl \<and> t \<le> now \<and> sess_expires sess = t + session_ttl \<and>
        set (sess_identities sess) =
          {i. i \<noteq> [] \<and> i \<in> normalize_address (ws_low W) ` {cl_email cl, cl_preferred_username cl}})"

definition web_inv :: "web_server \<Rightarrow> web_system \<Rightarrow> bool" where
  "web_inv W X \<longleftrightarrow>
     session_inv (ws_sessions X) \<and>
     (\<forall>(k, sess) \<in> set (ws_sessions X). k \<in> set (ws_issued X) \<and> session_from_sign_in W (ws_clock X) sess)"

lemma session_from_sign_in_later: "session_from_sign_in W t sess \<Longrightarrow> t \<le> u \<Longrightarrow> session_from_sign_in W u sess"
  unfolding session_from_sign_in_def by (meson order_trans)

lemma web_inv_step:
  assumes "web_next W X Y" "web_inv W X"
  shows "web_inv W Y"
proof -
  from assms(1) obtain now rnd s r rsp m where step: "ws_clock X \<le> now" "wr_session rnd \<notin> set (ws_issued X)"
      "web_handle W rnd now s r (ws_sessions X) = (rsp, m)"
    and Y: "Y = \<lparr>ws_sessions = m, ws_issued = wr_session rnd # ws_issued X, ws_clock = now\<rparr>"
    by (auto simp: web_next_def elim: web_stepE)
  let ?m = "ws_sessions X"
  have old: "k \<in> set (ws_issued X) \<and> session_from_sign_in W now sess" if "(k, sess) \<in> set ?m" for k sess
    using that assms(2) step(1) unfolding web_inv_def by (auto intro: session_from_sign_in_later)
  have inv: "session_inv ?m" using assms(2) by (simp add: web_inv_def)
  from step(3) have "session_inv m \<and> (\<forall>(k, sess) \<in> set m. k \<in> set (wr_session rnd # ws_issued X) \<and> session_from_sign_in W now sess)"
  proof (cases rule: web_handle_sessions)
    case same
    with inv old show ?thesis by auto
  next
    case (looked c)
    have "set m \<subseteq> set ?m" unfolding looked(2) by (auto simp: session_get_def in_set_delete split: option.splits)
    with looked(2) sessions.take_inv [OF inv] old show ?thesis by auto
  next
    case (signed_in cl)
    let ?new = "\<lparr>sess_identities = identities_of (ws_low W) [cl_email cl, cl_preferred_username cl],
          sess_name = cl_name cl, sess_expires = 0\<rparr>"
    have "session_from_sign_in W now (?new\<lparr>sess_expires := now + session_ttl\<rparr>)"
      using callback_claims_verified [OF signed_in(1)] by (auto simp: session_from_sign_in_def set_identities_of)
    moreover have "set m \<subseteq> insert (wr_session rnd, ?new\<lparr>sess_expires := now + session_ttl\<rparr>) (set ?m)"
      unfolding signed_in(2) session_create_def Let_def snd_conv
      using set_update_subset [of "wr_session rnd" "?new\<lparr>sess_expires := now + session_ttl\<rparr>"] by fastforce
    ultimately show ?thesis using signed_in(2) sessions.put_inv [OF inv] old by auto
  next
    case (signed_out c)
    with sessions.remove_inv [OF inv] old show ?thesis by (auto simp: session_drop_def in_set_delete)
  qed
  with Y show ?thesis by (simp add: web_inv_def)
qed

lemma web_inv_init: "web_init X \<Longrightarrow> web_inv W X"
  by (simp add: web_init_def web_inv_def session_inv_def)

interpretation web_safe: invariant_system web_init "web_next W" "web_inv W" for W
  by unfold_locales (simp_all add: web_inv_init web_inv_step)

section \<open>Who is shown what\<close>

lemma web_job_Some:
  "web_job sess jid now s = Some j \<longleftrightarrow>
     (\<exists>r. map_of (jobs s) jid = Some r \<and> rec_job r = j) \<and> Web (caps j) \<and> live j now \<and>
     (\<exists>i \<in> set (sess_identities sess). i \<in> set (recipients j))"
  by (auto simp: web_job_def get_def list_ex_iff split: option.splits if_splits)

fun file_of :: "body \<Rightarrow> string option" where
  "file_of (File_Bytes c) = Some c"
| "file_of _ = None"

lemma file_of_iff: "b = File_Bytes c \<longleftrightarrow> file_of b = Some c"
  by (cases b) auto

lemma no_file_answers [simp]:
  "file_of (wp_body (http_error msg n)) = None" "file_of (wp_body (http_redirect url n)) = None"
  "file_of (wp_body not_found) = None" "wp_body (put_cookie ck rsp) = wp_body rsp" "wp_body (clear_cookie nm p rsp) = wp_body rsp"
  "file_of (wp_body (render tmpl b)) = (if tmpl b then file_of b else None)" "wp_body (secure_headers rsp) = wp_body rsp"
  "file_of (wp_body sign_in_failed) = None" "file_of (wp_body (mux_answer segs)) = None"
  by (simp_all add: http_error_def http_redirect_def not_found_def put_cookie_def clear_cookie_def render_def
        secure_headers_def sign_in_failed_def mux_answer_def)

lemma no_file_handlers [simp]:
  "file_of (wp_body (handle_login idp cfg a b c)) = None"
  "file_of (wp_body (fst (handle_callback low idp cfg now rnd r m))) = None"
  "file_of (wp_body (fst (handle_logout tmpl cfg r m))) = None"
  "file_of (wp_body (handle_list env cfg now s sess)) = None"
  "file_of (wp_body (handle_detail env cfg now s jid sess)) = None"
  by (simp_all add: handle_login_def handle_callback_def handle_logout_def handle_list_def handle_detail_def Let_def
        split: option.splits prod.splits)

lemma guard_file:
  "file_of (wp_body (fst (guard cfg h now r m))) = Some content \<Longrightarrow>
   \<exists>sess. fst (request_session r now m) = Some sess \<and> file_of (wp_body (h sess)) = Some content"
  by (auto simp: guard_def split: prod.splits option.splits)

lemma download_file:
  "file_of (wp_body (handle_download env cfg now s jid did sess)) = Some content \<Longrightarrow>
   \<exists>j d. web_job sess jid now s = Some j \<and> find (\<lambda>d. doc_id d = did) (documents j) = Some d \<and> \<not> in_progress j \<and>
         we_open env (doc_path d) = Some content"
  by (auto simp: handle_download_def split: option.splits if_splits)

lemma routes_file:
  "file_of (wp_body (fst (web_routes W rnd now s r m))) = Some content \<Longrightarrow>
   \<exists>jid did. file_of (wp_body (fst (guard (ws_cfg W) (handle_download (ws_env W) (ws_cfg W) now s jid did) now r m))) = Some content"
  by (cases "route_of (path_prefix (ws_cfg W)) (wq_method r) (wq_segments r)")
     (auto simp: web_routes_def Let_def dest: guard_file)

lemma request_session_view:
  "fst (request_session r now m) = Some sess \<longleftrightarrow>
   (\<exists>c. cookie r session_cookie = Some c \<and> session_view m now c = Some sess)"
  by (auto simp: request_session_def session_view_def session_get_def split: option.splits)

lemma web_file_answer:
  assumes "web_handle W rnd now s r m = (rsp, m')" "wp_body rsp = File_Bytes content"
  obtains c sess jid j d where "cookie r session_cookie = Some c" "session_view m now c = Some sess"
    "web_job sess jid now s = Some j" "d \<in> set (documents j)" "\<not> in_progress j" "we_open (ws_env W) (doc_path d) = Some content"
proof -
  have "file_of (wp_body (fst (web_routes W rnd now s r m))) = Some content"
    using assms by (cases "web_routes W rnd now s r m") (auto simp: web_handle_def)
  then obtain jid did where
    "file_of (wp_body (fst (guard (ws_cfg W) (handle_download (ws_env W) (ws_cfg W) now s jid did) now r m))) = Some content"
    using routes_file by blast
  then obtain sess where sess: "fst (request_session r now m) = Some sess"
      "file_of (wp_body (handle_download (ws_env W) (ws_cfg W) now s jid did sess)) = Some content"
    using guard_file by blast
  from download_file [OF sess(2)] obtain j d where jd: "web_job sess jid now s = Some j"
      "find (\<lambda>d. doc_id d = did) (documents j) = Some d" "\<not> in_progress j" "we_open (ws_env W) (doc_path d) = Some content"
    by blast
  from sess(1) obtain c where "cookie r session_cookie = Some c" "session_view m now c = Some sess"
    unfolding request_session_view by blast
  moreover have "d \<in> set (documents j)" using jd(2) by (auto simp: find_Some_iff)
  ultimately show thesis using that jd by blast
qed


section \<open>A scan of somebody else does not exist\<close>

text \<open>The jobs the session a request carries may see.\<close>

definition seen_jobs :: "web_request \<Rightarrow> time \<Rightarrow> session_map \<Rightarrow> store \<Rightarrow> (string \<times> job) list" where
  "seen_jobs r now m s =
     (case fst (request_session r now m) of
        None \<Rightarrow> []
      | Some sess \<Rightarrow>
          filter (\<lambda>p. Web (caps (snd p)) \<and> live (snd p) now \<and> list_ex (\<lambda>i. i \<in> set (recipients (snd p))) (sess_identities sess))
            (map (\<lambda>p. (fst p, rec_job (snd p))) (jobs s)))"

lemma find_job_seen:
  assumes "distinct (map fst (jobs s))"
  shows "web_job sess jid now s =
    map_of (filter (\<lambda>p. Web (caps (snd p)) \<and> live (snd p) now \<and> list_ex (\<lambda>i. i \<in> set (recipients (snd p))) (sess_identities sess))
              (map (\<lambda>p. (fst p, rec_job (snd p))) (jobs s))) jid"
proof -
  let ?P = "\<lambda>j. Web (caps j) \<and> live j now \<and> list_ex (\<lambda>i. i \<in> set (recipients j)) (sess_identities sess)"
  have d: "distinct (map fst (map (\<lambda>p. (fst p, rec_job (snd p))) (jobs s)))" using assms by (simp add: comp_def)
  have m: "map_of (map (\<lambda>p. (fst p, rec_job (snd p))) al) jid = map_option rec_job (map_of al jid)" for al
    by (induction al) auto
  show ?thesis
    unfolding map_of_filter_val [OF d, where P = ?P] m
    by (auto simp: web_job_def get_def split: option.splits)
qed

lemma list_for_user_seen:
  "list_for_user ids now s = list_for_user ids now s'"
  if "filter (\<lambda>p. Web (caps (snd p)) \<and> live (snd p) now \<and> list_ex (\<lambda>i. i \<in> set (recipients (snd p))) ids)
        (map (\<lambda>p. (fst p, rec_job (snd p))) (jobs s)) =
      filter (\<lambda>p. Web (caps (snd p)) \<and> live (snd p) now \<and> list_ex (\<lambda>i. i \<in> set (recipients (snd p))) ids)
        (map (\<lambda>p. (fst p, rec_job (snd p))) (jobs s'))"
proof -
  let ?want = "filter (\<lambda>i. i \<noteq> []) ids"
  let ?Q = "\<lambda>j. Web (caps j) \<and> live j now \<and> list_ex (\<lambda>r. r \<in> set ?want) (recipients j)"
  let ?P = "\<lambda>j. Web (caps j) \<and> live j now \<and> list_ex (\<lambda>i. i \<in> set (recipients j)) ids"
  let ?js = "\<lambda>s. map (\<lambda>p. rec_job (snd p)) (jobs s)"
  have "filter ?P (?js s) = filter ?P (?js s')"
    using arg_cong [OF that, of "map snd"] by (simp add: filter_map comp_def)
  then have "filter ?Q (filter ?P (?js s)) = filter ?Q (filter ?P (?js s'))" by simp
  moreover have "filter ?Q (filter ?P js) = filter ?Q js" for js
    by (auto simp: list_ex_iff intro!: filter_cong)
  ultimately show ?thesis by (simp add: list_for_user_def Let_def)
qed

text \<open>C12: Not yours is indistinguishable from never existed. Two job stores that agree on the web-visible, unexpired jobs
  addressed to the user of the session a request carries - and in nothing else: not in the jobs of other people, nor in
  expired ones, nor in those without the web capability, nor in files, charges or reservations - answer the request with
  the same response, byte for byte, and leave the same sessions. For a request without a session they need not agree in
  anything.\<close>

theorem web_hides_other_scans:
  assumes "reachable_store S" and "reachable_store S'"
    and "seen_jobs r now m (sys_store S) = seen_jobs r now m (sys_store S')"
  shows "web_handle W rnd now (sys_store S) r m = web_handle W rnd now (sys_store S') r m"
proof -
  have d: "distinct (map fst (jobs (sys_store S)))" "distinct (map fst (jobs (sys_store S')))"
    using store_safe.reachable_inv [OF assms(1)] store_safe.reachable_inv [OF assms(2)]
    by (simp_all add: store_inv_def budget_ok_def books_ok_def)
  have same: "guard cfg h now r m = guard cfg h' now r m"
    if "\<And>sess. fst (request_session r now m) = Some sess \<Longrightarrow> h sess = h' sess" for cfg h h'
    using that by (cases "request_session r now m") (auto simp: guard_def split: option.splits)
  have jobs: "web_job sess jid now (sys_store S) = web_job sess jid now (sys_store S')"
    and listed: "list_for_user (sess_identities sess) now (sys_store S) = list_for_user (sess_identities sess) now (sys_store S')"
    if "fst (request_session r now m) = Some sess" for sess jid
    using assms(3) that list_for_user_seen [of now "sess_identities sess" "sys_store S" "sys_store S'"]
    by (simp_all add: seen_jobs_def find_job_seen d)
  have "web_routes W rnd now (sys_store S) r m = web_routes W rnd now (sys_store S') r m"
    by (auto simp: web_routes_def Let_def handle_list_def handle_detail_def handle_download_def jobs listed
             split: route.split intro!: same)
  then show ?thesis by (simp add: web_handle_def)
qed

section \<open>Signing out\<close>

text \<open>A run: the requests and their answers, in order.\<close>

inductive web_runs :: "web_server \<Rightarrow> web_system \<Rightarrow> (web_request \<times> web_response) list \<Rightarrow> web_system \<Rightarrow> bool" for W where
  web_runs_none: "web_runs W X [] X"
| web_runs_more: "web_step W X r rsp Y \<Longrightarrow> web_runs W Y tr Z \<Longrightarrow> web_runs W X ((r, rsp) # tr) Z"

definition guarded_route :: "web_server \<Rightarrow> web_request \<Rightarrow> bool" where
  "guarded_route W r =
     (case route_of (path_prefix (ws_cfg W)) (wq_method r) (wq_segments r) of
        R_List \<Rightarrow> True | R_Detail _ \<Rightarrow> True | R_Download _ _ \<Rightarrow> True | _ \<Rightarrow> False)"

definition to_login :: "web_server \<Rightarrow> web_response" where
  "to_login W = secure_headers (http_redirect (path_prefix (ws_cfg W) @ ''/auth/login'') 303)"

definition no_session :: "web_system \<Rightarrow> string \<Rightarrow> bool" where
  "no_session X c \<longleftrightarrow> session_inv (ws_sessions X) \<and> c \<in> set (ws_issued X) \<and> session_view (ws_sessions X) (ws_clock X) c = None"

lemma guarded_without_session:
  assumes "web_handle W rnd now s r m = (rsp, m')" "guarded_route W r" "fst (request_session r now m) = None"
  shows "rsp = to_login W"
  using assms
  by (cases "request_session r now m")
     (auto simp: web_handle_def web_routes_def Let_def guarded_route_def guard_def to_login_def split: route.splits)

lemma no_session_step:
  assumes step: "web_step W X r rsp Y" and no: "no_session X c"
  shows "no_session Y c" and "guarded_route W r \<Longrightarrow> cookie r session_cookie = Some c \<Longrightarrow> rsp = to_login W"
proof -
  from step obtain now rnd s m where st: "ws_clock X \<le> now" "wr_session rnd \<notin> set (ws_issued X)"
      "web_handle W rnd now s r (ws_sessions X) = (rsp, m)"
    and Y: "Y = \<lparr>ws_sessions = m, ws_issued = wr_session rnd # ws_issued X, ws_clock = now\<rparr>"
    by (auto elim: web_stepE)
  let ?m = "ws_sessions X"
  from no have inv: "session_inv ?m" and c: "c \<in> set (ws_issued X)" and gone: "session_view ?m (ws_clock X) c = None"
    by (simp_all add: no_session_def)
  have now: "session_view ?m now c = None" by (rule sessions.view_shrinks [OF inv st(1) gone])
  from st(3) have "session_inv m \<and> session_view m now c = None"
  proof (cases rule: web_handle_sessions)
    case same
    with inv now show ?thesis by simp
  next
    case (looked k)
    with sessions.take_inv [OF inv] sessions.take_out_absent [OF inv now] show ?thesis by simp
  next
    case (signed_in cl)
    have "wr_session rnd \<noteq> c" using st(2) c by blast
    with signed_in(2) sessions.put_inv [OF inv] sessions.put_absent [OF inv now order_refl] show ?thesis by simp
  next
    case (signed_out k)
    with sessions.remove_inv [OF inv] sessions.remove_absent [OF inv] now show ?thesis by simp
  qed
  with Y c show "no_session Y c" by (simp add: no_session_def)
  show "rsp = to_login W" if "guarded_route W r" "cookie r session_cookie = Some c"
    using guarded_without_session [OF st(3) that(1)] sessions.take_value [OF inv, of c now] now that(2)
    by (simp add: request_session_def)
qed

lemma no_session_runs:
  "web_runs W X tr Z \<Longrightarrow> no_session X c \<Longrightarrow> (r, rsp) \<in> set tr \<Longrightarrow> guarded_route W r \<Longrightarrow>
   cookie r session_cookie = Some c \<Longrightarrow> rsp = to_login W"
proof (induction rule: web_runs.induct)
  case (web_runs_more X r0 rsp0 Y tr Z)
  then show ?case using no_session_step [OF web_runs_more.hyps(1) web_runs_more.prems(1)] by auto
qed simp

text \<open>C13: Signing out ends a session for good. After the answer to a sign-out request that carried a session's id, whatever
  requests follow in whatever order and at whatever times, and whatever the job store holds, every request for a scan page
  with that id is answered by the redirect to the sign-in; clearing the browser's cookie plays no part in it.\<close>

theorem signed_out_stays_out:
  assumes "reachable_web W X" and "web_step W X r rsp Y"
    and "route_of (path_prefix (ws_cfg W)) (wq_method r) (wq_segments r) = R_Logout"
    and "cookie r session_cookie = Some c" and "c \<in> set (ws_issued X)"
    and "web_runs W Y tr Z" and "(r', rsp') \<in> set tr"
    and "guarded_route W r'" and "cookie r' session_cookie = Some c"
  shows "rsp' = to_login W"
proof -
  have inv: "session_inv (ws_sessions X)" using web_safe.reachable_inv [OF assms(1)] by (simp add: web_inv_def)
  from assms(2) obtain now rnd s m where "web_handle W rnd now s r (ws_sessions X) = (rsp, m)"
    and Y: "Y = \<lparr>ws_sessions = m, ws_issued = wr_session rnd # ws_issued X, ws_clock = now\<rparr>"
    by (auto elim: web_stepE)
  then have "m = session_drop c (ws_sessions X)"
    using assms(3,4) by (auto simp: web_handle_def web_routes_def Let_def handle_logout_def)
  with inv Y assms(5) sessions.remove_inv sessions.remove_absent have "no_session Y c" by (simp add: no_session_def)
  from no_session_runs [OF assms(6) this assms(7-9)] show ?thesis .
qed

section \<open>The session store refines an expiring map\<close>

text \<open>C14: The session store is the map of the sessions that have not expired. Reading a session gives the value of that map
  and does not change what the map is at any later time, although it may drop an expired entry on the way; a new session
  adds exactly itself, for eight hours, although it sweeps expired ones; dropping one removes exactly it.\<close>

theorem session_store_refines_expiring_map:
  assumes "session_inv m" and "now \<le> t"
  shows "fst (session_get k now m) = session_view m now k \<and>
    session_view (snd (session_get k now m)) t = session_view m t \<and>
    session_view (snd (session_create k v now m)) t =
      (session_view m t)(k := (if t < now + session_ttl then Some (v\<lparr>sess_expires := now + session_ttl\<rparr>) else None)) \<and>
    session_view (session_drop k m) t = (session_view m t)(k := None) \<and>
    session_inv (snd (session_get k now m)) \<and> session_inv (snd (session_create k v now m)) \<and> session_inv (session_drop k m)"
  using assms
  by (simp add: sessions.take_value sessions.take_view sessions.put_view sessions.remove_view sessions.take_inv
        sessions.put_inv sessions.remove_inv)

theorem session_store_refines_expiring_map_witness:
  "session_view (snd (session_create ''B'' \<lparr>sess_identities = [], sess_name = [], sess_expires = 0\<rparr> 7
      [(''A'', \<lparr>sess_identities = [], sess_name = [], sess_expires = 5\<rparr>)])) 9 =
   [''B'' \<mapsto> \<lparr>sess_identities = [], sess_name = [], sess_expires = 7 + session_ttl\<rparr>]"
proof -
  let ?m = "[(''A'', \<lparr>sess_identities = [], sess_name = [], sess_expires = 5\<rparr>)] :: session_map"
  have "session_view ?m 9 = Map.empty" by (auto simp: session_view_def)
  with session_store_refines_expiring_map [of ?m 7 9 "''B''" "\<lparr>sess_identities = [], sess_name = [], sess_expires = 0\<rparr>"]
  show ?thesis by (simp add: session_inv_def session_ttl_def)
qed

section \<open>An example\<close>

definition ex_web :: web_server where
  "ex_web = \<lparr>ws_cfg = ex_config,
     ws_env = \<lparr>we_tmpl = (\<lambda>_. True), we_time_text = (\<lambda>_. []), we_open = (\<lambda>p. if p = ex_dir @ ''/f'' then Some ''%PDF-'' else None)\<rparr>,
     ws_idp = \<lparr>ip_auth_url = (\<lambda>_ _ _. []), ip_exchange = (\<lambda>_ code _. Some (Some code)),
       ip_verify = (\<lambda>_ _. Some (''n'', Some \<lparr>cl_email = ''a@x.org'', cl_preferred_username = ''a@x.org'', cl_name = ''Ann''\<rparr>))\<rparr>,
     ws_low = (\<lambda>r. r)\<rparr>"

definition ex_random :: "string \<Rightarrow> web_random" where
  "ex_random sid = \<lparr>wr_state = ''s'', wr_nonce = ''n'', wr_verifier = ''v'', wr_session = sid\<rparr>"

definition ex_request :: "string \<Rightarrow> string list \<Rightarrow> web_request" where
  "ex_request meth segs = \<lparr>wq_method = meth, wq_segments = segs, wq_query = [], wq_cookies = [(session_cookie, ''SID'')]\<rparr>"

definition ex_callback :: web_request where
  "ex_callback = \<lparr>wq_method = ''GET'', wq_segments = [''auth'', ''callback''],
     wq_query = [(''state'', ''s''), (''code'', ''c'')], wq_cookies = [(auth_cookie, ''s|n|v'')]\<rparr>"

definition ex_signed_in :: web_system where
  "ex_signed_in = \<lparr>ws_sessions = [(''SID'', \<lparr>sess_identities = [''a@x.org''], sess_name = ''Ann'', sess_expires = session_ttl\<rparr>)],
     ws_issued = [''SID''], ws_clock = 0\<rparr>"

lemma ex_routes:
  "route_of [] ''GET'' [''auth'', ''callback''] = R_Callback" "route_of [] ''POST'' [''auth'', ''logout''] = R_Logout"
  "route_of [] ''GET'' [''scan'', ''J'', ''D''] = R_Download ''J'' ''D''"
  by code_simp+

lemma ex_signed_in_reachable: "reachable_web ex_web ex_signed_in"
proof -
  let ?X = "\<lparr>ws_sessions = [], ws_issued = [], ws_clock = 0\<rparr>"
  have "split_on (CHR 0x7C) ''s|n|v'' = [''s'', ''n'', ''v'']" by code_simp
  then have "callback_claims (ws_idp ex_web) 0 ex_callback = Some \<lparr>cl_email = ''a@x.org'', cl_preferred_username = ''a@x.org'', cl_name = ''Ann''\<rparr>"
    by (simp add: callback_claims_def ex_callback_def ex_web_def cookie_def query_get_def lookup_def)
  then have "snd (web_handle ex_web (ex_random ''SID'') 0 s ex_callback []) = ws_sessions ex_signed_in" for s
    by (simp add: web_handle_def web_routes_def ex_callback_def ex_routes ex_config_def ex_web_def handle_callback_def Let_def
          session_create_def identities_of_def ex_normalize ex_random_def ex_signed_in_def)
  then have "web_step ex_web ?X ex_callback (fst (web_handle ex_web (ex_random ''SID'') 0 s ex_callback [])) ex_signed_in" for s
    using web_serve [of ?X 0 "ex_random ''SID''" ex_web s ex_callback] by (simp add: ex_signed_in_def ex_random_def prod_eq_iff)
  then have "web_next ex_web ?X ex_signed_in" unfolding web_next_def by blast
  moreover have "reachable_web ex_web ?X" by (rule reach_init) (simp add: web_init_def)
  ultimately show ?thesis by (blast intro: reach_step)
qed

definition ex_ready :: store_system where
  "ex_ready = (ex_committed [ex_dir @ ''/f''])\<lparr>sys_store := (sys_store (ex_committed [ex_dir @ ''/f'']))\<lparr>used := 20,
     jobs := [(''J'', \<lparr>rec_job = ex_committed_job\<lparr>status := StatusReady, expires_at := 107\<rparr>, rec_dir = ex_dir,
                      rec_bytes = 20, rec_files = [ex_dir @ ''/f'']\<rparr>)]\<rparr>\<rparr>"

lemma ex_ready_reachable: "reachable_store ex_ready"
proof -
  let ?S = "ex_committed [ex_dir @ ''/f'']"
  have "set_status ''J'' StatusReady [] 7 (sys_store ?S) = (Inr (), sys_store ex_ready, [])"
    by (simp add: set_status_def update_job_def charge_def ex_committed_def ex_committed_job_def ex_store_def
          make_room_locked_def held_bytes_def doc_bytes_def ex_clean ex_ready_def)
  from step_set_status [OF this] have "sys_step ?S [] (?S\<lparr>sys_store := sys_store ex_ready\<rparr>)"
    by (auto simp: ex_committed_def ex_committed_job_def forward_def)
  from reachable_store_step [OF ex_committed_reachable(1) this] show ?thesis by (simp add: ex_ready_def)
qed

lemma ex_session: "request_session (ex_request meth segs) 50 (ws_sessions ex_signed_in) =
    (Some \<lparr>sess_identities = [''a@x.org''], sess_name = ''Ann'', sess_expires = session_ttl\<rparr>, ws_sessions ex_signed_in)"
  by (simp add: request_session_def ex_request_def cookie_def ex_signed_in_def session_get_def session_ttl_def)

lemma ex_job_seen:
  "web_job \<lparr>sess_identities = [''a@x.org''], sess_name = ''Ann'', sess_expires = session_ttl\<rparr> ''J'' 50 (sys_store ex_ready) =
     Some (ex_committed_job\<lparr>status := StatusReady, expires_at := 107\<rparr>)"
  by (simp add: web_job_def get_def ex_ready_def ex_committed_job_def live_def)

lemma ex_download:
  "wp_body (fst (web_handle ex_web (ex_random ''T'') 50 (sys_store ex_ready) (ex_request ''GET'' [''scan'', ''J'', ''D'']) (ws_sessions ex_signed_in))) =
     File_Bytes ''%PDF-''"
proof -
  have "web_routes ex_web (ex_random ''T'') 50 (sys_store ex_ready) (ex_request ''GET'' [''scan'', ''J'', ''D'']) (ws_sessions ex_signed_in) =
    guard ex_config (handle_download (ws_env ex_web) ex_config 50 (sys_store ex_ready) ''J'' ''D'') 50
      (ex_request ''GET'' [''scan'', ''J'', ''D'']) (ws_sessions ex_signed_in)"
    by (simp add: web_routes_def Let_def ex_web_def ex_config_def ex_request_def ex_routes)
  then show ?thesis
    by (simp add: web_handle_def guard_def ex_session handle_download_def ex_job_seen)
       (simp add: ex_committed_job_def in_progress_def ex_web_def)
qed


text \<open>To a stranger's session, the store with the example job is the empty one.\<close>

theorem web_hides_other_scans_witness:
  "web_handle ex_web (ex_random ''V'') 50 (sys_store ex_ready) \<lparr>wq_method = ''GET'', wq_segments = [''scan'', ''J''], wq_query = [], wq_cookies = [(session_cookie, ''X'')]\<rparr>
       [(''X'', \<lparr>sess_identities = [''b@x.org''], sess_name = ''Bob'', sess_expires = 100\<rparr>)] =
   web_handle ex_web (ex_random ''V'') 50 ex_store \<lparr>wq_method = ''GET'', wq_segments = [''scan'', ''J''], wq_query = [], wq_cookies = [(session_cookie, ''X'')]\<rparr>
       [(''X'', \<lparr>sess_identities = [''b@x.org''], sess_name = ''Bob'', sess_expires = 100\<rparr>)]"
proof -
  have "reachable_store \<lparr>sys_store = ex_store, sys_stagings = [], sys_pending = []\<rparr>" by (rule reach_init) (rule ex_init)
  from web_hides_other_scans [OF ex_ready_reachable this] show ?thesis
    by (simp add: seen_jobs_def request_session_def cookie_def session_get_def ex_ready_def ex_committed_job_def ex_store_def)
qed

theorem signed_out_stays_out_witness:
  "wp_status (fst (web_handle ex_web (ex_random ''V'') 9 ex_store (ex_request ''GET'' [''scan'', ''J'', ''D'']) [])) = 303"
proof -
  let ?out = "ex_request ''POST'' [''auth'', ''logout'']" and ?in = "ex_request ''GET'' [''scan'', ''J'', ''D'']"
  let ?Y = "\<lparr>ws_sessions = [], ws_issued = [''U'', ''SID''], ws_clock = 5\<rparr>"
  let ?rsp = "fst (web_handle ex_web (ex_random ''V'') 9 ex_store ?in [])"
  have "snd (web_handle ex_web (ex_random ''U'') 5 ex_store ?out (ws_sessions ex_signed_in)) = []"
    by (simp add: web_handle_def web_routes_def Let_def ex_web_def ex_config_def ex_request_def ex_routes handle_logout_def
          cookie_def session_drop_def ex_signed_in_def)
  then have out: "web_step ex_web ex_signed_in ?out (fst (web_handle ex_web (ex_random ''U'') 5 ex_store ?out (ws_sessions ex_signed_in))) ?Y"
    using web_serve [of ex_signed_in 5 "ex_random ''U''" ex_web ex_store ?out] by (simp add: ex_signed_in_def ex_random_def prod_eq_iff)
  have "snd (web_handle ex_web (ex_random ''V'') 9 ex_store ?in []) = []"
    by (simp add: web_handle_def web_routes_def Let_def ex_web_def ex_config_def ex_request_def ex_routes guard_def
          request_session_def cookie_def session_get_def)
  then have "web_step ex_web ?Y ?in ?rsp \<lparr>ws_sessions = [], ws_issued = ''V'' # ws_issued ?Y, ws_clock = 9\<rparr>"
    using web_serve [of ?Y 9 "ex_random ''V''" ex_web ex_store ?in] by (simp add: ex_random_def prod_eq_iff)
  from web_runs_more [OF this web_runs_none] have runs: "web_runs ex_web ?Y [(?in, ?rsp)] \<lparr>ws_sessions = [], ws_issued = ''V'' # ws_issued ?Y, ws_clock = 9\<rparr>" .
  have "?rsp = to_login ex_web"
    by (rule signed_out_stays_out [OF ex_signed_in_reachable out _ _ _ runs, of "''SID''" ?in])
       (simp_all add: ex_web_def ex_config_def ex_request_def ex_routes cookie_def ex_signed_in_def guarded_route_def)
  then show ?thesis by (simp add: to_login_def http_redirect_def secure_headers_def)
qed

end
