(* ===== verification/Setup_Fields.thy ===== *)
theory Setup_Fields
  imports Config_Env
begin

text \<open>
  What the setup wizard asks for, \<open>internal/web/setupfields.go\<close>: the table of settings in the order of the form, and the
  settings whose presence means that there is something worth protecting.
\<close>

datatype field_kind = FieldText | FieldSecret | FieldBool | FieldChoice | FieldArea | FieldProfiles

record setup_field =
  sf_name :: string
  sf_label :: string
  sf_help :: string
  sf_kind :: field_kind
  sf_choice :: "string list"
  sf_group :: string
  sf_rare :: bool
  sf_placeholder :: string

definition group_identity :: string where
  "group_identity = ''Identity''"

definition setup_fields :: "setup_field list" where
  "setup_fields = [
     \<lparr>sf_name = ''S2G_GRAPH_SENDER'', sf_label = ''Sending mailbox'',
      sf_help =
       ''The mailbox scans are mailed from; setting it together with the allowlist below is what turns email '' @
       ''delivery on.'',
      sf_kind = FieldText, sf_choice = [], sf_group = ''Email delivery'', sf_rare = False,
      sf_placeholder = ''scanner@example.com''\<rparr>,
     \<lparr>sf_name = ''S2G_ALLOWED_RECIPIENT_DOMAINS'', sf_label = ''Allowed recipient domains'',
      sf_help =
       ''Comma-separated domains a scan may be mailed to, without a leading @ and matched exactly; email '' @
       ''delivery requires it, or the appliance would be an open relay.'',
      sf_kind = FieldText, sf_choice = [], sf_group = ''Email delivery'', sf_rare = False,
      sf_placeholder = ''example.com, example.org''\<rparr>,
     \<lparr>sf_name = ''S2G_PUBLIC_BASE_URL'', sf_label = ''Public URL'',
      sf_help =
       ''Where this appliance is reached through the reverse proxy that terminates TLS; setting it is what '' @
       ''turns the web UI on. A host of its own, or a subpath under a shared one '' @
       ''(https://nas.acme.office/scanner/) that the proxy forwards unchanged.'',
      sf_kind = FieldText, sf_choice = [], sf_group = ''Browser downloads'', sf_rare = False,
      sf_placeholder = ''https://scan2graph.example.com''\<rparr>,
     \<lparr>sf_name = ''S2G_UI_TITLE'', sf_label = ''Name shown in the UI'',
      sf_help =
       ''What the web UI calls itself in its title and header, so it can say the household's or the office's '' @
       ''name.'',
      sf_kind = FieldText, sf_choice = [], sf_group = ''Browser downloads'', sf_rare = True,
      sf_placeholder = ''scan2graph''\<rparr>,
     \<lparr>sf_name = ''S2G_JOB_TTL'', sf_label = ''How long a scan stays available'',
      sf_help =
       ''How long a scan can be downloaded before it and its files are deleted; must be at least 1m.'',
      sf_kind = FieldText, sf_choice = [], sf_group = ''Browser downloads'', sf_rare = True,
      sf_placeholder = ''8h''\<rparr>,
     \<lparr>sf_name = ''S2G_HTTP_ADDR'', sf_label = ''HTTP listen address'',
      sf_help =
       ''Address this process listens on for HTTP. In a container, this is internal; publish it through the '' @
       ''host or reverse proxy rather than using it as the public URL.'',
      sf_kind = FieldText, sf_choice = [], sf_group = ''Browser downloads'', sf_rare = True,
      sf_placeholder = '':8080''\<rparr>,
     \<lparr>sf_name = ''S2G_DI_ENDPOINT'', sf_label = ''Document Intelligence endpoint'',
      sf_help =
       ''The https URL of the Azure Document Intelligence resource that makes scans searchable; setting it '' @
       ''is what turns text recognition on.'',
      sf_kind = FieldText, sf_choice = [], sf_group = ''Text recognition'', sf_rare = False,
      sf_placeholder = ''https://example.cognitiveservices.azure.com''\<rparr>,
     \<lparr>sf_name = ''S2G_ENTRA_TENANT_ID'', sf_label = ''Directory (tenant) ID'',
      sf_help =
       ''The Directory (tenant) ID on the app registration's Overview page in the Azure portal.'',
      sf_kind = FieldText, sf_choice = [], sf_group = group_identity, sf_rare = False,
      sf_placeholder = ''00000000-0000-0000-0000-000000000000''\<rparr>,
     \<lparr>sf_name = ''S2G_ENTRA_CLIENT_ID'', sf_label = ''Application (client) ID'',
      sf_help =
       ''The Application (client) ID on that same Overview page.'',
      sf_kind = FieldText, sf_choice = [], sf_group = group_identity, sf_rare = False,
      sf_placeholder = ''00000000-0000-0000-0000-000000000000''\<rparr>,
     \<lparr>sf_name = ''S2G_ENTRA_CLIENT_SECRET'', sf_label = ''Client secret'',
      sf_help =
       ''The secret's Value (not its Secret ID) under Certificates & secrets in that app registration, which '' @
       ''the portal shows only once, right after you create it.'',
      sf_kind = FieldSecret, sf_choice = [], sf_group = group_identity, sf_rare = False,
      sf_placeholder = []\<rparr>,
     \<lparr>sf_name = ''S2G_SMTP_USERNAME'', sf_label = ''SMTP username'',
      sf_help =
       ''Username the printer signs in with; only means anything once a password is set.'',
      sf_kind = FieldText, sf_choice = [], sf_group = ''Scanner'', sf_rare = False,
      sf_placeholder = ''scanner''\<rparr>,
     \<lparr>sf_name = ''S2G_SMTP_PASSWORD'', sf_label = ''SMTP password'',
      sf_help =
       ''Password the printer signs in with. Use Generate SMTP password below to create or replace it, then '' @
       ''Save or Download to keep it across restarts. If left unset, a new one is made on every start.'',
      sf_kind = FieldSecret, sf_choice = [], sf_group = ''Scanner'', sf_rare = False,
      sf_placeholder = []\<rparr>,
     \<lparr>sf_name = ''S2G_SMTP_ALLOW_ANONYMOUS'', sf_label = ''Accept scans without SMTP AUTH'',
      sf_help =
       ''For a printer that cannot authenticate at all: only on a trusted, isolated network segment, and not '' @
       ''together with a username or password.'',
      sf_kind = FieldBool, sf_choice = [], sf_group = ''Scanner'', sf_rare = False,
      sf_placeholder = []\<rparr>,
     \<lparr>sf_name = ''S2G_SMTP_ADDR'', sf_label = ''SMTP listen address'',
      sf_help =
       ''Address this process listens on for SMTP. In a container, the printer connects to the appliance '' @
       ''host on the LAN and the port published to this address.'',
      sf_kind = FieldText, sf_choice = [], sf_group = ''Scanner'', sf_rare = True,
      sf_placeholder = '':2525''\<rparr>,
     \<lparr>sf_name = ''S2G_PROFILES'', sf_label = ''Printer profiles'',
      sf_help =
       ''One row per address the printer sends from, ticking what a scan from that address may do; with no '' @
       ''rows filled in there are no profiles at all, and then every sender is accepted and gets whatever '' @
       ''the rest of this configuration enables. Type into the blank rows to add profiles; two fresh ones '' @
       ''come back with every submission the appliance accepts.'',
      sf_kind = FieldProfiles, sf_choice = [], sf_group = ''Scanner'', sf_rare = True,
      sf_placeholder = []\<rparr>,
     \<lparr>sf_name = ''S2G_MAX_MESSAGE_BYTES'', sf_label = ''Largest accepted message'',
      sf_help =
       ''Biggest message the SMTP listener accepts, in bytes; the default is 32 MiB.'',
      sf_kind = FieldText, sf_choice = [], sf_group = ''Scanner'', sf_rare = True,
      sf_placeholder = ''33554432''\<rparr>,
     \<lparr>sf_name = ''S2G_LOG_LEVEL'', sf_label = ''Log level'',
      sf_help =
       ''How much scan2graph writes to its log; defaults to info.'',
      sf_kind = FieldChoice, sf_choice = [''debug'', ''info'', ''warn'', ''error''], sf_group = ''Advanced'', sf_rare = True,
      sf_placeholder = []\<rparr>,
     \<lparr>sf_name = ''S2G_LOG_FORMAT'', sf_label = ''Log format'',
      sf_help =
       ''json for a log collector, text for reading it yourself; defaults to json.'',
      sf_kind = FieldChoice, sf_choice = [''json'', ''text''], sf_group = ''Advanced'', sf_rare = True,
      sf_placeholder = []\<rparr>,
     \<lparr>sf_name = ''S2G_TEMP_DIR'', sf_label = ''Temporary directory'',
      sf_help =
       ''Where scans are kept while they are worked on; it is wiped on every start and defaults to the '' @
       ''operating system's temp directory.'',
      sf_kind = FieldText, sf_choice = [], sf_group = ''Advanced'', sf_rare = True,
      sf_placeholder = ''/tmp''\<rparr>,
     \<lparr>sf_name = ''S2G_MAX_STORED_BYTES'', sf_label = ''Space for kept scans'',
      sf_help =
       ''How much temporary space queued, in-flight and waiting-to-be-picked-up scans may take together, in '' @
       ''bytes; when it is full, finished scans are removed oldest first to make room.'',
      sf_kind = FieldText, sf_choice = [], sf_group = ''Advanced'', sf_rare = True,
      sf_placeholder = ''536870912''\<rparr>,
     \<lparr>sf_name = ''S2G_MAX_CONCURRENT_JOBS'', sf_label = ''Scans processed at once'',
      sf_help =
       ''How many scans are worked on at the same time.'',
      sf_kind = FieldText, sf_choice = [], sf_group = ''Advanced'', sf_rare = True,
      sf_placeholder = ''2''\<rparr>]"

definition group_intro :: "(string \<times> string) list" where
  "group_intro = [
     (''Email delivery'', ''Set both fields to mail scans.''),
     (''Browser downloads'', ''Set the public URL to let people pick scans up in a browser.''),
     (''Text recognition'', ''Optional: with a Document Intelligence resource, scans come out as PDFs you can search rather than '' @ ''pictures of paper.''),
     (group_identity, ''Required for every setup. One Entra app registration signs people in to browser downloads and '' @ ''supplies the tokens used for email and text recognition.''),
     (''Scanner'', ''Set how the printer authenticates. In a container, it connects to the appliance's published host '' @ ''and port on the LAN.'')]"

definition hand_edited :: "string list" where
  "hand_edited = [''S2G_ENTRA_AUTHORITY_URL'', ''S2G_ENTRA_TOKEN_URL'', ''S2G_GRAPH_BASE_URL'', ''S2G_GRAPH_SCOPE'', ''S2G_DI_API_VERSION'', ''S2G_DI_SCOPE'']"

definition protected_settings :: "string list" where
  "protected_settings = [''S2G_ENTRA_TENANT_ID'', ''S2G_ENTRA_CLIENT_ID'', ''S2G_ENTRA_CLIENT_SECRET'', ''S2G_SMTP_PASSWORD'']"

definition any_configured :: "(string \<Rightarrow> string) \<Rightarrow> bool" where
  "any_configured getenv = list_ex (\<lambda>n. getenv n \<noteq> [] \<or> getenv (n @ ''_FILE'') \<noteq> []) protected_settings"

text \<open>The names and kinds of the table, which is all the form logic looks at.\<close>

lemma setup_field_names: "map sf_name setup_fields =
  [''S2G_GRAPH_SENDER'',
   ''S2G_ALLOWED_RECIPIENT_DOMAINS'',
   ''S2G_PUBLIC_BASE_URL'',
   ''S2G_UI_TITLE'',
   ''S2G_JOB_TTL'',
   ''S2G_HTTP_ADDR'',
   ''S2G_DI_ENDPOINT'',
   ''S2G_ENTRA_TENANT_ID'',
   ''S2G_ENTRA_CLIENT_ID'',
   ''S2G_ENTRA_CLIENT_SECRET'',
   ''S2G_SMTP_USERNAME'',
   ''S2G_SMTP_PASSWORD'',
   ''S2G_SMTP_ALLOW_ANONYMOUS'',
   ''S2G_SMTP_ADDR'',
   ''S2G_PROFILES'',
   ''S2G_MAX_MESSAGE_BYTES'',
   ''S2G_LOG_LEVEL'',
   ''S2G_LOG_FORMAT'',
   ''S2G_TEMP_DIR'',
   ''S2G_MAX_STORED_BYTES'',
   ''S2G_MAX_CONCURRENT_JOBS'']"
  by (simp add: setup_fields_def)

end
