(* ===== verification/Setup_Form.thy ===== *)
theory Setup_Form
  imports Setup_Fields Config_Load
begin

text \<open>
  The setup wizard's form, the functions of \<open>internal/web/setup.go\<close> without state: folding a submission into the
  settings a page shows, the profile editor, the file that is written, the errors under their boxes, and the page.
\<close>

section \<open>Submissions\<close>

type_synonym form = "(string \<times> string list) list"
type_synonym settings_map = "(string \<times> string) list"

definition form_all :: "form \<Rightarrow> string \<Rightarrow> string list" where
  "form_all form k = (case map_of form k of None \<Rightarrow> [] | Some vs \<Rightarrow> vs)"

definition form_get :: "form \<Rightarrow> string \<Rightarrow> string" where
  "form_get form k = (case form_all form k of [] \<Rightarrow> [] | v # _ \<Rightarrow> v)"

definition form_has :: "form \<Rightarrow> string \<Rightarrow> bool" where
  "form_has form k = (map_of form k \<noteq> None)"

definition clean_value :: "string \<Rightarrow> string" where
  "clean_value v =
     trim_space (concat (map (\<lambda>c. if c = CHR 0x0D then [] else if c = CHR 0x0A then '' '' else [c]) v))"

section \<open>The profile editor\<close>

definition prof_sender :: string where "prof_sender = ''profile-sender''"
definition prof_email :: string where "prof_email = ''profile-email''"
definition prof_web :: string where "prof_web = ''profile-web''"
definition prof_ocr :: string where "prof_ocr = ''profile-ocr''"

record setup_profile =
  sp_row :: nat
  sp_sender :: string
  sp_caps :: capabilities

fun number_rows :: "nat \<Rightarrow> string list \<Rightarrow> setup_profile list" where
  "number_rows i [] = []"
| "number_rows i (s # ss) = \<lparr>sp_row = i + 1, sp_sender = trim_space s, sp_caps = no_caps\<rparr> # number_rows (i + 1) ss"

fun tick :: "(capabilities \<Rightarrow> capabilities) \<Rightarrow> string list \<Rightarrow> setup_profile list \<Rightarrow> setup_profile list" where
  "tick on [] rows = rows"
| "tick on (v # vs) rows =
     (case atoi v of
        None \<Rightarrow> tick on vs rows
      | Some i \<Rightarrow>
          if 0 \<le> i \<and> i < int (length rows)
          then tick on vs (rows[nat i := (rows ! nat i)\<lparr>sp_caps := on (sp_caps (rows ! nat i))\<rparr>])
          else tick on vs rows)"

definition posted_profiles :: "form \<Rightarrow> setup_profile list" where
  "posted_profiles form =
     tick (\<lambda>c. c\<lparr>cap_ocr := True\<rparr>) (form_all form prof_ocr)
       (tick (\<lambda>c. c\<lparr>cap_web := True\<rparr>) (form_all form prof_web)
          (tick (\<lambda>c. c\<lparr>cap_email := True\<rparr>) (form_all form prof_email)
             (number_rows 0 (form_all form prof_sender))))"

datatype profile_error = RowWithoutAddress | AddressTwice string

fun fold_rows ::
  "setup_profile list \<Rightarrow> (string \<times> capabilities) list \<Rightarrow> profile_error option \<Rightarrow>
   (string \<times> capabilities) list \<times> profile_error option" where
  "fold_rows [] m err = (m, err)"
| "fold_rows (r # rows) m err =
     (if sp_sender r = [] then fold_rows rows m (if sp_caps r \<noteq> no_caps then Some RowWithoutAddress else err)
      else fold_rows rows (AList.update (sp_sender r) (sp_caps r) m)
             (if sp_sender r \<in> fst ` set m then Some (AddressTwice (sp_sender r)) else err))"

text \<open>\<open>json.Marshal\<close> of the map: the members sorted by their keys.\<close>

definition json_bool :: "bool \<Rightarrow> string" where
  "json_bool b = (if b then ''true'' else ''false'')"

definition json_field :: "string \<Rightarrow> string \<Rightarrow> string" where
  "json_field k v = json_string k @ '':'' @ v"

definition caps_json :: "capabilities \<Rightarrow> string" where
  "caps_json c =
     [CHR 0x7B] @ json_field ''email'' (json_bool (cap_email c)) @ '','' @ json_field ''web'' (json_bool (cap_web c)) @ '','' @
     json_field ''ocr'' (json_bool (cap_ocr c)) @ [CHR 0x7D]"

definition profiles_json :: "(string \<times> capabilities) list \<Rightarrow> string" where
  "profiles_json m =
     [CHR 0x7B] @ join_with '','' (map (\<lambda>(k, c). json_field k (caps_json c)) (sort_key fst m)) @ [CHR 0x7D]"

definition fold_profiles :: "setup_profile list \<Rightarrow> string \<times> profile_error option" where
  "fold_profiles rows =
     (case fold_rows rows [] None of (m, err) \<Rightarrow> if m = [] then ([], err) else (profiles_json m, err))"

definition profile_rows :: "string \<Rightarrow> setup_profile list option" where
  "profile_rows v =
     (case parse_profiles (if v \<noteq> [] then v else [CHR 0x7B, CHR 0x7D]) of
        None \<Rightarrow> None
      | Some ps \<Rightarrow>
          let n = length ps in
          Some (map (\<lambda>(i, (s, c)). \<lparr>sp_row = i + 1, sp_sender = s, sp_caps = c\<rparr>) (zip [0..<n] (sort_key fst ps)) @
                [\<lparr>sp_row = n + 1, sp_sender = [], sp_caps = no_caps\<rparr>, \<lparr>sp_row = n + 2, sp_sender = [], sp_caps = no_caps\<rparr>]))"

section \<open>Folding a submission\<close>

definition file_name_of :: "string \<Rightarrow> string" where
  "file_name_of name = name @ ''_FILE''"

definition fold_field :: "form \<Rightarrow> setup_field \<Rightarrow> settings_map \<times> profile_error option \<Rightarrow> settings_map \<times> profile_error option" where
  "fold_field form f acc =
     (let (vals, err) = acc;
          (v, err1) = (if sf_kind f = FieldProfiles \<and> form_has form prof_sender
                       then fold_profiles (posted_profiles form)
                       else (clean_value (form_get form (sf_name f)), err))
      in (if v \<noteq> [] then AList.delete (file_name_of (sf_name f)) (AList.update (sf_name f) v vals)
          else if sf_kind f = FieldSecret \<or> lookup vals (file_name_of (sf_name f)) \<noteq> [] then vals
          else AList.delete (file_name_of (sf_name f)) (AList.delete (sf_name f) vals), err1))"

definition fold_form :: "form \<Rightarrow> settings_map \<Rightarrow> settings_map \<times> profile_error option" where
  "fold_form form base = fold (fold_field form) setup_fields (base, None)"

section \<open>The file\<close>

definition has_quote_pair :: "string \<Rightarrow> bool" where
  "has_quote_pair v = (2 \<le> length v \<and> quote_mark (hd v) \<and> last v = hd v)"

definition quote_value :: "string \<Rightarrow> string" where
  "quote_value v =
     (if v = trim_space v \<and> \<not> has_quote_pair v \<and> CHR ''#'' \<notin> set v then v else [CHR 0x27] @ v @ [CHR 0x27])"

definition redirect_uri :: "cfg_env \<Rightarrow> settings_map \<Rightarrow> string" where
  "redirect_uri E vals =
     (let base = resolve_base_url (E\<lparr>ce_getenv := layer vals (ce_getenv E)\<rparr>) ''S2G_PUBLIC_BASE_URL''
      in if base = [] then [] else base @ ''/auth/callback'')"

definition newline :: string where
  "newline = [CHR 0x0A]"

definition serialize :: "cfg_env \<Rightarrow> settings_map \<Rightarrow> string" where
  "serialize E vals =
     ''# scan2graph configuration, written by the setup wizard.'' @ newline @
     ''# Editing it by hand is fine; real environment variables still win.'' @ newline @
     (let uri = redirect_uri E vals in
      if uri \<noteq> [] then
        ''#'' @ newline @ ''# The Entra app registration needs this redirect URI, under'' @ newline @
        ''# Authentication as a Web platform, or signing in fails:'' @ newline @ ''#   '' @ uri @ newline
      else []) @
     (if resolve_value (E\<lparr>ce_getenv := layer vals (ce_getenv E)\<rparr>) ''S2G_GRAPH_SENDER'' \<noteq> [] then
        ''#'' @ newline @ ''# It also needs the Mail.Send application permission, with admin'' @ newline @
        ''# consent granted, or nothing can be mailed out - and Mail.ReadWrite'' @ newline @
        ''# beside it if a scan can be larger than 2.2 MB, which the default'' @ newline @
        ''# 32 MiB message limit leaves plenty of room for.'' @ newline
      else []) @
     newline @
     concat (map (\<lambda>n. n @ ''='' @ quote_value (lookup vals n) @ newline) (sort (map fst vals)))"

section \<open>Errors under their boxes\<close>

definition setting_char :: "char \<Rightarrow> bool" where
  "setting_char c = ((65 \<le> byte c \<and> byte c \<le> 90) \<or> (48 \<le> byte c \<and> byte c \<le> 57) \<or> c = CHR ''_'')"

definition leading_setting :: "string \<Rightarrow> string" where
  "leading_setting line = trim_suffix ''_FILE'' (takeWhile setting_char line)"

fun attribute_lines :: "string list \<Rightarrow> string list \<Rightarrow> (string \<times> string) list \<Rightarrow> string list \<times> (string \<times> string) list" where
  "attribute_lines [] general by_field = (general, by_field)"
| "attribute_lines (l # ls) general by_field =
     (if l = [] then attribute_lines ls general by_field
      else (let name = leading_setting l in
            if name \<in> set (map sf_name setup_fields) \<and> lookup by_field name = []
            then attribute_lines ls general (AList.update name l by_field)
            else attribute_lines ls (general @ [l]) by_field))"

definition attribute :: "string option \<Rightarrow> string list \<times> (string \<times> string) list" where
  "attribute err = (case err of None \<Rightarrow> ([], []) | Some msg \<Rightarrow> attribute_lines (split_on (CHR 0x0A) msg) [] [])"

section \<open>The page\<close>

text \<open>The walkthrough of the Identity card; the sentences are named, the worked-out value is kept.\<close>

datatype setup_step = Step_Register | Step_Redirect string | Step_No_Redirect | Step_Secret | Step_Permissions

definition entra_steps :: "cfg_env \<Rightarrow> settings_map \<Rightarrow> setup_step list" where
  "entra_steps E vals =
     [Step_Register] @
     (let uri = redirect_uri E vals in if uri \<noteq> [] then [Step_Redirect uri] else [Step_No_Redirect]) @
     [Step_Secret] @
     (if resolve_value (E\<lparr>ce_getenv := layer vals (ce_getenv E)\<rparr>) ''S2G_GRAPH_SENDER'' \<noteq> [] then [Step_Permissions] else [])"

record setup_input =
  si_field :: setup_field
  si_value :: string
  si_checked :: bool
  si_set :: bool
  si_error :: string
  si_profiles :: "setup_profile list"

record setup_group =
  sg_name :: string
  sg_intro :: string
  sg_fields :: "setup_input list"
  sg_rare :: "setup_input list"
  sg_steps :: "setup_step list"
  sg_open_rare :: bool

definition replace_first :: "string \<Rightarrow> string \<Rightarrow> string \<Rightarrow> string" where
  "replace_first old new s =
     (case filter (\<lambda>i. prefix old (drop i s)) [0..<Suc (length s)] of
        [] \<Rightarrow> s
      | i # _ \<Rightarrow> take i s @ new @ drop (i + length old) s)"

definition keep_hint :: string where
  "keep_hint = ''configured '' @ [CHR 0xE2, CHR 0x80, CHR 0x94] @ '' leave empty to keep''"

definition setup_input_of ::
  "settings_map \<Rightarrow> (string \<times> string) list \<Rightarrow> setup_profile list option \<Rightarrow> setup_field \<Rightarrow> setup_input" where
  "setup_input_of vals by_field posted f =
     (let v = lookup vals (sf_name f);
          is_set = (lookup vals (file_name_of (sf_name f)) \<noteq> [] \<or> (sf_kind f = FieldSecret \<and> v \<noteq> []));
          f1 = (if is_set then f\<lparr>sf_placeholder := keep_hint\<rparr> else f);
          inp = \<lparr>si_field = f1, si_value = v, si_checked = False, si_set = is_set,
                 si_error = replace_first (sf_name f) (sf_label f) (lookup by_field (sf_name f)), si_profiles = []\<rparr>
      in case sf_kind f of
           FieldSecret \<Rightarrow> inp\<lparr>si_value := []\<rparr>
         | FieldBool \<Rightarrow> inp\<lparr>si_checked := (parse_bool v = Some True)\<rparr>
         | FieldChoice \<Rightarrow>
             if v \<noteq> [] \<and> v \<notin> set (sf_choice f) then inp\<lparr>si_field := f1\<lparr>sf_choice := sf_choice f @ [v]\<rparr>\<rparr> else inp
         | FieldProfiles \<Rightarrow>
             (case posted of
                Some rows \<Rightarrow> inp\<lparr>si_profiles := rows\<rparr>
              | None \<Rightarrow> (case profile_rows v of
                           Some rows \<Rightarrow> inp\<lparr>si_profiles := rows\<rparr>
                         | None \<Rightarrow> inp\<lparr>si_field := f1\<lparr>sf_kind := FieldArea\<rparr>\<rparr>))
         | _ \<Rightarrow> inp)"

definition add_input :: "setup_step list \<Rightarrow> setup_field \<Rightarrow> setup_input \<Rightarrow> setup_group list \<Rightarrow> setup_group list" where
  "add_input steps f inp gs =
     (let gs1 = (if gs = [] \<or> sg_name (last gs) \<noteq> sf_group f
                 then gs @ [\<lparr>sg_name = sf_group f, sg_intro = lookup group_intro (sf_group f), sg_fields = [], sg_rare = [],
                             sg_steps = (if sf_group f = group_identity then steps else []), sg_open_rare = False\<rparr>]
                 else gs);
          g = last gs1;
          g1 = (if sf_rare f
                then g\<lparr>sg_rare := sg_rare g @ [inp], sg_open_rare := (sg_open_rare g \<or> si_error inp \<noteq> [])\<rparr>
                else g\<lparr>sg_fields := sg_fields g @ [inp]\<rparr>)
      in butlast gs1 @ [g1])"

definition view_groups ::
  "cfg_env \<Rightarrow> settings_map \<Rightarrow> (string \<times> string) list \<Rightarrow> setup_profile list option \<Rightarrow> setup_group list" where
  "view_groups E vals by_field posted =
     fold (\<lambda>f. add_input (entra_steps E vals) f (setup_input_of vals by_field posted f)) setup_fields []"

end
