(* ===== verification/Setup_Check.thy ===== *)
theory Setup_Check
  imports Msapi Config_Load
begin

text \<open>
  The wizard's connection test (\<open>internal/web/setupcheck.go\<close>): three questions asked with the credentials of the form, each
  answered by one line, from which the client secret is struck out before it is shown.
\<close>

section \<open>The questions\<close>

definition check_body_limit :: nat where "check_body_limit = 1024 * 1024"

record check_result =
  cr_name :: string
  cr_ok :: bool
  cr_skip :: string
  cr_err :: string

text \<open>
  What lies outside: the discovery of go-oidc (\<open>None\<close> is success), the client credentials grant of oauth2 (an error text
  or the header value it authorises with), the round trip of the client that follows no redirect, and \<open>url.Parse\<close>'s
  error text. Deadlines are part of the answers.
\<close>

record check_services =
  ck_discover :: "string \<Rightarrow> string option"
  ck_token :: "config \<Rightarrow> string \<Rightarrow> string + string"
  ck_send :: "request \<Rightarrow> string + response"
  ck_envelope :: "string \<Rightarrow> string option"
  ck_bad_url :: "string \<Rightarrow> string"

text \<open>\<open>capped\<close>: no body is read further than the limit.\<close>

definition capped :: "string + response \<Rightarrow> string + response" where
  "capped a = (case a of Inl e \<Rightarrow> Inl e | Inr r \<Rightarrow> Inr (r\<lparr>rs_body := take check_body_limit (rs_body r)\<rparr>))"

text \<open>Decoding into a struct whose one member is an array: the names match in any letter case, the last of several counts, and a
  member of another shape is an error. The answer is whether the array is there.\<close>

fun value_members :: "bool \<Rightarrow> (string \<times> jv) list \<Rightarrow> bool option" where
  "value_members found [] = Some found"
| "value_members found ((k, v) # kvs) =
     (if ascii_fold k \<noteq> ''value'' then value_members found kvs
      else (case v of
        JList _ \<Rightarrow> value_members True kvs
      | JNull \<Rightarrow> value_members False kvs
      | _ \<Rightarrow> None))"

definition lists_models :: "string \<Rightarrow> bool" where
  "lists_models body =
     (case json_decode body of
        Some (JMap kvs, _) \<Rightarrow> value_members False kvs = Some True
      | _ \<Rightarrow> False)"

definition models_url :: "config \<Rightarrow> string" where
  "models_url c = di_endpoint c @ ''/documentintelligence/documentModels?api-version='' @ query_escape (di_api_version c)"

definition check_docintel :: "check_services \<Rightarrow> config \<Rightarrow> string option" where
  "check_docintel K c =
     (case ck_token K c (di_scope c) of
        Inl e \<Rightarrow> Some e
      | Inr tok \<Rightarrow>
          (case new_request PlainClient ''GET'' (models_url c) [(''Authorization'', tok)] [] of
             None \<Rightarrow> Some (ck_bad_url K (models_url c))
           | Some rq \<Rightarrow>
               (case capped (ck_send K rq) of
                  Inl e \<Rightarrow> Some e
                | Inr r \<Rightarrow>
                    if 300 \<le> rs_status r then Some (envelope_message (ck_envelope K) r)
                    else if \<not> lists_models (rs_body r)
                    then Some ''the endpoint answered, but not with a document-model list''
                    else None)))"

section \<open>One line per answer\<close>

definition ellipsis :: string where "ellipsis = [CHR 0xE2, CHR 0x80, CHR 0xA6]"

definition redact :: "string \<Rightarrow> string \<Rightarrow> string" where
  "redact secret s = replace_all secret ''***'' (replace_all (query_escape secret) ''***'' s)"

definition one_line :: "string \<Rightarrow> string \<Rightarrow> string" where
  "one_line err secret =
     (let s = redact secret (join_with '' '' (str_fields err)) in
      if 200 < length s then to_valid_utf8 (take 200 s) @ ellipsis else s)"

definition check_one :: "string \<Rightarrow> string \<Rightarrow> string \<Rightarrow> string option \<Rightarrow> check_result" where
  "check_one name skip secret answer =
     (if skip \<noteq> [] then \<lparr>cr_name = name, cr_ok = False, cr_skip = skip, cr_err = []\<rparr>
      else (case answer of
              Some err \<Rightarrow> \<lparr>cr_name = name, cr_ok = False, cr_skip = [], cr_err = one_line err secret\<rparr>
            | None \<Rightarrow> \<lparr>cr_name = name, cr_ok = True, cr_skip = [], cr_err = []\<rparr>))"

definition token_error :: "check_services \<Rightarrow> config \<Rightarrow> string option" where
  "token_error K c = (case ck_token K c (graph_scope c) of Inl e \<Rightarrow> Some e | Inr _ \<Rightarrow> None)"

definition run_checks :: "check_services \<Rightarrow> config \<Rightarrow> check_result list" where
  "run_checks K c =
     (let skip_di = (if any_ocr c then [] else ''text recognition is off''); secret = client_secret c in
      [check_one ''Entra sign-in'' [] secret (ck_discover K (authority_url c)),
       check_one ''App-only token'' [] secret (token_error K c),
       check_one ''Document Intelligence'' skip_di secret (check_docintel K c)])"

end
