(* ===== verification/Setup_Wizard.thy ===== *)
theory Setup_Wizard
  imports Setup_Form Setup_Check Web_Session
begin

text \<open>
  The setup wizard of \<open>internal/web/setup.go\<close>: who holds it, what its pages remember, and the one handler that writes the
  configuration file. Each section under the wizard's mutex is one function on its state; \<open>submit\<close> takes the mutex twice,
  and \<open>env\<close> stands for what other requests did in between.
\<close>

section \<open>State\<close>

record pending_form =
  pf_id :: string
  pf_values :: settings_map
  pf_file :: nat

record wizard =
  wz_values :: settings_map
  wz_pending :: "pending_form list"
  wz_file :: nat
  wz_token :: "string option"

text \<open>
  The options, with what the library gives: the hash of a token, the text of a loader error, \<open>%q\<close>, and the loader's
  environment, through which \<open>Getenv\<close> is read. A path of \<open>[]\<close> offers the download only.
\<close>

record setup_options =
  so_env :: cfg_env
  so_path :: path
  so_on_saved :: bool
  so_hash :: "string \<Rightarrow> string"
  so_text :: "cfg_error \<Rightarrow> string"
  so_quote :: "string \<Rightarrow> string"

definition setup_cookie :: string where "setup_cookie = ''s2g_setup''"
definition setup_forms_kept :: nat where "setup_forms_kept = 4"

definition new_wizard :: "settings_map \<Rightarrow> string option \<Rightarrow> wizard" where
  "new_wizard vals hash = \<lparr>wz_values = vals, wz_pending = [], wz_file = 0, wz_token = hash\<rparr>"

definition layered :: "setup_options \<Rightarrow> settings_map \<Rightarrow> cfg_env" where
  "layered opts vals = (so_env opts)\<lparr>ce_getenv := layer vals (ce_getenv (so_env opts))\<rparr>"

definition setup_prefix :: "setup_options \<Rightarrow> settings_map \<Rightarrow> string" where
  "setup_prefix opts vals = base_path (resolve_base_url (layered opts vals) ''S2G_PUBLIC_BASE_URL'')"

section \<open>The key to the wizard\<close>

definition token_ok :: "(string \<Rightarrow> string) \<Rightarrow> string \<Rightarrow> string option \<Rightarrow> bool" where
  "token_ok hash token stored = (token \<noteq> [] \<and> stored = Some (hash token))"

definition holder :: "setup_options \<Rightarrow> web_request \<Rightarrow> wizard \<Rightarrow> bool" where
  "holder opts r wz =
     (case wz_token wz of
        None \<Rightarrow> False
      | Some _ \<Rightarrow> (case cookie r setup_cookie of None \<Rightarrow> False | Some c \<Rightarrow> token_ok (so_hash opts) c (wz_token wz)))"

datatype setup_answer =
    Setup_Not_Found
  | Setup_Redirect string "set_cookie option"
  | Setup_Claim
  | Setup_Page string "setup_group list" "string list" "check_result list" string
  | Setup_Saved path "setup_step list" bool string
  | Setup_Download string
  | Setup_Bad_Request
  | Setup_Static
  | Setup_Mux

text \<open>\<open>setTokenCookie\<close>: not \<open>Secure\<close>, and for the wizard's own path only.\<close>

definition token_cookie :: "string \<Rightarrow> string \<Rightarrow> set_cookie" where
  "token_cookie base token = \<lparr>ck_name = setup_cookie, ck_value = token, ck_path = or_root base, ck_max_age = 0,
     ck_http_only = True, ck_secure = False, ck_lax = True\<rparr>"

definition start :: "setup_options \<Rightarrow> string \<Rightarrow> string \<Rightarrow> wizard \<Rightarrow> setup_answer \<times> wizard" where
  "start opts base token wz =
     (if wz_token wz \<noteq> None then (Setup_Not_Found, wz)
      else (Setup_Redirect (base @ ''/setup'') (Some (token_cookie base token)),
            wz\<lparr>wz_token := Some (so_hash opts token)\<rparr>))"

text \<open>\<open>authenticate\<close>: the answer it gives itself, or none when the request goes on to the mux.\<close>

definition admit :: "setup_options \<Rightarrow> string \<Rightarrow> web_request \<Rightarrow> wizard \<Rightarrow> setup_answer option" where
  "admit opts base r wz =
     (let token = query_get r ''t'' in
      if token_ok (so_hash opts) token (wz_token wz)
      then Some (Setup_Redirect (base @ ''/setup'') (Some (token_cookie base token)))
      else if wz_token wz \<noteq> None \<and> \<not> holder opts r wz then Some Setup_Not_Found
      else None)"

section \<open>What a page remembers\<close>

definition setup_base :: "string \<Rightarrow> wizard \<Rightarrow> settings_map \<times> nat" where
  "setup_base ident wz =
     (case find (\<lambda>p. pf_id p = ident) (wz_pending wz) of
        Some p \<Rightarrow> if pf_file p = wz_file wz then (pf_values p, wz_file wz) else (wz_values wz, wz_file wz)
      | None \<Rightarrow> (wz_values wz, wz_file wz))"

definition setup_values :: "form option \<Rightarrow> wizard \<Rightarrow> settings_map \<times> nat \<times> profile_error option" where
  "setup_values form wz =
     (case form of
        None \<Rightarrow> (case setup_base [] wz of (vals, gen) \<Rightarrow> (vals, gen, None))
      | Some f \<Rightarrow>
          (case setup_base (form_get f ''form'') wz of
             (base, gen) \<Rightarrow> (case fold_form f base of (vals, err) \<Rightarrow> (vals, gen, err))))"

definition remember :: "string \<Rightarrow> settings_map \<Rightarrow> nat \<Rightarrow> wizard \<Rightarrow> wizard" where
  "remember ident vals gen wz =
     (let ps = wz_pending wz @ [\<lparr>pf_id = ident, pf_values = vals, pf_file = gen\<rparr>]
      in wz\<lparr>wz_pending := drop (length ps - setup_forms_kept) ps\<rparr>)"

section \<open>Writing the file\<close>

text \<open>
  \<open>writeFile\<close> on a disk: the states it goes through, in order, and whether it succeeded. A fault says which call of the
  operating system fails; a write may leave a part of the data. The last state is the one after the deferred removal.
\<close>

type_synonym files_on_disk = "path \<rightharpoonup> string"

datatype write_fault =
    No_Fault | Create_Fails | Write_Fails string | Chmod_Fails | Sync_Fails | Close_Fails | Rename_Fails

definition write_file :: "write_fault \<Rightarrow> path \<Rightarrow> path \<Rightarrow> string \<Rightarrow> files_on_disk \<Rightarrow> files_on_disk list \<times> bool" where
  "write_file fault tmp path content d =
     (let made = d(tmp \<mapsto> []); full = d(tmp \<mapsto> content); cleaned = d(tmp := None) in
      case fault of
        Create_Fails \<Rightarrow> ([], False)
      | Write_Fails part \<Rightarrow> ([made, d(tmp \<mapsto> part), cleaned], False)
      | No_Fault \<Rightarrow> ([made, full, cleaned(path \<mapsto> content)], True)
      | _ \<Rightarrow> ([made, full, cleaned], False))"

definition setup_save :: "setup_options \<Rightarrow> write_fault \<Rightarrow> path \<Rightarrow> settings_map \<Rightarrow> wizard \<Rightarrow> files_on_disk \<Rightarrow> bool \<times> wizard \<times> files_on_disk list" where
  "setup_save opts fault tmp vals wz d =
     (case write_file fault tmp (so_path opts) (serialize (so_env opts) vals) d of
        (ds, ok) \<Rightarrow>
          if \<not> ok then (False, wz, ds)
          else (True, wz\<lparr>wz_values := vals, wz_pending := [], wz_file := wz_file wz + 1\<rparr>, ds))"

section \<open>A submission\<close>

definition profile_error_text :: "setup_options \<Rightarrow> profile_error \<Rightarrow> string" where
  "profile_error_text opts e =
     (case e of
        RowWithoutAddress \<Rightarrow> ''S2G_PROFILES: a profile needs the address the printer sends from, and one row has only its features ticked''
      | AddressTwice s \<Rightarrow> ''S2G_PROFILES: '' @ so_quote opts s @ '' is on two rows, so one printer address has two answers'')"

record submission =
  sb_values :: settings_map
  sb_file :: nat
  sb_fold_error :: "profile_error option"
  sb_error :: "string option"
  sb_config :: "config option"
  sb_generated :: string

definition join_errors :: "string option \<Rightarrow> string option \<Rightarrow> string option" where
  "join_errors a b =
     (case (a, b) of
        (None, _) \<Rightarrow> b
      | (_, None) \<Rightarrow> a
      | (Some x, Some y) \<Rightarrow> Some (x @ newline @ y))"

text \<open>The part of \<open>submit\<close> up to the errors; \<open>fresh\<close> is the random text a generated password would be.\<close>

definition submit_read :: "setup_options \<Rightarrow> string \<Rightarrow> form \<Rightarrow> wizard \<Rightarrow> submission" where
  "submit_read opts fresh form wz =
     (case setup_values (Some form) wz of
        (vals, gen, ferr) \<Rightarrow>
          let ferr_text = map_option (profile_error_text opts) ferr;
              genv = ce_getenv (so_env opts) in
          if form_get form ''action'' = ''generate-smtp-password'' then
            (if genv ''S2G_SMTP_PASSWORD'' \<noteq> [] \<or> genv ''S2G_SMTP_PASSWORD_FILE'' \<noteq> []
             then \<lparr>sb_values = vals, sb_file = gen, sb_fold_error = ferr,
                   sb_error = join_errors ferr_text (Some (''S2G_SMTP_PASSWORD: cannot generate while S2G_SMTP_PASSWORD or '' @
                     ''S2G_SMTP_PASSWORD_FILE is set in the environment; remove the override first'')),
                   sb_config = None, sb_generated = []\<rparr>
             else if parse_bool (resolve_value (layered opts vals) ''S2G_SMTP_ALLOW_ANONYMOUS'') = Some True
             then \<lparr>sb_values = vals, sb_file = gen, sb_fold_error = ferr,
                   sb_error = join_errors ferr_text
                     (Some ''S2G_SMTP_ALLOW_ANONYMOUS: turn off anonymous SMTP before generating a password''),
                   sb_config = None, sb_generated = []\<rparr>
             else \<lparr>sb_values = AList.delete ''S2G_SMTP_PASSWORD_FILE'' (AList.update ''S2G_SMTP_PASSWORD'' fresh vals),
                   sb_file = gen, sb_fold_error = ferr, sb_error = ferr_text, sb_config = None, sb_generated = fresh\<rparr>)
          else
            (case load (layered opts vals) of
               Inl es \<Rightarrow> \<lparr>sb_values = vals, sb_file = gen, sb_fold_error = ferr,
                          sb_error = join_errors ferr_text (Some (join_with newline (map (so_text opts) es))),
                          sb_config = None, sb_generated = []\<rparr>
             | Inr cfg \<Rightarrow> \<lparr>sb_values = vals, sb_file = gen, sb_fold_error = ferr, sb_error = ferr_text,
                           sb_config = Some cfg, sb_generated = []\<rparr>))"

text \<open>Whether a submission goes past the errors, and past them to the file.\<close>

definition accepted :: "form \<Rightarrow> submission \<Rightarrow> bool" where
  "accepted form sb =
     (form_get form ''action'' \<noteq> ''generate-smtp-password'' \<and> attribute (sb_error sb) = ([], []))"

definition saves :: "setup_options \<Rightarrow> form \<Rightarrow> submission \<Rightarrow> bool" where
  "saves opts form sb =
     (accepted form sb \<and> form_get form ''action'' \<noteq> ''test'' \<and> form_get form ''action'' \<noteq> ''download'' \<and> so_path opts \<noteq> [])"

text \<open>The page a submission that was not saved gets, and what it leaves behind.\<close>

definition hand_back ::
  "setup_options \<Rightarrow> string \<Rightarrow> form \<Rightarrow> submission \<Rightarrow> check_result list \<Rightarrow> string list \<times> (string \<times> string) list \<Rightarrow> wizard \<Rightarrow>
   setup_answer \<times> wizard" where
  "hand_back opts ident form sb checks errs wz =
     (let posted = (if sb_fold_error sb \<noteq> None then Some (posted_profiles form) else None)
      in (Setup_Page ident (view_groups (so_env opts) (sb_values sb) (snd errs) posted) (fst errs) checks (sb_generated sb),
          remember ident (sb_values sb) (sb_file sb) wz))"

definition submit ::
  "setup_options \<Rightarrow> string \<Rightarrow> string \<Rightarrow> (config \<Rightarrow> check_result list) \<Rightarrow> write_fault \<Rightarrow> path \<Rightarrow> (wizard \<Rightarrow> wizard) \<Rightarrow>
   web_request \<Rightarrow> form option \<Rightarrow> wizard \<Rightarrow> files_on_disk \<Rightarrow> setup_answer \<times> wizard \<times> files_on_disk list" where
  "submit opts fresh ident checks fault tmp env r form wz d =
     (if \<not> holder opts r wz then (Setup_Not_Found, wz, [])
      else (case form of
        None \<Rightarrow> (Setup_Bad_Request, wz, [])
      | Some f \<Rightarrow>
          let sb = submit_read opts fresh f wz; wz1 = env wz; errs = attribute (sb_error sb) in
          if accepted f sb \<and> form_get f ''action'' = ''test'' then
            (case hand_back opts ident f sb (case sb_config sb of None \<Rightarrow> [] | Some c \<Rightarrow> checks c) errs wz1 of
               (a, wz2) \<Rightarrow> (a, wz2, []))
          else if accepted f sb \<and> \<not> saves opts f sb then (Setup_Download (serialize (so_env opts) (sb_values sb)), wz1, [])
          else if saves opts f sb then
            (case setup_save opts fault tmp (sb_values sb) wz1 d of
               (ok, wz2, ds) \<Rightarrow>
                 if ok then (Setup_Saved (so_path opts) (entra_steps (so_env opts) (sb_values sb)) (so_on_saved opts)
                               (case sb_config sb of None \<Rightarrow> [] | Some c \<Rightarrow> public_base_url c), wz2, ds)
                 else (case hand_back opts ident f sb [] ([''Writing '' @ so_path opts @ '' failed''], []) wz2 of
                         (a, wz3) \<Rightarrow> (a, wz3, ds)))
          else (case hand_back opts ident f sb [] errs wz1 of (a, wz2) \<Rightarrow> (a, wz2, []))))"

end
