(* ===== verification/Go_Json_Properties.thy ===== *)
theory Go_Json_Properties
  imports Go_Json
begin

text \<open>
  What \<open>encoding/json\<close> writes it reads back: for a string of valid UTF-8, the decoder's unquoting inverts the encoder's
  quoting, whatever follows; and what is written never contains a line break.
\<close>

section \<open>No line breaks\<close>

lemma lower_hex_facts:
  assumes "n < 16"
  shows "hex_value (lower_hex n) = Some n" "32 \<le> byte (lower_hex n)"
  using assms by (auto simp: lower_hex_def hex_value_def Let_def not_less)

lemma json_u_printable: "list_all (\<lambda>c. 32 \<le> byte c) (json_u r)"
  by (simp add: json_u_def lower_hex_facts backslash_def)

lemma json_byte_printable: "list_all (\<lambda>c. 32 \<le> byte c) (json_byte c)"
  using json_u_printable by (auto simp: json_byte_def backslash_def quote_char_def not_less)

lemma json_chars_printable: "list_all (\<lambda>c. 32 \<le> byte c) (json_chars s)"
proof (induction s rule: json_chars.induct)
  case (2 c cs)
  show ?case
  proof (cases "byte c < 128")
    case True
    with 2 json_byte_printable [of c] show ?thesis by simp
  next
    case False
    obtain r w where d: "decode_rune (c # cs) = (r, w)" by (cases "decode_rune (c # cs)")
    have "32 \<le> byte x" if "x \<in> set (take w (c # cs))" for x
    proof (cases "2 \<le> w")
      case True
      with decode_rune_tail_ge [OF d] that show ?thesis by force
    next
      case False
      then have "w = 0 \<or> w = 1" by linarith
      with that have "x = c" by auto
      with \<open>\<not> byte c < 128\<close> show ?thesis by simp
    qed
    moreover have "list_all (\<lambda>c. 32 \<le> byte c) (json_chars (drop (w - 1) cs))" using 2(2) [OF False d [symmetric]] by simp
    ultimately show ?thesis using False d json_u_printable by (auto simp: list_all_iff simp del: decode_rune.simps)
  qed
qed simp

lemma json_string_printable: "list_all (\<lambda>c. 32 \<le> byte c) (json_string s)"
  using json_chars_printable by (simp add: json_string_def quote_char_def)

section \<open>Reading what was written\<close>

lemma hex4_json_u: "r < 65536 \<Longrightarrow> json_u r = backslash # CHR ''u'' # h \<Longrightarrow> hex4 (h @ rest) = Some (r, rest)"
proof -
  assume r: "r < 65536" and h: "json_u r = backslash # CHR ''u'' # h"
  then have "h = [lower_hex (r div 4096 mod 16), lower_hex (r div 256 mod 16), lower_hex (r div 16 mod 16), lower_hex (r mod 16)]"
    by (simp add: json_u_def)
  moreover have "r div 4096 mod 16 = r div 4096" using r by (simp add: less_mult_imp_div_less)
  moreover have "r div 4096 * 4096 + r div 256 mod 16 * 256 + r div 16 mod 16 * 16 + r mod 16 = r"
  proof -
    have "r div 256 = r div 4096 * 16 + r div 256 mod 16" by (simp add: div_mult2_eq [of r 256 16, simplified] )
    moreover have "r div 16 = r div 256 * 16 + r div 16 mod 16" by (simp add: div_mult2_eq [of r 16 16, simplified])
    moreover have "r = r div 16 * 16 + r mod 16" by simp
    ultimately show ?thesis by linarith
  qed
  moreover have "r div 4096 < 16" using r by (simp add: less_mult_imp_div_less)
  ultimately show ?thesis by (simp add: lower_hex_facts)
qed

lemma unquote_u:
  assumes "r < 55296 \<or> 57344 \<le> r" "r < 65536"
  shows "json_unquote (json_u r @ rest) = map_option (\<lambda>(v, q). (encode_rune r @ v, q)) (json_unquote rest)"
proof -
  obtain h where h: "json_u r = backslash # CHR ''u'' # h" by (simp add: json_u_def)
  have x: "hex4 (h @ rest) = Some (r, rest)" using assms(2) h by (rule hex4_json_u)
  have "join_surrogates r rest = (r, rest)" using assms(1) by (auto simp: join_surrogates_def)
  then show ?thesis unfolding h by (subst json_unquote.simps) (simp add: x backslash_def quote_char_def)
qed

lemma encode_ascii: "byte c < 128 \<Longrightarrow> encode_rune (byte c) = [c]"
  by (simp add: encode_rune_def valid_rune_def)

lemma unquote_escape:
  "e \<noteq> CHR ''u'' \<Longrightarrow> simple_escape e = Some x \<Longrightarrow>
   json_unquote (backslash # e # rest) = map_option (\<lambda>(v, q). (x # v, q)) (json_unquote rest)"
  by (subst json_unquote.simps) (simp add: backslash_def quote_char_def)

lemma unquote_plain:
  "c \<noteq> quote_char \<Longrightarrow> c \<noteq> backslash \<Longrightarrow> 32 \<le> byte c \<Longrightarrow> decode_rune (c # cs) = (r, w) \<Longrightarrow>
   json_unquote (c # cs) = map_option (\<lambda>(v, q). (encode_rune r @ v, q)) (json_unquote (drop (w - 1) cs))"
  by (subst json_unquote.simps) simp

lemma unquote_byte:
  assumes "byte c < 128"
  shows "json_unquote (json_byte c @ rest) = map_option (\<lambda>(v, q). (c # v, q)) (json_unquote rest)"
proof -
  have qb: "quote_char \<noteq> CHR ''u''" "backslash \<noteq> CHR ''u''" by code_simp+
  have esc: "simple_escape (CHR ''b'') = Some (char_of (8 :: nat))" "simple_escape (CHR ''f'') = Some (char_of (12 :: nat))"
    "simple_escape (CHR ''n'') = Some (char_of (10 :: nat))" "simple_escape (CHR ''r'') = Some (char_of (13 :: nat))"
    "simple_escape (CHR ''t'') = Some (char_of (9 :: nat))" "simple_escape quote_char = Some quote_char"
    "simple_escape backslash = Some backslash" by code_simp+
  have c: "byte c = n \<Longrightarrow> char_of n = c" for n :: nat by auto
  consider "c = quote_char \<or> c = backslash" | "byte c \<in> {8, 12, 10, 13, 9}" "c \<noteq> quote_char" "c \<noteq> backslash"
    | "c \<noteq> quote_char" "c \<noteq> backslash" "byte c \<notin> {8, 12, 10, 13, 9}" "byte c < 32 \<or> c \<in> set ''<>&''"
    | "c \<noteq> quote_char" "c \<noteq> backslash" "\<not> byte c < 32" "c \<notin> set ''<>&''"
    by blast
  then show ?thesis
  proof cases
    case 1
    then show ?thesis using qb esc(6,7) by (auto simp: json_byte_def unquote_escape)
  next
    case 2
    have "json_byte c = [backslash, CHR ''b''] \<and> byte c = 8 \<or> json_byte c = [backslash, CHR ''f''] \<and> byte c = 12 \<or>
        json_byte c = [backslash, CHR ''n''] \<and> byte c = 10 \<or> json_byte c = [backslash, CHR ''r''] \<and> byte c = 13 \<or>
        json_byte c = [backslash, CHR ''t''] \<and> byte c = 9"
      using 2 by (auto simp: json_byte_def)
    then show ?thesis using esc(1-5) unquote_escape [of "CHR ''b''"] unquote_escape [of "CHR ''f''"] unquote_escape [of "CHR ''n''"]
        unquote_escape [of "CHR ''r''"] unquote_escape [of "CHR ''t''"] by (elim disjE conjE) (simp_all add: c)
  next
    case 3
    then have "json_byte c = json_u (byte c)" by (auto simp: json_byte_def)
    then show ?thesis using unquote_u [of "byte c" rest] assms by (simp add: encode_ascii)
  next
    case 4
    then have "json_byte c = [c]" by (auto simp: json_byte_def)
    then show ?thesis using unquote_plain [OF 4(1,2) _ decode_rune_ascii [OF assms]] 4(3) assms by (simp add: encode_ascii)
  qed
qed

text \<open>The round trip of a string, any text following it.\<close>

lemma json_unquote_chars:
  "valid_runes rs \<Longrightarrow> json_unquote (json_chars (utf8 rs) @ quote_char # rest) = Some (utf8 rs, rest)"
proof (induction rs)
  case Nil
  show ?case by (subst json_unquote.simps) (simp add: quote_char_def)
next
  case (Cons r rs)
  then have r: "valid_rune r" and IH: "json_unquote (json_chars (utf8 rs) @ quote_char # rest) = Some (utf8 rs, rest)" by simp_all
  from decode_utf8_Cons [OF r, of "utf8 rs"] obtain c cs where cs: "encode_rune r @ utf8 rs = c # cs"
      "decode_rune (c # cs) = (r, length (encode_rune r))" "drop (length (encode_rune r) - 1) cs = utf8 rs"
      "take (length (encode_rune r)) (c # cs) = encode_rune r" by blast
  show ?case
  proof (cases "byte c < 128")
    case True
    then have "r = byte c" using decode_rune_ascii_iff [OF cs(2)] by simp
    with True have e: "encode_rune r = [c]" by (simp add: encode_ascii)
    with cs(1) have "cs = utf8 rs" by simp
    with True IH unquote_byte [OF True] show ?thesis by (simp add: e)
  next
    case False
    let ?w = "length (encode_rune r)"
    have r128: "128 \<le> r" using decode_rune_ascii_iff [OF cs(2)] False by simp
    then have w: "2 \<le> ?w" using r by (auto simp: encode_rune_def Let_def)
    have j: "json_chars (c # cs) = (if r = 8232 \<or> r = 8233 then json_u r else encode_rune r) @ json_chars (utf8 rs)"
      using False cs w by (simp del: decode_rune.simps)
    show ?thesis
    proof (cases "r = 8232 \<or> r = 8233")
      case True
      then show ?thesis using cs(1) j unquote_u [of r] IH by (auto simp: utf8_def)
    next
      case False
      let ?t = "json_chars (utf8 rs) @ quote_char # rest"
      from decode_utf8_Cons [OF r, of ?t] obtain d ds where ds: "encode_rune r @ ?t = d # ds"
        "decode_rune (d # ds) = (r, ?w)" "drop (?w - 1) ds = ?t" by blast
      have dc: "d = c" using ds(1) cs(1) by (cases "encode_rune r") auto
      have "d \<noteq> quote_char" "d \<noteq> backslash" "32 \<le> byte d"
        using \<open>\<not> byte c < 128\<close> unfolding dc by (auto simp: quote_char_def backslash_def)
      from unquote_plain [OF this ds(2)] show ?thesis using False j cs(1) ds IH by simp
    qed
  qed
qed

end
