(* ===== verification/Setup_Profiles.thy ===== *)
theory Setup_Profiles
  imports Setup_Form Go_Json_Properties
begin

text \<open>
  The wizard's profile editor and the loader agree: the JSON the editor's rows are folded into is read back by the
  loader's parser as exactly those rows, which is also what the next page shows.
\<close>

section \<open>The members of an object\<close>

definition utf8_ok :: "string \<Rightarrow> bool" where
  "utf8_ok s = (utf8 (runes s) = s)"

lemma unquote_string: "utf8_ok s \<Longrightarrow> json_unquote (json_chars s @ quote_char # rest) = Some (s, rest)"
  using json_unquote_chars [of "runes s" rest] by (simp add: utf8_ok_def list_all_iff runes_valid)

lemma skip_space_id: "\<not> json_space c \<Longrightarrow> skip_space (c # cs) = c # cs"
  by (simp add: skip_space_def)

lemma not_json_space:
  "\<not> json_space quote_char" "\<not> json_space (CHR 0x7B)" "\<not> json_space (CHR 0x7D)" "\<not> json_space (CHR '':'')"
  "\<not> json_space (CHR '','')" "\<not> json_space (CHR ''t'')" "\<not> json_space (CHR ''f'')"
  by code_simp+

lemma member_step:
  assumes "utf8_ok k" "json_value fuel depth vs = Some (v, e # es)" "\<not> json_space e"
  shows "json_members (Suc fuel) depth (json_string k @ CHR '':'' # vs) =
    (if e = CHR 0x7D then Some ([(k, v)], es)
     else if e = CHR '','' then map_option (\<lambda>(m, r). ((k, v) # m, r)) (json_members fuel depth es)
     else None)"
  using assms by (simp add: json_string_def skip_space_id not_json_space unquote_string)

lemma value_bool: "json_value (Suc fuel) depth (json_bool b @ rest) = Some (JBool b, rest)"
proof -
  have "CHR ''t'' \<noteq> quote_char" "CHR ''f'' \<noteq> quote_char" by code_simp+
  then show ?thesis by (cases b) (simp_all add: json_bool_def skip_space_id not_json_space)
qed

lemma value_object:
  "json_value (Suc fuel) (Suc depth) (CHR 0x7B # json_string k @ tail) =
     map_option (\<lambda>(m, r). (JMap m, r)) (json_members fuel depth (json_string k @ tail))"
proof -
  have "CHR 0x7B \<noteq> quote_char" "quote_char \<noteq> CHR 0x7D" by code_simp+
  then show ?thesis by (simp add: json_string_def skip_space_id not_json_space)
qed

definition caps_value :: "capabilities \<Rightarrow> jv" where
  "caps_value c = JMap [(''email'', JBool (cap_email c)), (''web'', JBool (cap_web c)), (''ocr'', JBool (cap_ocr c))]"

lemma ascii_utf8_ok: "list_all (\<lambda>c. byte c < 128) s \<Longrightarrow> utf8_ok s"
  by (induction s) (simp_all add: utf8_ok_def encode_ascii)

lemma utf8_ok_names: "utf8_ok ''email''" "utf8_ok ''web''" "utf8_ok ''ocr''"
  by (rule ascii_utf8_ok, simp)+

lemma members_end:
  assumes "utf8_ok k" "json_value fuel depth (vt @ CHR 0x7D # rest) = Some (v, CHR 0x7D # rest)"
  shows "json_members (Suc fuel) depth (json_string k @ CHR '':'' # vt @ CHR 0x7D # rest) = Some ([(k, v)], rest)"
  unfolding member_step [OF assms not_json_space(3)] by simp

lemma members_next:
  assumes "utf8_ok k" "json_value fuel depth (vt @ CHR '','' # ms) = Some (v, CHR '','' # ms)"
    and "json_members fuel depth ms = Some (kvs, rest)"
  shows "json_members (Suc fuel) depth (json_string k @ CHR '':'' # vt @ CHR '','' # ms) = Some ((k, v) # kvs, rest)"
  unfolding member_step [OF assms(1,2) not_json_space(5)] assms(3) by simp

lemma value_caps:
  assumes "5 \<le> fuel"
  shows "json_value fuel (Suc depth) (caps_json c @ rest) = Some (caps_value c, rest)"
proof -
  obtain f where "fuel = 5 + f" using assms le_Suc_ex by blast
  then have f: "fuel = Suc (Suc (Suc (Suc (Suc f))))" by simp
  let ?ocr = "json_string ''ocr'' @ CHR '':'' # json_bool (cap_ocr c) @ CHR 0x7D # rest"
  let ?web = "json_string ''web'' @ CHR '':'' # json_bool (cap_web c) @ CHR '','' # ?ocr"
  let ?email = "json_string ''email'' @ CHR '':'' # json_bool (cap_email c) @ CHR '','' # ?web"
  note 1 = members_end [OF utf8_ok_names(3) value_bool, of f depth "cap_ocr c" rest]
  note 2 = members_next [OF utf8_ok_names(2) value_bool 1, of "cap_web c"]
  note 3 = members_next [OF utf8_ok_names(1) value_bool 2, of "cap_email c"]
  have t: "caps_json c @ rest = CHR 0x7B # ?email" by (simp add: caps_json_def json_field_def)
  show ?thesis unfolding f t value_object 3 caps_value_def by simp
qed

section \<open>The whole object\<close>

definition members_text :: "(string \<times> capabilities) list \<Rightarrow> string" where
  "members_text ms = join_with '','' (map (\<lambda>(k, c). json_field k (caps_json c)) ms)"

lemma members_text_simps:
  "members_text [(k, c)] = json_string k @ CHR '':'' # caps_json c"
  "ms \<noteq> [] \<Longrightarrow> members_text ((k, c) # ms) = json_string k @ CHR '':'' # caps_json c @ CHR '','' # members_text ms"
  by (cases ms; simp add: members_text_def json_field_def)+

lemma members_read:
  "ms \<noteq> [] \<Longrightarrow> list_all (\<lambda>p. utf8_ok (fst p)) ms \<Longrightarrow> length ms + 5 \<le> fuel \<Longrightarrow>
   json_members fuel (Suc depth) (members_text ms @ CHR 0x7D # rest) = Some (map (\<lambda>(k, c). (k, caps_value c)) ms, rest)"
proof (induction ms arbitrary: fuel)
  case (Cons p ms)
  obtain k c where p: "p = (k, c)" by (cases p)
  obtain f where f: "fuel = Suc f" "length ms + 5 \<le> f" using Cons.prems(3) by (cases fuel) auto
  have k: "utf8_ok k" and f5: "5 \<le> f" using Cons.prems p f by simp_all
  show ?case
  proof (cases "ms = []")
    case True
    then show ?thesis using members_end [OF k value_caps [OF f5]] by (simp add: p f members_text_simps del: json_members.simps)
  next
    case False
    with Cons f have "json_members f (Suc depth) (members_text ms @ CHR 0x7D # rest) =
        Some (map (\<lambda>(k, c). (k, caps_value c)) ms, rest)" by simp
    from members_next [OF k value_caps [OF f5] this, of c] False show ?thesis
      by (simp add: p f members_text_simps del: json_members.simps)
  qed
qed simp

lemma length_members: "length ms \<le> length (members_text ms)"
proof (induction ms)
  case (Cons p ms)
  then show ?case by (cases p; cases "ms = []") (simp_all add: members_text_simps json_string_def)
qed simp

lemma decode_profiles_text:
  assumes "ms \<noteq> []" "list_all (\<lambda>p. utf8_ok (fst p)) ms"
  shows "json_decode ([CHR 0x7B] @ members_text ms @ [CHR 0x7D]) = Some (JMap (map (\<lambda>(k, c). (k, caps_value c)) ms), [])"
proof -
  obtain k c qs where ms: "ms = (k, c) # qs" using assms(1) by (metis neq_Nil_conv surj_pair)
  obtain tail where tail: "members_text ms = json_string k @ tail"
    unfolding ms by (cases "qs = []") (simp_all add: members_text_simps)
  let ?s = "[CHR 0x7B] @ members_text ms @ [CHR 0x7D]"
  let ?fuel = "2 * length (members_text ms) + 5"
  have f: "2 * length ?s + 2 = Suc ?fuel" by simp
  have d: "max_nesting_depth = Suc (Suc 9998)" by (simp add: max_nesting_depth_def)
  have s: "?s = CHR 0x7B # json_string k @ tail @ [CHR 0x7D]" using tail by simp
  have "length ms + 5 \<le> ?fuel" using length_members [of ms] by simp
  from members_read [OF assms this, of 9998 "[]"]
  have "json_members ?fuel (Suc 9998) (json_string k @ tail @ [CHR 0x7D]) = Some (map (\<lambda>(k, c). (k, caps_value c)) ms, [])"
    using tail by (simp only: append_assoc)
  then show ?thesis unfolding json_decode_def f d unfolding s value_object by simp
qed

lemma decode_caps_value: "decode_capabilities (caps_value c) = Some c"
proof -
  have "ascii_fold ''email'' = ''email''" "ascii_fold ''web'' = ''web''" "ascii_fold ''ocr'' = ''ocr''" by code_simp+
  then show ?thesis by (cases c) (simp add: caps_value_def set_capability_def no_caps_def)
qed

lemma decode_profile_values: "decode_profiles (map (\<lambda>(k, c). (k, caps_value c)) ms) = Some ms"
  by (induction ms) (auto simp: decode_caps_value)

lemma caps_no_duplicate: "\<not> json_has_duplicate (caps_value c)"
  by (simp add: caps_value_def)

lemma parse_profiles_json:
  assumes "m \<noteq> []" "distinct (map fst m)" "list_all (\<lambda>p. utf8_ok (fst p)) m"
  shows "parse_profiles (profiles_json m) = Some (sort_key fst m)"
proof -
  let ?ms = "sort_key fst m"
  have json: "profiles_json m = [CHR 0x7B] @ members_text ?ms @ [CHR 0x7D]"
    by (simp add: profiles_json_def members_text_def)
  have ne: "?ms \<noteq> []" using assms(1) by (metis length_0_conv length_sort)
  have ok: "list_all (\<lambda>p. utf8_ok (fst p)) ?ms" using assms(3) by (simp add: list_all_iff)
  have dist: "distinct (map fst ?ms)" using assms(2) by (simp add: distinct_map)
  have fst_map: "map fst (map (\<lambda>(k, c). (k, caps_value c)) ?ms) = map fst ?ms" by (simp add: case_prod_beta comp_def)
  have nodup: "\<not> json_has_duplicate (JMap (map (\<lambda>(k, c). (k, caps_value c)) ?ms))"
    using dist caps_no_duplicate unfolding json_has_duplicate.simps fst_map by (auto simp: list_ex_iff)
  show ?thesis
    unfolding parse_profiles_def duplicate_json_key_def json decode_profiles_text [OF ne ok]
    using nodup by (simp add: json_more_def skip_space_def decode_profile_values del: json_has_duplicate.simps)
qed


section \<open>The editor\<close>

text \<open>The rows that name an address, and what the loader should read of them.\<close>

definition named_rows :: "setup_profile list \<Rightarrow> (string \<times> capabilities) list" where
  "named_rows rows = map (\<lambda>r. (sp_sender r, sp_caps r)) (filter (\<lambda>r. sp_sender r \<noteq> []) rows)"

definition editor_rows :: "(string \<times> capabilities) list \<Rightarrow> setup_profile list" where
  "editor_rows ps =
     map (\<lambda>(i, (s, c)). \<lparr>sp_row = i + 1, sp_sender = s, sp_caps = c\<rparr>) (zip [0..<length ps] ps) @
     [\<lparr>sp_row = length ps + 1, sp_sender = [], sp_caps = no_caps\<rparr>, \<lparr>sp_row = length ps + 2, sp_sender = [], sp_caps = no_caps\<rparr>]"

lemma fold_rows_error: "fold_rows rows m (Some e) = (m', None) \<Longrightarrow> False"
  by (induction rows arbitrary: m e) (auto split: if_splits)

lemma fold_rows_ok:
  "fold_rows rows m None = (m', None) \<Longrightarrow>
   m' = m @ named_rows rows \<and> (distinct (map fst m) \<longrightarrow> distinct (map fst m')) \<and>
   list_all (\<lambda>r. sp_sender r = [] \<longrightarrow> sp_caps r = no_caps) rows"
proof (induction rows arbitrary: m)
  case (Cons r rows)
  show ?case
  proof (cases "sp_sender r = []")
    case True
    with Cons.prems have "sp_caps r = no_caps" by (auto split: if_splits dest: fold_rows_error)
    with True Cons show ?thesis by (simp add: named_rows_def)
  next
    case False
    with Cons.prems have fresh: "sp_sender r \<notin> fst ` set m" by (auto split: if_splits dest: fold_rows_error)
    then have u: "AList.update (sp_sender r) (sp_caps r) m = m @ [(sp_sender r, sp_caps r)]" by (induction m) auto
    from Cons.prems False fresh have run: "fold_rows rows (m @ [(sp_sender r, sp_caps r)]) None = (m', None)"
      unfolding fold_rows.simps u by simp
    have "distinct (map fst m) \<Longrightarrow> distinct (map fst (m @ [(sp_sender r, sp_caps r)]))" using fresh by auto
    moreover have "named_rows (r # rows) = (sp_sender r, sp_caps r) # named_rows rows" using False by (simp add: named_rows_def)
    moreover from Cons.IH [OF run] have "m' = m @ (sp_sender r, sp_caps r) # named_rows rows" by simp
    moreover from Cons.IH [OF run] have "list_all (\<lambda>r. sp_sender r = [] \<longrightarrow> sp_caps r = no_caps) (r # rows)"
      using False by simp
    ultimately show ?thesis using Cons.IH [OF run] by (simp only: simp_thms) blast
  qed
qed (simp add: named_rows_def)

lemma fold_profiles_ok:
  assumes "fold_profiles rows = (v, None)"
  shows "v = (if named_rows rows = [] then [] else profiles_json (named_rows rows))" "distinct (map fst (named_rows rows))"
proof -
  obtain m where m: "fold_rows rows [] None = (m, None)" "v = (if m = [] then [] else profiles_json m)"
    using assms by (auto simp: fold_profiles_def split: prod.splits if_splits)
  from fold_rows_ok [OF m(1)] have "m = named_rows rows" "distinct (map fst m)" by auto
  with m(2) show "v = (if named_rows rows = [] then [] else profiles_json (named_rows rows))" "distinct (map fst (named_rows rows))"
    by simp_all
qed

text \<open>C40: The profile editor round trip. If the editor's rows are accepted, the text that is stored is read by the loader's
  own parser as exactly the rows that name an address, each with the features ticked in it and none twice; and the next
  page shows those rows again, sorted by address, with two spare ones at the end. Rows without an address can only have
  been accepted with nothing ticked in them, so nothing the operator typed is lost.\<close>

theorem profile_editor_round_trip:
  assumes "fold_profiles rows = (v, None)" and "list_all (\<lambda>r. utf8_ok (sp_sender r)) rows"
  shows "parse_profiles (if v \<noteq> [] then v else [CHR 0x7B, CHR 0x7D]) = Some (sort_key fst (named_rows rows)) \<and>
    profile_rows v = Some (editor_rows (sort_key fst (named_rows rows))) \<and>
    distinct (map fst (named_rows rows)) \<and> list_all (\<lambda>r. sp_sender r = [] \<longrightarrow> sp_caps r = no_caps) rows"
proof -
  note f = fold_profiles_ok [OF assms(1)]
  have ok: "list_all (\<lambda>p. utf8_ok (fst p)) (named_rows rows)"
    using assms(2) by (auto simp: named_rows_def list_all_iff)
  have empty: "parse_profiles [CHR 0x7B, CHR 0x7D] = Some []" by code_simp
  have "profiles_json (named_rows rows) \<noteq> []" by (simp add: profiles_json_def)
  then have p: "parse_profiles (if v \<noteq> [] then v else [CHR 0x7B, CHR 0x7D]) = Some (sort_key fst (named_rows rows))"
    using f empty parse_profiles_json [OF _ f(2) ok] by (cases "named_rows rows = []") auto
  have "profile_rows v = Some (editor_rows (sort_key fst (named_rows rows)))"
    unfolding profile_rows_def p by (simp add: editor_rows_def Let_def sort_key_id_if_sorted [OF sorted_sort_key])
  moreover have "list_all (\<lambda>r. sp_sender r = [] \<longrightarrow> sp_caps r = no_caps) rows"
    using assms(1) fold_rows_ok [of rows "[]"] by (auto simp: fold_profiles_def split: prod.splits if_splits)
  ultimately show ?thesis using p f(2) by simp
qed

theorem profile_editor_round_trip_witness:
  "parse_profiles (fst (fold_profiles
      [\<lparr>sp_row = 1, sp_sender = ''scan@x.org'', sp_caps = \<lparr>cap_email = True, cap_web = False, cap_ocr = True\<rparr>\<rparr>,
       \<lparr>sp_row = 2, sp_sender = [], sp_caps = no_caps\<rparr>])) =
   Some [(''scan@x.org'', \<lparr>cap_email = True, cap_web = False, cap_ocr = True\<rparr>)]"
proof -
  let ?rows = "[\<lparr>sp_row = 1, sp_sender = ''scan@x.org'', sp_caps = \<lparr>cap_email = True, cap_web = False, cap_ocr = True\<rparr>\<rparr>,
       \<lparr>sp_row = 2, sp_sender = [], sp_caps = no_caps\<rparr>]"
  let ?v = "profiles_json [(''scan@x.org'', \<lparr>cap_email = True, cap_web = False, cap_ocr = True\<rparr>)]"
  have "fold_profiles ?rows = (?v, None)" by (simp add: fold_profiles_def)
  moreover have "?v \<noteq> []" by (simp add: profiles_json_def)
  moreover have "list_all (\<lambda>r. utf8_ok (sp_sender r)) ?rows" using ascii_utf8_ok [of "''scan@x.org''"] ascii_utf8_ok [of "[]"] by simp
  ultimately show ?thesis using profile_editor_round_trip [of ?rows ?v] by (simp add: named_rows_def)
qed

end
