(* ===== verification/Setup_Properties.thy ===== *)
theory Setup_Properties
  imports Setup_Wizard Setup_Profiles Config_Load_Properties Docintel_Properties
begin

text \<open>
  What the setup wizard guarantees: the file it writes is read back as the settings it was written from, so the next
  start loads the configuration the wizard validated.
\<close>

section \<open>A URL that was written is printable\<close>

abbreviation printable :: "string \<Rightarrow> bool" where
  "printable \<equiv> list_all (\<lambda>c. 32 \<le> byte c)"

lemma hex_digit_printable: "n < 16 \<Longrightarrow> 32 \<le> byte (hex_digit n)"
proof -
  have "list_all (\<lambda>n. 32 \<le> byte (hex_digit n)) [0..<16]" by code_simp
  then show "n < 16 \<Longrightarrow> 32 \<le> byte (hex_digit n)" by (auto simp: list_all_iff)
qed

lemma control_escaped:
  assumes "byte c < 32"
  shows "should_escape m c"
proof -
  have "printable ''-_.~''" "printable ''!$&()*+,;=:[]<>''" "printable ''$&+,/:;=?@''" by code_simp+
  moreover have "c \<notin> set s" if "printable s" for s using that assms by (auto simp: list_all_iff)
  moreover have "printable ''!()*''" by code_simp
  ultimately have "c \<notin> set ''-_.~''" "c \<notin> set ''!$&()*+,;=:[]<>''" "c \<notin> set ''$&+,/:;=?@''" "c \<notin> set ''!()*''" by blast+
  then show ?thesis using assms unfolding should_escape_def unreserved_def Let_def by (simp only: if_False) force
qed

lemma escape_char_printable: "printable (escape_char m c)"
proof -
  have "byte c div 16 < 16" "byte c mod 16 < 16" using byte_less_256 [of c] by (simp_all add: less_mult_imp_div_less)
  moreover have "32 \<le> byte c" if "\<not> should_escape m c" using that control_escaped [of c m] by linarith
  ultimately show ?thesis using hex_digit_printable by (auto simp: escape_char_def)
qed

lemma url_escape_printable [simp]: "printable (url_escape m s)"
  by (induction s) (simp_all add: url_escape_def escape_char_printable)

lemma escaped_path_printable: "printable (escaped_path u)"
proof -
  have "printable s" if "valid_encoded EncPath s" for s
  proof -
    have "32 \<le> byte c" if "c \<in> set ''!$&()*+,;=:@'' \<or> byte c = 39 \<or> c \<in> set ''[]'' \<or> c = CHR ''%''" for c
    proof -
      have "list_all (\<lambda>c. 32 \<le> byte c) (''!$&()*+,;=:@'' @ ''[]'' @ ''%'')" by code_simp
      with that show ?thesis by (auto simp: list_all_iff)
    qed
    with that control_escaped [of _ EncPath] show ?thesis unfolding valid_encoded_def list_all_iff by (meson not_less)
  qed
  then show ?thesis by (simp add: escaped_path_def)
qed

lemma get_scheme_printable:
  "get_scheme_from s0 acc s = Some (sch, rest) \<Longrightarrow> printable acc \<Longrightarrow> printable sch"
  by (induction s0 acc s rule: get_scheme_from.induct) (auto simp: Let_def split: if_splits)


lemma ascii_lower_printable: "printable s \<Longrightarrow> printable (ascii_lower s)"
  by (induction s) (auto simp: ascii_lower_def)

lemma parse_scheme_printable: "url_parse s = Some u \<Longrightarrow> printable (u_scheme u)"
proof -
  have keep: "set_path p v = Some v' \<Longrightarrow> u_scheme v' = u_scheme v" for p v v'
    by (auto simp: set_path_def split: option.splits)
  have "parse_unfragmented t = Some v \<Longrightarrow> printable (u_scheme v)" for t v
    by (auto simp: parse_unfragmented_def empty_url_def Let_def intro!: ascii_lower_printable dest!: keep get_scheme_printable
        split: if_splits option.splits prod.splits)
  then show "url_parse s = Some u \<Longrightarrow> printable (u_scheme u)"
    by (fastforce simp: url_parse_def Let_def split: option.splits if_splits)
qed

lemma parse_base_url_printable:
  assumes "parse_base_url schemes v = Some w"
  shows "printable w"
proof -
  from assms obtain u where u: "url_parse v = Some u" "u_host u \<noteq> []" "u_raw_query u = []" "u_fragment u = []"
      "w = url_string (u\<lparr>u_path := trim_right_set ''/'' (u_path u)\<rparr>)"
    by (auto simp: parse_base_url_def split: option.splits if_splits)
  have "u_opaque u = []" by (rule parse_opaque [OF u(1,2)])
  moreover have "printable (userinfo_string ui)" for ui by (auto simp: userinfo_string_def split: prod.splits option.splits)
  ultimately show ?thesis
    using u(2-4) parse_scheme_printable [OF u(1)] escaped_path_printable
    by (auto simp: u(5) url_string_def Let_def split: option.splits)
qed

lemma redirect_uri_printable: "printable (redirect_uri E vals)"
proof -
  have "printable (resolve_base_url E' n)" for E' n
    by (auto simp: resolve_base_url_def public_base_url_value_def base_url_def dest: parse_base_url_printable
        split: prod.splits if_splits option.splits)
  then show ?thesis by (simp add: redirect_uri_def Let_def)
qed


section \<open>One line of the file\<close>

text \<open>The names a configuration file can hold, and settings that fit on their line.\<close>

definition setting_name :: "string \<Rightarrow> bool" where
  "setting_name n =
     (n \<noteq> [] \<and> trimmed n \<and> hd n \<noteq> CHR ''#'' \<and> list_all (\<lambda>c. c \<noteq> CHR '' '' \<and> c \<noteq> CHR 0x09 \<and> c \<noteq> CHR ''='' \<and> c \<noteq> CHR 0x0A) n)"

definition storable :: "settings_map \<Rightarrow> bool" where
  "storable vals = (distinct (map fst vals) \<and> list_all (\<lambda>p. setting_name (fst p) \<and> CHR 0x0A \<notin> set (snd p)) vals)"

lemma trimmed_quoted: "trimmed ([CHR 0x27] @ v @ [CHR 0x27])"
proof -
  have "\<not> is_space 39" by (simp add: is_space_def)
  moreover have "decode_rune (CHR 0x27 # w) = (39, 1)" for w by (simp add: decode_rune_ascii)
  moreover have "trailing_space (([CHR 0x27] @ v) @ CHR 0x27 # []) = trailing_space []"
    by (rule trailing_space_after_ascii) (simp_all add: is_space_def)
  moreover have "trailing_space [] = 0" using trimmed_Nil by (simp add: trimmed_def)
  ultimately show ?thesis by (simp add: trimmed_def)
qed

lemma trimmed_quote_value: "trimmed (quote_value v)"
  using trimmed_quoted by (auto simp: quote_value_def trimmed_iff)

lemma unquote_quote_value: "unquote (quote_value v) = v"
  by (auto simp: quote_value_def unquote_def has_quote_pair_def quote_mark_def)

lemma trimmed_line:
  assumes "setting_name n"
  shows "trimmed (n @ CHR ''='' # quote_value v)"
proof -
  have "fst (decode_rune (n @ CHR ''='' # quote_value v)) = fst (decode_rune n)"
    using assms by (simp add: decode_append_ascii setting_name_def)
  moreover have "trailing_space (n @ CHR ''='' # quote_value v) = trailing_space (quote_value v)"
    by (rule trailing_space_after_ascii) (simp_all add: is_space_def)
  ultimately show ?thesis using assms trimmed_quote_value [of v] by (simp add: trimmed_def setting_name_def)
qed

lemma not_export:
  assumes "CHR '' '' \<notin> set n"
  shows "\<not> prefix ''export '' (n @ CHR ''='' # q)"
proof
  assume "prefix ''export '' (n @ CHR ''='' # q)"
  then obtain w where w: "n @ CHR ''='' # q = ''export '' @ w" by (auto simp: prefix_def)
  show False
  proof (cases "length n < 7")
    case True
    have "CHR ''='' = (''export '' @ w) ! length n" using w by (metis nth_append_length)
    also have "\<dots> = ''export '' ! length n" unfolding nth_append using True by simp
    finally have "CHR ''='' \<in> set ''export ''" using True nth_mem [of "length n" "''export ''"] by simp
    then show False by simp
  next
    case False
    have "n ! 6 = (n @ CHR ''='' # q) ! 6" using False by (simp add: nth_append)
    also have "\<dots> = CHR '' ''" using w by simp
    finally have "CHR '' '' \<in> set n" using False nth_mem [of 6 n] by simp
    with assms show False by simp
  qed
qed

lemma parse_setting_line:
  assumes "setting_name n"
  shows "parse_line (n @ CHR ''='' # quote_value v) = Setting n v"
proof -
  from assms have n: "n \<noteq> []" "trimmed n" "hd n \<noteq> CHR ''#''" "CHR '' '' \<notin> set n" "CHR 0x09 \<notin> set n" "CHR ''='' \<notin> set n"
    by (auto simp: setting_name_def list_all_iff)
  let ?l = "n @ CHR ''='' # quote_value v"
  have "trim_space ?l = ?l" using trimmed_line [OF assms] by (simp add: trimmed_iff)
  moreover have "trim_prefix ''export '' ?l = ?l" using not_export [OF n(4)] by (simp add: trim_prefix_def)
  moreover have "\<not> prefix ''#'' ?l" using n(1,3) by (cases n) auto
  moreover have "cut (CHR ''='') ?l = Some (n, quote_value v)" using n(6) by (rule cut_append)
  moreover have "trim_space n = n" using n(2) by (simp add: trimmed_iff)
  moreover have "trim_space (quote_value v) = quote_value v" using trimmed_quote_value by (simp add: trimmed_iff)
  ultimately show ?thesis using n by (simp add: parse_line_def Let_def unquote_quote_value)
qed

section \<open>The whole file\<close>

definition comment_lines :: "string list \<Rightarrow> bool" where
  "comment_lines ls = list_all (\<lambda>l. (l = [] \<or> hd l = CHR ''#'') \<and> CHR 0x0A \<notin> set l) ls"

lemma trim_right_after_ascii:
  assumes "byte c < 128" "\<not> is_space (byte c)"
  shows "trim_right_space (u @ c # v) = u @ c # trim_right_space v"
proof (induction v rule: trim_right_space.induct)
  case (1 v)
  have t: "trailing_space (u @ c # v) = trailing_space v" by (rule trailing_space_after_ascii [OF assms])
  show ?case
  proof (cases "trailing_space v = 0")
    case True
    with t show ?thesis by (simp add: trim_right_id)
  next
    case False
    have le: "trailing_space v \<le> length v" by (rule trailing_space_le)
    have "trim_right_space (u @ c # v) = trim_right_space (take (length (u @ c # v) - trailing_space v) (u @ c # v))"
      using t False by (subst trim_right_space.simps) (simp add: Let_def)
    also have "take (length (u @ c # v) - trailing_space v) (u @ c # v) = u @ c # take (length v - trailing_space v) v"
      using le by (simp add: Suc_diff_le)
    also have "trim_right_space \<dots> = u @ c # trim_right_space (take (length v - trailing_space v) v)"
      using 1 False by simp
    also have "trim_right_space (take (length v - trailing_space v) v) = trim_right_space v"
      using False by (subst (2) trim_right_space.simps) (simp add: Let_def)
    finally show ?thesis .
  qed
qed

lemma parse_comment: "l = [] \<or> hd l = CHR ''#'' \<Longrightarrow> parse_line l = Skipped"
proof (cases l)
  case (Cons c cs)
  assume "l = [] \<or> hd l = CHR ''#''"
  with Cons have l: "l = [] @ CHR ''#'' # cs" by simp
  have sp: "\<not> is_space 35" by (simp add: is_space_def)
  then have "trim_left_space l = l" unfolding l by (intro trim_left_id) (simp add: decode_rune_ascii)
  then have t: "trim_space l = CHR ''#'' # trim_right_space cs"
    unfolding trim_space_def l using trim_right_after_ascii [of "CHR ''#''" "[]" cs] sp by simp
  then have "trim_space (CHR ''#'' # trim_right_space cs) = CHR ''#'' # trim_right_space cs"
    using trim_space_idem [of l] by simp
  with t show ?thesis by (simp add: parse_line_def Let_def trim_prefix_def)
qed (simp add: parse_line_def Let_def trim_prefix_def)

lemma split_lines:
  "list_all (\<lambda>l. c \<notin> set l) ls \<Longrightarrow> split_on c (concat (map (\<lambda>l. l @ [c]) ls)) = ls @ [[]]"
  by (induction ls) (simp_all add: split_on_append)

lemma parse_comments: "comment_lines cs \<Longrightarrow> parse_lines i out (cs @ ls) = parse_lines (i + length cs) out ls"
  by (induction cs arbitrary: i) (simp_all add: comment_lines_def parse_comment)

definition setting_line :: "string \<times> string \<Rightarrow> string" where
  "setting_line p = fst p @ ''='' @ quote_value (snd p)"

lemma parse_settings:
  "list_all (\<lambda>p. setting_name (fst p)) ps \<Longrightarrow> distinct (map fst (out @ ps)) \<Longrightarrow>
   parse_lines i out (map setting_line ps @ [[]]) = Inr (out @ ps)"
proof (induction ps arbitrary: i out)
  case Nil
  have "parse_line [] = Skipped" by (rule parse_comment) simp
  then show ?case by simp
next
  case (Cons p ps)
  obtain n v where p: "p = (n, v)" by (cases p)
  from Cons.prems p have "n \<notin> fst ` set out" by auto
  moreover have "parse_line (setting_line p) = Setting n v" using parse_setting_line Cons.prems(1) p by (simp add: setting_line_def)
  ultimately show ?case using Cons.IH [of "out @ [p]" "i + 1"] Cons.prems p by simp
qed

definition header_lines :: "cfg_env \<Rightarrow> settings_map \<Rightarrow> string list" where
  "header_lines E vals =
     [''# scan2graph configuration, written by the setup wizard.'',
      ''# Editing it by hand is fine; real environment variables still win.''] @
     (let uri = redirect_uri E vals in
      if uri \<noteq> [] then
        [''#'', ''# The Entra app registration needs this redirect URI, under'',
         ''# Authentication as a Web platform, or signing in fails:'', ''#   '' @ uri]
      else []) @
     (if resolve_value (E\<lparr>ce_getenv := layer vals (ce_getenv E)\<rparr>) ''S2G_GRAPH_SENDER'' \<noteq> [] then
        [''#'', ''# It also needs the Mail.Send application permission, with admin'',
         ''# consent granted, or nothing can be mailed out - and Mail.ReadWrite'',
         ''# beside it if a scan can be larger than 2.2 MB, which the default'',
         ''# 32 MiB message limit leaves plenty of room for.'']
      else []) @ [[]]"

definition sorted_settings :: "settings_map \<Rightarrow> (string \<times> string) list" where
  "sorted_settings vals = map (\<lambda>n. (n, lookup vals n)) (sort (map fst vals))"

lemma serialize_lines:
  "serialize E vals = concat (map (\<lambda>l. l @ [CHR 0x0A]) (header_lines E vals @ map setting_line (sorted_settings vals)))"
  by (simp add: serialize_def header_lines_def newline_def setting_line_def sorted_settings_def Let_def comp_def)

lemma header_comments: "comment_lines (header_lines E vals)"
proof -
  have "CHR 0x0A \<notin> set (redirect_uri E vals)"
    using redirect_uri_printable [of E vals] by (auto simp: list_all_iff)
  then show ?thesis by (simp add: comment_lines_def header_lines_def Let_def)
qed

lemma sorted_settings_facts:
  assumes "storable vals"
  shows "map_of (sorted_settings vals) = map_of vals" "distinct (map fst (sorted_settings vals))"
    "list_all (\<lambda>p. setting_name (fst p) \<and> CHR 0x0A \<notin> set (setting_line p)) (sorted_settings vals)"
proof -
  have d: "distinct (map fst vals)" using assms by (simp add: storable_def)
  have keys: "map fst (sorted_settings vals) = sort (map fst vals)" by (simp add: sorted_settings_def comp_def)
  show "distinct (map fst (sorted_settings vals))" using d by (simp add: keys)
  show "map_of (sorted_settings vals) = map_of vals"
  proof
    fix k
    show "map_of (sorted_settings vals) k = map_of vals k"
    proof (cases "map_of vals k")
      case None
      moreover from this have "k \<notin> set (map fst vals)" by (simp add: map_of_eq_None_iff)
      ultimately show ?thesis
        by (simp add: sorted_settings_def map_of_map_restrict restrict_map_def)
    next
      case (Some v)
      then have "k \<in> set (map fst vals)" by (force dest: map_of_SomeD)
      with Some show ?thesis by (simp add: sorted_settings_def map_of_map_restrict restrict_map_def lookup_def)
    qed
  qed
  show "list_all (\<lambda>p. setting_name (fst p) \<and> CHR 0x0A \<notin> set (setting_line p)) (sorted_settings vals)"
  proof -
    have "setting_name n \<and> CHR 0x0A \<notin> set (lookup vals n)" if "n \<in> fst ` set vals" for n
    proof -
      from that obtain v where "(n, v) \<in> set vals" by auto
      moreover from this have "lookup vals n = v" using d by (simp add: lookup_def)
      ultimately show ?thesis using assms by (auto simp: storable_def list_all_iff)
    qed
    then show ?thesis
      by (auto simp: list_all_iff sorted_settings_def setting_line_def quote_value_def setting_name_def)
  qed
qed

lemma parse_serialized:
  assumes "storable vals" "disk path = Some (serialize E vals)"
  shows "parse_file disk path = Inr (sorted_settings vals)"
proof -
  let ?hs = "header_lines E vals" and ?ss = "sorted_settings vals"
  note f = sorted_settings_facts [OF assms(1)]
  have "list_all (\<lambda>l. CHR 0x0A \<notin> set l) (?hs @ map setting_line ?ss)"
    using header_comments [of E vals] f(3) by (auto simp: comment_lines_def list_all_iff)
  then have "split_on (CHR 0x0A) (serialize E vals) = ?hs @ map setting_line ?ss @ [[]]"
    unfolding serialize_lines by (subst split_lines) simp_all
  moreover have "trim_prefix byte_order_mark (serialize E vals) = serialize E vals"
    by (simp add: trim_prefix_def byte_order_mark_def serialize_def)
  moreover have "parse_lines 1 [] (?hs @ map setting_line ?ss @ [[]]) = Inr ?ss"
    unfolding parse_comments [OF header_comments] using parse_settings [of ?ss "[]"] f(2,3) by (auto simp: list_all_iff)
  ultimately show ?thesis using assms(2) by (simp add: parse_file_def)
qed


section \<open>Folding a submission\<close>

definition posted_value :: "form \<Rightarrow> setup_field \<Rightarrow> string" where
  "posted_value form f =
     (if sf_kind f = FieldProfiles \<and> form_has form prof_sender then fst (fold_profiles (posted_profiles form))
      else clean_value (form_get form (sf_name f)))"

lemma fold_field_values:
  "fst (fold_field form f (vals, err)) =
     (if posted_value form f \<noteq> [] then AList.delete (file_name_of (sf_name f)) (AList.update (sf_name f) (posted_value form f) vals)
      else if sf_kind f = FieldSecret \<or> lookup vals (file_name_of (sf_name f)) \<noteq> [] then vals
      else AList.delete (file_name_of (sf_name f)) (AList.delete (sf_name f) vals))"
  by (auto simp: fold_field_def posted_value_def Let_def split: prod.splits)

definition field_keys :: "setup_field \<Rightarrow> string list" where
  "field_keys f = [sf_name f, file_name_of (sf_name f)]"

lemma fold_field_other:
  "k \<notin> set (field_keys f) \<Longrightarrow> map_of (fst (fold_field form f acc)) k = map_of (fst acc) k"
  by (cases acc) (auto simp: fold_field_values field_keys_def map_of_update' map_of_delete')

lemma fold_fields_other:
  "k \<notin> set (concat (map field_keys fs)) \<Longrightarrow> map_of (fst (fold (fold_field form) fs acc)) k = map_of (fst acc) k"
  by (induction fs arbitrary: acc) (simp_all add: fold_field_other)

definition field_result :: "form \<Rightarrow> settings_map \<Rightarrow> setup_field \<Rightarrow> settings_map \<Rightarrow> bool" where
  "field_result form base f vals =
     (lookup vals (sf_name f) =
        (if posted_value form f \<noteq> [] then posted_value form f
         else if sf_kind f = FieldSecret \<or> lookup base (file_name_of (sf_name f)) \<noteq> [] then lookup base (sf_name f)
         else []) \<and>
      lookup vals (file_name_of (sf_name f)) =
        (if posted_value form f \<noteq> [] then [] else lookup base (file_name_of (sf_name f))))"

lemma fold_field_own:
  assumes "map_of vals (sf_name f) = map_of base (sf_name f)"
    and "map_of vals (file_name_of (sf_name f)) = map_of base (file_name_of (sf_name f))"
  shows "field_result form base f (fst (fold_field form f (vals, err)))"
  using assms
  by (auto simp: field_result_def fold_field_values lookup_def map_of_update' map_of_delete' file_name_of_def split: option.splits)

lemma fold_fields_result:
  "distinct (concat (map field_keys fs)) \<Longrightarrow> f \<in> set fs \<Longrightarrow>
   (\<And>k. k \<in> set (concat (map field_keys fs)) \<Longrightarrow> map_of (fst acc) k = map_of base k) \<Longrightarrow>
   field_result form base f (fst (fold (fold_field form) fs acc))"
proof (induction fs arbitrary: acc)
  case (Cons g fs)
  let ?acc = "fold_field form g acc"
  show ?case
  proof (cases "f = g")
    case True
    have k: "sf_name f \<in> set (field_keys g)" "file_name_of (sf_name f) \<in> set (field_keys g)"
      using True by (simp_all add: field_keys_def)
    have "sf_name f \<notin> set (concat (map field_keys fs))" "file_name_of (sf_name f) \<notin> set (concat (map field_keys fs))"
      using Cons.prems(1) k by auto
    then have "map_of (fst (fold (fold_field form) fs ?acc)) (sf_name f) = map_of (fst ?acc) (sf_name f)"
        "map_of (fst (fold (fold_field form) fs ?acc)) (file_name_of (sf_name f)) = map_of (fst ?acc) (file_name_of (sf_name f))"
      using fold_fields_other by blast+
    moreover have "field_result form base f (fst ?acc)"
      using fold_field_own [of "fst acc" f base form "snd acc"] Cons.prems(3) k True by simp
    ultimately show ?thesis by (simp add: field_result_def lookup_def)
  next
    case False
    have "map_of (fst ?acc) k = map_of base k" if "k \<in> set (concat (map field_keys fs))" for k
    proof -
      have "k \<notin> set (field_keys g)" using Cons.prems(1) that by auto
      with fold_field_other Cons.prems(3) that show ?thesis by simp
    qed
    with Cons False show ?thesis by simp
  qed
qed simp

lemma setup_field_keys:
  "map field_keys fs = map (\<lambda>n. [n, n @ ''_FILE'']) (map sf_name fs)"
  by (simp add: field_keys_def file_name_of_def)

lemma setup_keys_distinct: "distinct (concat (map field_keys setup_fields))"
  unfolding setup_field_keys setup_field_names by code_simp

text \<open>C39: What a submission makes of the settings. For every setting the form asks for: a filled-in box replaces it and drops
  its \<open>_FILE\<close> spelling, so the two are never both set; an empty box keeps a secret, and keeps a setting the \<open>_FILE\<close> spelling
  supplies, in either spelling; any other empty box removes the setting. Settings the form does not ask for are kept.\<close>

theorem submission_folds_settings:
  assumes "k \<notin> set (concat (map field_keys setup_fields))"
  shows "list_all (\<lambda>f. field_result form base f (fst (fold_form form base))) setup_fields \<and>
    map_of (fst (fold_form form base)) k = map_of base k"
  using fold_fields_result [OF setup_keys_distinct, of _ "(base, None)" base form] fold_fields_other [OF assms, of form "(base, None)"]
  by (simp add: fold_form_def list_all_iff)

theorem submission_folds_settings_witness:
  "lookup (fst (fold_form [] [(''S2G_GRAPH_SCOPE'', ''x'')])) ''S2G_GRAPH_SCOPE'' = ''x''"
proof -
  have "''S2G_GRAPH_SCOPE'' \<notin> set (concat (map field_keys setup_fields))"
    unfolding setup_field_keys setup_field_names by code_simp
  from submission_folds_settings [OF this, of "[]" "[(''S2G_GRAPH_SCOPE'', ''x'')]"] show ?thesis by (simp add: lookup_def)
qed

section \<open>Settings that fit on their line\<close>

lemma ascii_setting_name:
  assumes "n \<noteq> []" "list_all setting_char n"
  shows "setting_name n"
proof -
  have c: "byte c < 128 \<and> \<not> is_space (byte c) \<and> c \<noteq> CHR '' '' \<and> c \<noteq> CHR 0x09 \<and> c \<noteq> CHR ''='' \<and> c \<noteq> CHR 0x0A \<and> c \<noteq> CHR ''#''"
    if "c \<in> set n" for c
    using assms(2) that by (auto simp: list_all_iff setting_char_def is_space_def)
  obtain d ds where n: "n = d # ds" using assms(1) by (cases n) auto
  have "trailing_space n = 0"
  proof -
    have "n = butlast n @ last n # []" using assms(1) by simp
    moreover have "trailing_space (butlast n @ last n # []) = trailing_space []"
      using c [of "last n"] assms(1) by (intro trailing_space_after_ascii) simp_all
    moreover have "trailing_space [] = 0" using trimmed_Nil by (simp add: trimmed_def)
    ultimately show ?thesis by metis
  qed
  with c [of d] n have "trimmed n" by (simp add: trimmed_def)
  with c n show ?thesis by (auto simp: setting_name_def list_all_iff)
qed

lemma setting_name_file: "setting_name n \<Longrightarrow> list_all setting_char n \<Longrightarrow> setting_name (n @ ''_FILE'')"
  by (rule ascii_setting_name) (simp_all add: setting_char_def)

lemma clean_value_line: "CHR 0x0A \<notin> set (clean_value v)"
proof -
  have "CHR 0x0A \<notin> set (concat (map (\<lambda>c. if c = CHR 0x0D then [] else if c = CHR 0x0A then '' '' else [c]) v))"
    by (induction v) auto
  then show ?thesis unfolding clean_value_def using set_trim_space by blast
qed

lemma profiles_json_line: "CHR 0x0A \<notin> set (profiles_json m)"
proof -
  have str: "CHR 0x0A \<notin> set (json_string s)" for s using json_string_printable [of s] by (auto simp: list_all_iff)
  then have caps: "CHR 0x0A \<notin> set (caps_json c)" for c by (auto simp: caps_json_def json_field_def json_bool_def)
  have "CHR 0x0A \<notin> set (join_with '','' (map (\<lambda>(k, c). json_field k (caps_json c)) ms))" for ms
    using set_join_with [of "'',''" "map (\<lambda>(k, c). json_field k (caps_json c)) ms"] str caps
    by (fastforce simp: json_field_def)
  then show ?thesis by (simp add: profiles_json_def)
qed

lemma posted_value_line: "CHR 0x0A \<notin> set (posted_value form f)"
  using clean_value_line profiles_json_line
  by (auto simp: posted_value_def fold_profiles_def split: prod.splits if_splits)

lemma storable_update: "storable vals \<Longrightarrow> setting_name n \<Longrightarrow> CHR 0x0A \<notin> set v \<Longrightarrow> storable (AList.update n v vals)"
proof -
  have "set (AList.update n v vals) \<subseteq> insert (n, v) (set vals)" by (induction vals) auto
  then show "storable vals \<Longrightarrow> setting_name n \<Longrightarrow> CHR 0x0A \<notin> set v \<Longrightarrow> storable (AList.update n v vals)"
    by (auto simp: storable_def list_all_iff distinct_update)
qed

lemma storable_delete: "storable vals \<Longrightarrow> storable (AList.delete n vals)"
  by (auto simp: storable_def list_all_iff distinct_delete in_set_delete)

lemma setup_names_setting: "f \<in> set setup_fields \<Longrightarrow> setting_name (sf_name f)"
proof -
  have "list_all (\<lambda>n. n \<noteq> [] \<and> list_all setting_char n) (map sf_name setup_fields)"
    unfolding setup_field_names by code_simp
  then show "f \<in> set setup_fields \<Longrightarrow> setting_name (sf_name f)" by (auto simp: list_all_iff intro: ascii_setting_name)
qed

lemma storable_fold_form:
  assumes "storable base"
  shows "storable (fst (fold_form form base))"
proof -
  have "storable (fst (fold (fold_field form) fs acc))" if "storable (fst acc)" "set fs \<subseteq> set setup_fields" for fs acc
    using that
  proof (induction fs arbitrary: acc)
    case (Cons f fs)
    have "setting_name (sf_name f)" using Cons.prems(2) setup_names_setting by simp
    with Cons.prems(1) have "storable (fst (fold_field form f (fst acc, snd acc)))"
      by (auto simp: fold_field_values storable_update storable_delete posted_value_line simp del: prod.collapse)
    with Cons show ?case by simp
  qed simp
  from this [of "(base, None)" setup_fields] assms show ?thesis by (simp add: fold_form_def)
qed

text \<open>A file that parses is storable.\<close>

lemma parse_line_setting:
  assumes "parse_line l = Setting n v" "CHR 0x0A \<notin> set l"
  shows "setting_name n \<and> CHR 0x0A \<notin> set v"
proof -
  let ?l = "trim_space (trim_prefix ''export '' (trim_space l))"
  from assms(1) obtain n0 v0 where c: "?l \<noteq> []" "\<not> prefix ''#'' ?l" "cut (CHR ''='') ?l = Some (n0, v0)"
      "n = trim_space n0" "v = unquote (trim_space v0)" "n \<noteq> []" "CHR '' '' \<notin> set n" "CHR 0x09 \<notin> set n"
    by (auto simp: parse_line_def Let_def split: if_splits option.splits prod.splits)
  have l: "?l = n0 @ CHR ''='' # v0" "CHR ''='' \<notin> set n0"
    using c(3) before_after [of "CHR ''=''" ?l] not_in_before [of "CHR ''=''" ?l] by (auto simp: cut_def split: if_splits)
  have sub: "set ?l \<subseteq> set l"
  proof -
    have "set (trim_prefix ''export '' (trim_space l)) \<subseteq> set (trim_space l)" using set_drop_subset by (auto simp: trim_prefix_def dest: in_set_dropD)
    then show ?thesis using set_trim_space [of l] set_trim_space [of "trim_prefix ''export '' (trim_space l)"] by blast
  qed
  have n0: "n0 \<noteq> []" using c(4,6) by auto
  have "\<not> is_space (fst (decode_rune ?l))" using trim_space_trimmed by (simp add: trimmed_def)
  then have "\<not> is_space (fst (decode_rune n0))" unfolding l(1) using n0 by (simp add: decode_append_ascii)
  then have "n = trim_right_space n0" using c(4) by (simp add: trim_space_def trim_left_id)
  then obtain w where w: "n0 = n @ w" using trim_right_prefix by metis
  have "hd n \<noteq> CHR ''#''" using c(2,6) unfolding l(1) w by (cases n) auto
  moreover have "trimmed n" unfolding c(4) by (rule trim_space_trimmed)
  moreover have "CHR ''='' \<notin> set n" "CHR 0x0A \<notin> set n"
    using l(2) w sub assms(2) unfolding l(1) by auto
  moreover have "CHR 0x0A \<notin> set v"
  proof -
    have "set (butlast (tl s)) \<subseteq> set s" for s :: string by (cases s) (auto dest: in_set_butlastD)
    then have "set v \<subseteq> set (trim_space v0)" unfolding c(5) unquote_def by simp
    then show ?thesis using set_trim_space [of v0] sub assms(2) unfolding l(1) by auto
  qed
  ultimately show ?thesis using c(6-8) by (auto simp: setting_name_def list_all_iff)
qed

lemma parse_lines_storable:
  "parse_lines i out ls = Inr kvs \<Longrightarrow> storable out \<Longrightarrow> list_all (\<lambda>l. CHR 0x0A \<notin> set l) ls \<Longrightarrow> storable kvs"
proof (induction ls arbitrary: i out)
  case (Cons l ls)
  show ?case
  proof (cases "parse_line l")
    case (Setting n v)
    with parse_line_setting [OF this] Cons.prems have "setting_name n \<and> CHR 0x0A \<notin> set v" by simp
    with Setting Cons show ?thesis by (auto simp: storable_def split: if_splits)
  qed (use Cons in auto)
qed simp

lemma parse_file_storable: "parse_file disk path = Inr kvs \<Longrightarrow> storable kvs"
  by (auto simp: parse_file_def storable_def [of "[]"] list_all_iff dest: split_on_no_sep split: option.splits
      elim!: parse_lines_storable)

end
