(* ===== verification/Setup_System.thy ===== *)
theory Setup_System
  imports Setup_Properties
begin

text \<open>
  The setup wizard with any number of requests in flight: who may write the configuration file, what is written, what a
  page folds into. A step is one critical section of the wizard; a submission is in flight between the section that read
  the settings it folds into and the one that saves it or remembers its page.
\<close>

section \<open>The steps\<close>

record setup_system =
  ss_wizard :: wizard
  ss_disk :: files_on_disk
  ss_flying :: "(web_request \<times> form \<times> submission) list"

datatype setup_event = Claimed string | Entered web_request | Saved web_request settings_map | Unsaved web_request | Handed_Back string

text \<open>Random texts are not empty and have no line break; the id of a page is a new one; the temporary file is another file.\<close>

inductive wizard_step :: "setup_options \<Rightarrow> setup_system \<Rightarrow> setup_event \<Rightarrow> setup_system \<Rightarrow> bool" for opts where
  step_claim:
    "start opts p token (ss_wizard S) = (a, w) \<Longrightarrow> a \<noteq> Setup_Not_Found \<Longrightarrow>
     wizard_step opts S (Claimed token) (S\<lparr>ss_wizard := w\<rparr>)"
| step_enter:
    "holder opts r (ss_wizard S) \<Longrightarrow> CHR 0x0A \<notin> set fresh \<Longrightarrow>
     wizard_step opts S (Entered r) (S\<lparr>ss_flying := (r, form, submit_read opts fresh form (ss_wizard S)) # ss_flying S\<rparr>)"
| step_save:
    "(r, form, sb) \<in> set (ss_flying S) \<Longrightarrow> saves opts form sb \<Longrightarrow> tmp \<noteq> so_path opts \<Longrightarrow>
     setup_save opts fault tmp (sb_values sb) (ss_wizard S) (ss_disk S) = (True, w, ds) \<Longrightarrow>
     wizard_step opts S (Saved r (sb_values sb))
       (S\<lparr>ss_wizard := w, ss_disk := last ds, ss_flying := removeAll (r, form, sb) (ss_flying S)\<rparr>)"
| step_unsaved:
    "(r, form, sb) \<in> set (ss_flying S) \<Longrightarrow> saves opts form sb \<Longrightarrow> tmp \<noteq> so_path opts \<Longrightarrow>
     setup_save opts fault tmp (sb_values sb) (ss_wizard S) (ss_disk S) = (False, w, ds) \<Longrightarrow>
     wizard_step opts S (Unsaved r) (S\<lparr>ss_wizard := w, ss_disk := (if ds = [] then ss_disk S else last ds)\<rparr>)"
| step_hand_back:
    "(r, form, sb) \<in> set (ss_flying S) \<Longrightarrow> ident \<notin> set (map pf_id (wz_pending (ss_wizard S))) \<Longrightarrow>
     hand_back opts ident form sb checks errs (ss_wizard S) = (a, w) \<Longrightarrow>
     wizard_step opts S (Handed_Back ident) (S\<lparr>ss_wizard := w, ss_flying := removeAll (r, form, sb) (ss_flying S)\<rparr>)"

definition setup_next :: "setup_options \<Rightarrow> setup_system \<Rightarrow> setup_system \<Rightarrow> bool" where
  "setup_next opts S T \<longleftrightarrow> (\<exists>e. wizard_step opts S e T)"

text \<open>The wizard starts from the file as it was read, or from nothing where there is none or it does not parse.\<close>

definition setup_init :: "setup_options \<Rightarrow> setup_system \<Rightarrow> bool" where
  "setup_init opts S \<longleftrightarrow> ss_flying S = [] \<and>
     (\<exists>vals hash. ss_wizard S = new_wizard vals hash \<and> (vals = [] \<or> parse_file (ss_disk S) (so_path opts) = Inr vals))"

abbreviation reachable_setup :: "setup_options \<Rightarrow> setup_system \<Rightarrow> bool" where
  "reachable_setup opts \<equiv> reachable_by (setup_init opts) (setup_next opts)"

section \<open>The handler does what the steps say\<close>

lemma submit_steps:
  assumes "submit opts fresh ident checks fault tmp env r (Some form) wz d = (a, w, ds)" "holder opts r wz"
  defines "sb \<equiv> submit_read opts fresh form wz"
  shows "(w = env wz \<and> ds = []) \<or>
     (saves opts form sb \<and> setup_save opts fault tmp (sb_values sb) (env wz) d = (True, w, ds)) \<or>
     (saves opts form sb \<and> (\<exists>w1 errs. setup_save opts fault tmp (sb_values sb) (env wz) d = (False, w1, ds) \<and>
        hand_back opts ident form sb [] errs w1 = (a, w))) \<or>
     (\<exists>cs errs. ds = [] \<and> hand_back opts ident form sb cs errs (env wz) = (a, w))"
  using assms(1,2) unfolding submit_def Let_def option.case sb_def [symmetric]
  by (auto split: if_splits prod.splits) (metis surj_pair)+

lemma submit_without_key: "\<not> holder opts r wz \<Longrightarrow> submit opts fresh ident checks fault tmp env r form wz d = (Setup_Not_Found, wz, [])"
  by (simp add: submit_def)

section \<open>A submission that passed the checks\<close>

text \<open>The messages of the loader are lines: none of them is empty or starts with a line break.\<close>

definition error_lines :: "setup_options \<Rightarrow> bool" where
  "error_lines opts \<longleftrightarrow> (\<forall>e. so_text opts e \<noteq> [] \<and> hd (so_text opts e) \<noteq> CHR 0x0A)"

lemma attribute_lines_empty:
  "attribute_lines ls general by_field = ([], []) \<Longrightarrow> general = [] \<and> by_field = [] \<and> list_all (\<lambda>l. l = []) ls"
proof (induction ls arbitrary: general by_field)
  case (Cons l ls)
  have "AList.update k v al \<noteq> []" for k v and al :: "(string \<times> string) list" by (cases al) auto
  with Cons.prems show ?case by (auto simp: Let_def dest: Cons.IH split: if_splits)
qed simp

lemma attribute_message: "msg \<noteq> [] \<Longrightarrow> hd msg \<noteq> CHR 0x0A \<Longrightarrow> attribute (Some msg) \<noteq> ([], [])"
proof
  assume m: "msg \<noteq> []" "hd msg \<noteq> CHR 0x0A" "attribute (Some msg) = ([], [])"
  then have all: "list_all (\<lambda>l. l = []) (split_on (CHR 0x0A) msg)" by (simp add: attribute_def attribute_lines_empty)
  obtain c cs where msg: "msg = c # cs" "c \<noteq> CHR 0x0A" using m(1,2) by (cases msg) auto
  with all show False by (auto split: list.splits)
qed

lemma accepted_no_error:
  assumes "error_lines opts" "accepted form (submit_read opts fresh form w)"
  shows "sb_error (submit_read opts fresh form w) = None"
proof (rule ccontr)
  let ?sb = "submit_read opts fresh form w"
  assume "sb_error ?sb \<noteq> None"
  then obtain msg where msg: "sb_error ?sb = Some msg" by blast
  have prof: "profile_error_text opts e \<noteq> [] \<and> hd (profile_error_text opts e) \<noteq> CHR 0x0A" for e
    by (cases e) (simp_all add: profile_error_text_def)
  have load_text: "join_with newline (map (so_text opts) es) \<noteq> [] \<and> hd (join_with newline (map (so_text opts) es)) \<noteq> CHR 0x0A"
    if "es \<noteq> []" for es
    using that assms(1) by (cases es; cases "tl es") (auto simp: error_lines_def)
  have load_errors: "load E = Inl es \<Longrightarrow> es \<noteq> []" for E es by (auto simp: load_def split: prod.splits if_splits)
  have "msg \<noteq> [] \<and> hd msg \<noteq> CHR 0x0A"
    using msg assms(2) prof load_text load_errors
    by (auto simp: submit_read_def accepted_def join_errors_def Let_def split: prod.splits sum.splits option.splits if_splits)
  with attribute_message msg assms(2) show False by (simp add: accepted_def)
qed

section \<open>What the steps keep\<close>

inductive derived :: "settings_map \<Rightarrow> settings_map \<Rightarrow> bool" for file_vals where
  derived_file: "derived file_vals file_vals"
| derived_fold: "derived file_vals vals \<Longrightarrow> derived file_vals (fst (fold_form form vals))"
| derived_password: "derived file_vals vals \<Longrightarrow> CHR 0x0A \<notin> set fresh \<Longrightarrow>
    derived file_vals (AList.delete ''S2G_SMTP_PASSWORD_FILE'' (AList.update ''S2G_SMTP_PASSWORD'' fresh vals))"

lemma storable_derived: "derived F vals \<Longrightarrow> storable F \<Longrightarrow> storable vals"
proof (induction rule: derived.induct)
  case (derived_password vals fresh)
  have "setting_name ''S2G_SMTP_PASSWORD''" by (rule ascii_setting_name) code_simp+
  with derived_password show ?case by (intro storable_delete storable_update) simp_all
qed (simp_all add: storable_fold_form)

text \<open>
  A remembered page or a submission in flight is told apart by the generation of the file it was folded into: it is not
  newer than the file, and if it is as new it is made of the file and of what was typed since.
\<close>

definition follows :: "wizard \<Rightarrow> settings_map \<Rightarrow> nat \<Rightarrow> bool" where
  "follows w vals gen \<longleftrightarrow> gen \<le> wz_file w \<and> storable vals \<and> (gen = wz_file w \<longrightarrow> derived (wz_values w) vals)"

definition loads_as :: "setup_options \<Rightarrow> form \<Rightarrow> submission \<Rightarrow> bool" where
  "loads_as opts form sb \<longleftrightarrow>
     (error_lines opts \<longrightarrow> accepted form sb \<longrightarrow>
      (\<exists>cfg. sb_config sb = Some cfg \<and> load (layered opts (sb_values sb)) = Inr cfg))"

definition setup_inv :: "setup_options \<Rightarrow> setup_system \<Rightarrow> bool" where
  "setup_inv opts S \<longleftrightarrow>
     (let w = ss_wizard S in
      storable (wz_values w) \<and> distinct (map pf_id (wz_pending w)) \<and>
      list_all (\<lambda>p. follows w (pf_values p) (pf_file p)) (wz_pending w) \<and>
      list_all (\<lambda>(r, form, sb). follows w (sb_values sb) (sb_file sb) \<and> holder opts r w \<and> loads_as opts form sb) (ss_flying S))"

lemma setup_base_follows:
  assumes "list_all (\<lambda>p. follows w (pf_values p) (pf_file p)) (wz_pending w)" "setup_base ident w = (vals, gen)"
  shows "gen = wz_file w \<and> derived (wz_values w) vals"
proof (cases "find (\<lambda>p. pf_id p = ident) (wz_pending w)")
  case None
  with assms(2) show ?thesis by (simp add: setup_base_def derived_file)
next
  case (Some p)
  then have "p \<in> set (wz_pending w)" by (auto simp: find_Some_iff)
  with assms(1) have "follows w (pf_values p) (pf_file p)" by (simp add: list_all_iff)
  with Some assms(2) show ?thesis by (auto simp: setup_base_def follows_def derived_file split: if_splits)
qed

lemma submit_read_follows:
  assumes "list_all (\<lambda>p. follows w (pf_values p) (pf_file p)) (wz_pending w)" "storable (wz_values w)" "CHR 0x0A \<notin> set fresh"
  shows "follows w (sb_values (submit_read opts fresh form w)) (sb_file (submit_read opts fresh form w))"
    and "loads_as opts form (submit_read opts fresh form w)"
proof -
  obtain base gen where b: "setup_base (form_get form ''form'') w = (base, gen)"
    by (cases "setup_base (form_get form ''form'') w")
  note d = setup_base_follows [OF assms(1) b]
  obtain vals err where v: "fold_form form base = (vals, err)" by (cases "fold_form form base")
  have vals: "derived (wz_values w) vals" using derived_fold [OF conjunct2 [OF d], of form] v by simp
  have sv: "setup_values (Some form) w = (vals, gen, err)" using b v by (simp add: setup_values_def)
  let ?sb = "submit_read opts fresh form w"
  have "sb_file ?sb = gen \<and> (sb_values ?sb = vals \<or>
      sb_values ?sb = AList.delete ''S2G_SMTP_PASSWORD_FILE'' (AList.update ''S2G_SMTP_PASSWORD'' fresh vals))"
    by (simp add: submit_read_def sv Let_def split: sum.split)
  then have "sb_file ?sb = gen" "derived (wz_values w) (sb_values ?sb)" using vals derived_password [OF vals assms(3)] by auto
  then show "follows w (sb_values ?sb) (sb_file ?sb)"
    using d storable_derived [OF _ assms(2)] by (simp add: follows_def)
  show "loads_as opts form ?sb"
    unfolding loads_as_def
  proof (intro impI)
    assume "error_lines opts" "accepted form ?sb"
    moreover from this have "sb_error ?sb = None" by (rule accepted_no_error)
    ultimately show "\<exists>cfg. sb_config ?sb = Some cfg \<and> load (layered opts (sb_values ?sb)) = Inr cfg"
      by (auto simp: accepted_def submit_read_def sv Let_def join_errors_def split: sum.splits option.splits)
  qed
qed

lemma follows_claim: "follows (w\<lparr>wz_token := t\<rparr>) vals gen \<longleftrightarrow> follows w vals gen"
  by (simp add: follows_def)

lemma follows_pending: "follows (w\<lparr>wz_pending := ps\<rparr>) vals gen \<longleftrightarrow> follows w vals gen"
  by (simp add: follows_def)

lemma follows_saved:
  "follows w vals gen \<Longrightarrow> follows (w\<lparr>wz_values := new, wz_pending := [], wz_file := wz_file w + 1\<rparr>) vals gen"
  by (simp add: follows_def)

lemma holder_token: "wz_token w = wz_token w' \<Longrightarrow> holder opts r w = holder opts r w'"
  by (simp add: holder_def split: option.splits)

lemma holder_claimed: "holder opts r w \<Longrightarrow> wz_token w \<noteq> None"
  by (auto simp: holder_def split: option.splits)

lemma setup_save_cases:
  assumes "setup_save opts fault tmp vals w d = (ok, w', ds)"
  shows "w' = (if ok then w\<lparr>wz_values := vals, wz_pending := [], wz_file := wz_file w + 1\<rparr> else w)"
    and "write_file fault tmp (so_path opts) (serialize (so_env opts) vals) d = (ds, ok)"
  using assms by (auto simp: setup_save_def split: prod.splits if_splits)

lemma hand_back_wizard: "hand_back opts ident form sb checks errs w = (a, w') \<Longrightarrow> w' = remember ident (sb_values sb) (sb_file sb) w"
  by (auto simp: hand_back_def Let_def)

lemma start_wizard: "start opts p token w = (a, w') \<Longrightarrow> a \<noteq> Setup_Not_Found \<Longrightarrow> wz_token w = None \<and> w' = w\<lparr>wz_token := Some (so_hash opts token)\<rparr>"
  by (auto simp: start_def split: if_splits)

lemma setup_inv_step:
  assumes "setup_next opts S T" "setup_inv opts S"
  shows "setup_inv opts T"
proof -
  let ?w = "ss_wizard S"
  from assms(2) have st: "storable (wz_values ?w)" and di: "distinct (map pf_id (wz_pending ?w))"
    and pe: "list_all (\<lambda>p. follows ?w (pf_values p) (pf_file p)) (wz_pending ?w)"
    and fl: "list_all (\<lambda>(r, form, sb). follows ?w (sb_values sb) (sb_file sb) \<and> holder opts r ?w \<and> loads_as opts form sb) (ss_flying S)"
    by (simp_all add: setup_inv_def Let_def)
  have rest: "list_all P (removeAll x (ss_flying S))" if "list_all P (ss_flying S)" for P x
    using that by (auto simp: list_all_iff)
  from assms(1) obtain e where "wizard_step opts S e T" by (auto simp: setup_next_def)
  then show ?thesis
  proof cases
    case (step_claim p token a w)
    from start_wizard [OF step_claim(3,4)] have w: "wz_token ?w = None" "w = ?w\<lparr>wz_token := Some (so_hash opts token)\<rparr>" by simp_all
    have "ss_flying S = []"
    proof (cases "ss_flying S")
      case (Cons x xs)
      with fl obtain r where "holder opts r ?w" by (cases x) auto
      with holder_claimed w(1) show ?thesis by blast
    qed simp
    with st di pe show ?thesis unfolding step_claim(2) w(2) by (simp add: setup_inv_def Let_def follows_claim)
  next
    case (step_enter r fresh form)
    with st di pe fl submit_read_follows [OF pe st step_enter(4)] show ?thesis by (simp add: setup_inv_def Let_def)
  next
    case (step_save r form sb tmp fault w ds)
    have w: "w = ?w\<lparr>wz_values := sb_values sb, wz_pending := [], wz_file := wz_file ?w + 1\<rparr>"
      using setup_save_cases(1) [OF step_save(6)] by simp
    have "storable (sb_values sb)" using fl step_save(3) by (auto simp: list_all_iff follows_def)
    moreover have "list_all (\<lambda>(r, form, sb). follows w (sb_values sb) (sb_file sb) \<and> holder opts r w \<and> loads_as opts form sb) (ss_flying S)"
    proof -
      have "follows w vals gen" if "follows ?w vals gen" for vals gen using follows_saved [OF that] w by simp
      moreover have "holder opts r w = holder opts r ?w" for r by (rule holder_token) (simp add: w)
      ultimately show ?thesis using fl by (auto simp: list_all_iff)
    qed
    ultimately show ?thesis using rest unfolding step_save(2) by (simp add: setup_inv_def Let_def w)
  next
    case (step_unsaved r form sb tmp fault w ds)
    have "w = ?w" using setup_save_cases(1) [OF step_unsaved(6)] by simp
    with st di pe fl show ?thesis unfolding step_unsaved(2) by (simp add: setup_inv_def Let_def)
  next
    case (step_hand_back r form sb ident checks errs a w)
    let ?ps = "wz_pending ?w @ [\<lparr>pf_id = ident, pf_values = sb_values sb, pf_file = sb_file sb\<rparr>]"
    have w: "w = ?w\<lparr>wz_pending := drop (length ?ps - setup_forms_kept) ?ps\<rparr>"
      using hand_back_wizard [OF step_hand_back(5)] by (simp add: remember_def Let_def)
    have "follows ?w (sb_values sb) (sb_file sb)" using fl step_hand_back(3) by (auto simp: list_all_iff)
    with pe have "list_all (\<lambda>p. follows ?w (pf_values p) (pf_file p)) (drop (length ?ps - setup_forms_kept) ?ps)"
      by (auto simp: list_all_iff dest: in_set_dropD)
    moreover have "distinct (map pf_id (drop (length ?ps - setup_forms_kept) ?ps))"
      using di step_hand_back(4) unfolding drop_map [symmetric] by (intro distinct_drop) simp
    moreover have "list_all (\<lambda>(r, form, sb). follows w (sb_values sb) (sb_file sb) \<and> holder opts r w \<and> loads_as opts form sb) (ss_flying S)"
    proof -
      have "follows w vals gen = follows ?w vals gen" for vals gen by (simp add: w follows_pending)
      moreover have "holder opts r w = holder opts r ?w" for r by (rule holder_token) (simp add: w)
      ultimately show ?thesis using fl by (auto simp: list_all_iff)
    qed
    ultimately show ?thesis using st rest unfolding step_hand_back(2) by (simp add: setup_inv_def Let_def w follows_pending)
  qed
qed

lemma setup_inv_init: "setup_init opts S \<Longrightarrow> setup_inv opts S"
  using parse_file_storable by (auto simp: setup_init_def setup_inv_def Let_def new_wizard_def storable_def)

interpretation setup_safe: invariant_system "setup_init opts" "setup_next opts" "setup_inv opts" for opts
  by unfold_locales (simp_all add: setup_inv_init setup_inv_step)


section \<open>The file that is saved\<close>

text \<open>The states of the disk while the file is written: the file is the old one or the whole new one.\<close>

lemma write_file_atomic:
  assumes "write_file fault tmp path content d = (ds, ok)" "tmp \<noteq> path"
  shows "list_all (\<lambda>d'. d' path = d path \<or> d' path = Some content) ds"
    and "ok \<Longrightarrow> ds \<noteq> [] \<and> last ds path = Some content"
    and "\<not> ok \<Longrightarrow> list_all (\<lambda>d'. d' path = d path) ds"
    and "ds \<noteq> [] \<Longrightarrow> last ds tmp = None"
  using assms by (auto simp: write_file_def Let_def split: write_fault.splits)

text \<open>Only the file decides what the loader reads.\<close>

lemma layer_cong: "map_of a = map_of b \<Longrightarrow> layer a env = layer b env"
  by (rule ext) (simp add: layer_def lookup_def)

lemma saved_loads:
  assumes "reachable_setup opts S" and "error_lines opts" and "tmp \<noteq> so_path opts"
    and "(r, form, sb) \<in> set (ss_flying S)" and "saves opts form sb"
    and "setup_save opts fault tmp (sb_values sb) (ss_wizard S) (ss_disk S) = (True, w, ds)"
  obtains kvs cfg where "parse_file (last ds) (so_path opts) = Inr kvs" "sb_config sb = Some cfg" "load (layered opts kvs) = Inr cfg"
proof -
  have inv: "setup_inv opts S" by (rule setup_safe.reachable_inv [OF assms(1)])
  with assms(4) have st: "storable (sb_values sb)" and la: "loads_as opts form sb"
    by (auto simp: setup_inv_def Let_def list_all_iff follows_def)
  have "parse_file (last ds) (so_path opts) = Inr (sorted_settings (sb_values sb))"
    using write_file_atomic(2) [OF setup_save_cases(2) [OF assms(6)] assms(3)] by (intro parse_serialized [OF st]) simp
  moreover have "layered opts (sorted_settings (sb_values sb)) = layered opts (sb_values sb)"
    using layer_cong [OF sorted_settings_facts(1) [OF st]] by (simp add: layered_def)
  moreover obtain cfg where "sb_config sb = Some cfg" "load (layered opts (sb_values sb)) = Inr cfg"
    using la assms(2,5) by (auto simp: loads_as_def saves_def)
  ultimately show ?thesis using that by metis
qed

text \<open>C16: What the wizard saves is what the next start reads. In every reachable state, with any other submissions in
  flight: when a submission that passed the checks is written, at every moment the configuration file is the old one or
  the complete new one, and the temporary file is gone afterwards. If the write fails anywhere, the file is untouched and
  so is the wizard. If it succeeds, the file parses without an error - line breaks, quotes, edge spaces and comment signs
  in values included - and loading it under the same environment gives the very configuration the wizard validated.\<close>

theorem saved_file_loads:
  assumes "reachable_setup opts S" and "error_lines opts" and "tmp \<noteq> so_path opts"
    and "(r, form, sb) \<in> set (ss_flying S)" and "saves opts form sb"
    and "setup_save opts fault tmp (sb_values sb) (ss_wizard S) (ss_disk S) = (ok, w, ds)"
  shows "list_all (\<lambda>d. d (so_path opts) = ss_disk S (so_path opts) \<or> ok \<and> d (so_path opts) = last ds (so_path opts)) ds \<and>
    (ds \<noteq> [] \<longrightarrow> last ds tmp = None) \<and> (\<not> ok \<longrightarrow> w = ss_wizard S) \<and>
    (ok \<longrightarrow> (\<exists>kvs cfg. parse_file (last ds) (so_path opts) = Inr kvs \<and> sb_config sb = Some cfg \<and>
       load (layered opts kvs) = Inr cfg \<and> wz_values w = sb_values sb))"
proof -
  note w = setup_save_cases [OF assms(6)]
  note disk = write_file_atomic [OF w(2) assms(3)]
  have "list_all (\<lambda>d. d (so_path opts) = ss_disk S (so_path opts) \<or> ok \<and> d (so_path opts) = last ds (so_path opts)) ds"
    using disk(1-3) by (cases ok) (auto simp: list_all_iff)
  moreover have "\<exists>kvs cfg. parse_file (last ds) (so_path opts) = Inr kvs \<and> sb_config sb = Some cfg \<and>
       load (layered opts kvs) = Inr cfg \<and> wz_values w = sb_values sb" if ok: ok
  proof -
    from assms(6) ok have "setup_save opts fault tmp (sb_values sb) (ss_wizard S) (ss_disk S) = (True, w, ds)" by simp
    from saved_loads [OF assms(1-5) this] obtain kvs cfg where "parse_file (last ds) (so_path opts) = Inr kvs"
      "sb_config sb = Some cfg" "load (layered opts kvs) = Inr cfg" .
    with w(1) ok show ?thesis by simp
  qed
  ultimately show ?thesis using disk(4) w(1) by simp
qed

section \<open>Who may write\<close>

inductive setup_runs :: "setup_options \<Rightarrow> setup_system \<Rightarrow> setup_event list \<Rightarrow> setup_system \<Rightarrow> bool" for opts where
  setup_runs_none: "setup_runs opts S [] S"
| setup_runs_more: "wizard_step opts S e T \<Longrightarrow> setup_runs opts T es U \<Longrightarrow> setup_runs opts S (e # es) U"

fun claims_of :: "setup_event list \<Rightarrow> string list" where
  "claims_of [] = []"
| "claims_of (Claimed t # es) = t # claims_of es"
| "claims_of (_ # es) = claims_of es"

fun writers_of :: "setup_event list \<Rightarrow> web_request list" where
  "writers_of [] = []"
| "writers_of (Saved r v # es) = r # writers_of es"
| "writers_of (_ # es) = writers_of es"

definition holds_key :: "setup_options \<Rightarrow> string \<Rightarrow> web_request \<Rightarrow> bool" where
  "holds_key opts hash r = (case cookie r setup_cookie of None \<Rightarrow> False | Some c \<Rightarrow> c \<noteq> [] \<and> so_hash opts c = hash)"

lemma holder_holds_key: "holder opts r w \<longleftrightarrow> (case wz_token w of None \<Rightarrow> False | Some h \<Rightarrow> holds_key opts h r)"
  by (auto simp: holder_def holds_key_def token_ok_def split: option.splits)

lemma flying_holder: "setup_inv opts S \<Longrightarrow> (r, form, sb) \<in> set (ss_flying S) \<Longrightarrow> holder opts r (ss_wizard S)"
  by (auto simp: setup_inv_def Let_def list_all_iff)

lemma setup_step_token:
  assumes "wizard_step opts S e T"
  shows "(case e of Claimed t \<Rightarrow> wz_token (ss_wizard S) = None \<and> wz_token (ss_wizard T) = Some (so_hash opts t)
          | _ \<Rightarrow> wz_token (ss_wizard T) = wz_token (ss_wizard S))"
  using assms
proof cases
  case (step_claim p token a w)
  with start_wizard [OF step_claim(3,4)] show ?thesis by simp
next
  case (step_save r form sb tmp fault w ds)
  with setup_save_cases(1) [OF step_save(6)] show ?thesis by simp
next
  case (step_unsaved r form sb tmp fault w ds)
  with setup_save_cases(1) [OF step_unsaved(6)] show ?thesis by simp
next
  case (step_hand_back r form sb ident checks errs a w)
  with hand_back_wizard [OF step_hand_back(5)] show ?thesis by (simp add: remember_def Let_def)
qed simp

lemma setup_step_disk:
  assumes "wizard_step opts S e T"
  shows "(\<exists>r v. e = Saved r v) \<or> ss_disk T (so_path opts) = ss_disk S (so_path opts)"
  using assms
proof cases
  case (step_unsaved r form sb tmp fault w ds)
  with write_file_atomic(3) [OF setup_save_cases(2) [OF step_unsaved(6)] step_unsaved(5)] show ?thesis
    by (auto simp: list_all_iff)
qed simp_all

lemma setup_run_key:
  assumes "setup_runs opts S es T" "reachable_setup opts S" "wz_token (ss_wizard S) = Some h"
  shows "claims_of es = [] \<and> list_all (holds_key opts h) (writers_of es) \<and>
    (writers_of es = [] \<longrightarrow> ss_disk T (so_path opts) = ss_disk S (so_path opts))"
  using assms
proof (induction rule: setup_runs.induct)
  case (setup_runs_more S e T es U)
  note tok = setup_step_token [OF setup_runs_more.hyps(1)]
  have "reachable_setup opts T" using setup_runs_more.prems(1) setup_runs_more.hyps(1) by (metis reach_step setup_next_def)
  moreover have "wz_token (ss_wizard T) = Some h" using tok setup_runs_more.prems(2) by (cases e) auto
  ultimately have IH: "claims_of es = [] \<and> list_all (holds_key opts h) (writers_of es) \<and>
    (writers_of es = [] \<longrightarrow> ss_disk U (so_path opts) = ss_disk T (so_path opts))" by (rule setup_runs_more.IH)
  have key: "holds_key opts h r" if "e = Saved r v" for r v
  proof -
    from setup_runs_more.hyps(1) that obtain form sb where "(r, form, sb) \<in> set (ss_flying S)" by cases auto
    with flying_holder setup_safe.reachable_inv [OF setup_runs_more.prems(1)] have "holder opts r (ss_wizard S)" by blast
    with setup_runs_more.prems(2) show ?thesis by (simp add: holder_holds_key)
  qed
  show ?case
    using IH key tok setup_runs_more.prems(2) setup_step_disk [OF setup_runs_more.hyps(1)] by (cases e) auto
qed simp

lemma setup_runs_token: "setup_runs opts S es T \<Longrightarrow> wz_token (ss_wizard S) = Some h \<Longrightarrow> wz_token (ss_wizard T) = Some h"
proof (induction rule: setup_runs.induct)
  case (setup_runs_more S e T es U)
  then show ?case using setup_step_token [OF setup_runs_more.hyps(1)] by (cases e) auto
qed simp


section \<open>What a page folds into\<close>


text \<open>
  The abstract specification of what the pages remember: the file, and the pages that hold an answer to it. A save is a
  new file that no page has answered.
\<close>

record page_memory =
  pm_file :: settings_map
  pm_pages :: "string \<rightharpoonup> settings_map"

definition pm_base :: "string \<Rightarrow> page_memory \<Rightarrow> settings_map" where
  "pm_base ident m = (case pm_pages m ident of None \<Rightarrow> pm_file m | Some vals \<Rightarrow> vals)"

definition pm_save :: "settings_map \<Rightarrow> page_memory \<Rightarrow> page_memory" where
  "pm_save vals m = \<lparr>pm_file = vals, pm_pages = Map.empty\<rparr>"

definition pm_remember :: "string \<Rightarrow> settings_map \<Rightarrow> page_memory \<Rightarrow> page_memory" where
  "pm_remember ident vals m = m\<lparr>pm_pages := (pm_pages m)(ident \<mapsto> vals)\<rparr>"

text \<open>What is remembered may be forgotten at any time: the page then folds into the file.\<close>

definition pm_forgets :: "page_memory \<Rightarrow> page_memory \<Rightarrow> bool" where
  "pm_forgets m m' \<longleftrightarrow> pm_file m' = pm_file m \<and> pm_pages m' \<subseteq>\<^sub>m pm_pages m"

definition memory_of :: "wizard \<Rightarrow> page_memory" where
  "memory_of w = \<lparr>pm_file = wz_values w,
     pm_pages = (\<lambda>k. case find (\<lambda>p. pf_id p = k) (wz_pending w) of
                       None \<Rightarrow> None | Some p \<Rightarrow> if pf_file p = wz_file w then Some (pf_values p) else None)\<rparr>"

lemma find_append: "find P (xs @ ys) = (case find P xs of None \<Rightarrow> find P ys | Some x \<Rightarrow> Some x)"
  by (induction xs) auto

lemma find_drop:
  "distinct (map f xs) \<Longrightarrow> find (\<lambda>x. f x = k) (drop n xs) = Some y \<Longrightarrow> find (\<lambda>x. f x = k) xs = Some y"
proof (induction xs arbitrary: n)
  case (Cons x xs)
  show ?case
  proof (cases n)
    case (Suc m)
    with Cons have "find (\<lambda>x. f x = k) xs = Some y" by simp
    moreover from this have "y \<in> set xs" "f y = k" by (auto simp: find_Some_iff)
    ultimately show ?thesis using Cons.prems(1) by auto
  qed (use Cons in simp)
qed simp

text \<open>The wizard's page memory - a short list of remembered forms, each with the generation of the file it was folded
  into - refines the specification: reading the base of a page, saving, and remembering a page do what the specification
  does, except that remembering may forget older pages, and that a page whose answer is older than the file is not
  remembered at all.\<close>

theorem page_memory_refined:
  assumes "distinct (map pf_id (wz_pending w))" and "ident \<notin> set (map pf_id (wz_pending w))"
    and "setup_save opts fault tmp vals w d = (True, w', ds)"
  shows "fst (setup_base k w) = pm_base k (memory_of w) \<and>
    memory_of w' = pm_save vals (memory_of w) \<and>
    pm_forgets (if gen = wz_file w then pm_remember ident vals (memory_of w) else memory_of w) (memory_of (remember ident vals gen w)) \<and>
    (gen = wz_file w \<longrightarrow> fst (setup_base ident (remember ident vals gen w)) = vals)"
proof -
  let ?new = "\<lparr>pf_id = ident, pf_values = vals, pf_file = gen\<rparr>" and ?ps = "wz_pending w"
  let ?n = "length ?ps + 1 - setup_forms_kept"
  have rem: "remember ident vals gen w = w\<lparr>wz_pending := drop ?n ?ps @ [?new]\<rparr>"
    by (simp add: remember_def setup_forms_kept_def)
  have id_none: "find (\<lambda>p. pf_id p = ident) (drop m ?ps) = None" for m
    using assms(2) by (auto simp: find_None_iff dest: in_set_dropD)
  have "fst (setup_base k w) = pm_base k (memory_of w)"
    by (auto simp: setup_base_def pm_base_def memory_of_def split: option.splits)
  moreover have "memory_of w' = pm_save vals (memory_of w)"
    using setup_save_cases(1) [OF assms(3)] by (simp add: memory_of_def pm_save_def)
  moreover have "pm_forgets (if gen = wz_file w then pm_remember ident vals (memory_of w) else memory_of w)
      (memory_of (remember ident vals gen w))"
  proof -
    have "pm_pages (memory_of (remember ident vals gen w)) k =
        (if k = ident then (if gen = wz_file w then Some vals else None)
         else case find (\<lambda>p. pf_id p = k) (drop ?n ?ps) of
                None \<Rightarrow> None | Some p \<Rightarrow> if pf_file p = wz_file w then Some (pf_values p) else None)" for k
      using id_none by (auto simp: memory_of_def rem find_append split: option.splits)
    moreover have "find (\<lambda>p. pf_id p = k) ?ps = Some y" if "find (\<lambda>p. pf_id p = k) (drop ?n ?ps) = Some y" for k y
      using find_drop [OF assms(1) that] .
    ultimately show ?thesis
      by (auto simp: pm_forgets_def pm_remember_def map_le_def dom_def memory_of_def rem split: option.splits if_splits)
  qed
  moreover have "gen = wz_file w \<longrightarrow> fst (setup_base ident (remember ident vals gen w)) = vals"
    unfolding setup_base_def rem using id_none by (simp add: find_append)
  ultimately show ?thesis by blast
qed

section \<open>An example\<close>

text \<open>The whole configuration comes from the environment; the browser that claims the wizard saves an empty form.\<close>

definition ex_opts :: setup_options where
  "ex_opts = \<lparr>so_env = ex_env, so_path = ''/c'', so_on_saved = False, so_hash = (\<lambda>t. t), so_text = (\<lambda>_. ''e''), so_quote = (\<lambda>s. s)\<rparr>"

definition ex_key :: web_request where
  "ex_key = \<lparr>wq_method = ''POST'', wq_segments = [''setup''], wq_query = [], wq_cookies = [(setup_cookie, ''T'')]\<rparr>"

definition ex_fresh :: setup_system where
  "ex_fresh = \<lparr>ss_wizard = new_wizard [] None, ss_disk = Map.empty, ss_flying = []\<rparr>"

definition ex_claimed :: setup_system where
  "ex_claimed = ex_fresh\<lparr>ss_wizard := new_wizard [] (Some ''T'')\<rparr>"

definition ex_submission :: submission where
  "ex_submission = \<lparr>sb_values = [], sb_file = 0, sb_fold_error = None, sb_error = None, sb_config = Some ex_loaded, sb_generated = []\<rparr>"

definition ex_entered :: setup_system where
  "ex_entered = ex_claimed\<lparr>ss_flying := [(ex_key, [], ex_submission)]\<rparr>"

lemma ex_fold: "fold_form [] [] = ([], None)"
proof -
  have "fold (fold_field []) fs ([], None) = ([], None)" for fs
    by (induction fs) (simp_all add: fold_field_def form_has_def form_get_def form_all_def clean_value_def Let_def lookup_def)
  then show ?thesis by (simp add: fold_form_def)
qed

lemma ex_layered: "layered ex_opts [] = ex_env"
proof -
  have "layer [] g = g" for g by (rule ext) (simp add: layer_def lookup_def)
  then show ?thesis by (simp add: layered_def ex_opts_def)
qed

lemma ex_submit_read: "submit_read ex_opts ''R'' [] (ss_wizard ex_claimed) = ex_submission"
proof -
  have "setup_values (Some []) (ss_wizard ex_claimed) = ([], 0, None)"
    by (simp add: setup_values_def setup_base_def ex_fold ex_claimed_def new_wizard_def form_get_def form_all_def)
  moreover have "form_get [] ''action'' \<noteq> ''generate-smtp-password''" by (simp add: form_get_def form_all_def)
  ultimately show ?thesis
    by (simp add: submit_read_def ex_layered ex_load ex_submission_def Let_def)
qed

lemma ex_claim_step: "wizard_step ex_opts ex_fresh (Claimed ''T'') ex_claimed"
proof -
  have "start ex_opts [] ''T'' (ss_wizard ex_fresh) =
      (Setup_Redirect ''/setup'' (Some (token_cookie [] ''T'')), new_wizard [] (Some ''T''))"
    by (simp add: start_def ex_fresh_def new_wizard_def ex_opts_def)
  from step_claim [OF this] show ?thesis by (simp add: ex_claimed_def)
qed

lemma ex_enter_step: "wizard_step ex_opts ex_claimed (Entered ex_key) ex_entered"
proof -
  have "holder ex_opts ex_key (ss_wizard ex_claimed)"
    by (simp add: holder_def ex_claimed_def new_wizard_def ex_key_def cookie_def token_ok_def ex_opts_def)
  from step_enter [OF this, of "''R''" "[]", unfolded ex_submit_read] show ?thesis
    by (simp add: ex_entered_def ex_claimed_def ex_fresh_def)
qed

lemma ex_setup_reachable: "reachable_setup ex_opts ex_fresh" "reachable_setup ex_opts ex_entered"
proof -
  show f: "reachable_setup ex_opts ex_fresh" by (rule reach_init) (auto simp: setup_init_def ex_fresh_def)
  have "reachable_setup ex_opts ex_claimed" by (rule reach_step [OF f]) (use ex_claim_step in \<open>auto simp: setup_next_def\<close>)
  then show "reachable_setup ex_opts ex_entered" by (rule reach_step) (use ex_enter_step in \<open>auto simp: setup_next_def\<close>)
qed

lemma ex_saves: "saves ex_opts [] ex_submission"
  by (simp add: saves_def accepted_def ex_submission_def attribute_def ex_opts_def form_get_def form_all_def)

definition ex_written :: "files_on_disk list" where
  "ex_written = fst (write_file No_Fault ''/t'' ''/c'' (serialize ex_env []) Map.empty)"

lemma ex_save: "setup_save ex_opts No_Fault ''/t'' (sb_values ex_submission) (ss_wizard ex_entered) (ss_disk ex_entered) =
    (True, \<lparr>wz_values = [], wz_pending = [], wz_file = 1, wz_token = Some ''T''\<rparr>, ex_written)"
  by (simp add: setup_save_def write_file_def Let_def ex_opts_def ex_submission_def ex_entered_def ex_claimed_def ex_fresh_def
        new_wizard_def ex_written_def)

lemma ex_flying: "(ex_key, [], ex_submission) \<in> set (ss_flying ex_entered)"
  by (simp add: ex_entered_def)

theorem saved_file_loads_witness:
  "\<exists>kvs. parse_file (last ex_written) ''/c'' = Inr kvs \<and> load (layered ex_opts kvs) = Inr ex_loaded"
proof -
  have "error_lines ex_opts" "''/t'' \<noteq> so_path ex_opts" by (simp_all add: error_lines_def ex_opts_def)
  from saved_file_loads [OF ex_setup_reachable(2) this ex_flying ex_saves ex_save] show ?thesis
    by (auto simp: ex_opts_def [THEN arg_cong, of so_path] ex_submission_def)
qed



theorem page_memory_refined_witness:
  "memory_of \<lparr>wz_values = [], wz_pending = [], wz_file = 1, wz_token = Some ''T''\<rparr> = pm_save [] (memory_of (ss_wizard ex_entered))"
proof -
  have "distinct (map pf_id (wz_pending (ss_wizard ex_entered)))" "''p'' \<notin> set (map pf_id (wz_pending (ss_wizard ex_entered)))"
    by (simp_all add: ex_entered_def ex_claimed_def ex_fresh_def new_wizard_def)
  from page_memory_refined [OF this ex_save] show ?thesis by (simp add: ex_submission_def)
qed

end
