(* ===== verification/Setup_Server.thy ===== *)
theory Setup_Server
  imports Setup_System Web_Ui
begin

text \<open>
  The handler \<open>NewSetup\<close> returns: the bare address in front of the gate, the gate, and the wizard's own routes behind it.
  A request that is handled alone is a run of the wizard's steps, so the invariants of those steps hold for the handler;
  and whatever happens between the gate and the handler, a browser without the key gets nothing.
\<close>

section \<open>Routing\<close>

datatype setup_route = S_Home | S_Form | S_Start | S_Submit | S_Static | S_None

definition setup_route_of :: "string \<Rightarrow> string \<Rightarrow> string list \<Rightarrow> setup_route" where
  "setup_route_of base meth segs =
     (let n = length (prefix_segments base); reading = (meth = ''GET'' \<or> meth = ''HEAD'') in
      if take n segs \<noteq> prefix_segments base then S_None
      else (case drop n segs of
              [a] \<Rightarrow>
                if a = [] then (if reading \<and> base \<noteq> [] then S_Home else S_None)
                else if a = ''setup'' then (if reading then S_Form else if meth = ''POST'' then S_Submit else S_None)
                else S_None
            | a # b # rest \<Rightarrow>
                if a = ''setup'' \<and> b = ''start'' \<and> rest = [] then (if meth = ''POST'' then S_Start else S_None)
                else if a = ''static'' \<and> reading then S_Static else S_None
            | [] \<Rightarrow> S_None))"

text \<open>
  One request and what surrounds its handling: the parsed form (\<open>None\<close> when it is malformed or too large), the random
  texts it may draw, what the connection test answers, the fault of the write, and what other requests do to the wizard
  between the gate and the handler, and between reading the settings and saving them.
\<close>

record setup_call =
  sc_request :: web_request
  sc_form :: "form option"
  sc_token :: string
  sc_password :: string
  sc_ident :: string
  sc_checks :: "config \<Rightarrow> check_result list"
  sc_fault :: write_fault
  sc_tmp :: path
  sc_at_gate :: "wizard \<Rightarrow> wizard"
  sc_meanwhile :: "wizard \<Rightarrow> wizard"

definition setup_home :: "string \<Rightarrow> setup_answer" where
  "setup_home base = Setup_Redirect (base @ ''/setup'') None"

definition setup_form :: "setup_options \<Rightarrow> string \<Rightarrow> web_request \<Rightarrow> wizard \<Rightarrow> setup_answer" where
  "setup_form opts ident r wz =
     (if \<not> holder opts r wz then Setup_Claim
      else Setup_Page ident (view_groups (so_env opts) (fst (setup_values None wz)) [] None) [] [] [])"

definition setup_routes ::
  "setup_options \<Rightarrow> string \<Rightarrow> setup_call \<Rightarrow> wizard \<Rightarrow> files_on_disk \<Rightarrow> setup_answer \<times> wizard \<times> files_on_disk list" where
  "setup_routes opts base c wz d =
     (let r = sc_request c in
      case setup_route_of base (wq_method r) (wq_segments r) of
        S_Home \<Rightarrow> (setup_home base, wz, [])
      | S_Form \<Rightarrow> (setup_form opts (sc_ident c) r wz, wz, [])
      | S_Start \<Rightarrow> (case start opts base (sc_token c) wz of (a, w) \<Rightarrow> (a, w, []))
      | S_Submit \<Rightarrow> submit opts (sc_password c) (sc_ident c) (sc_checks c) (sc_fault c) (sc_tmp c) (sc_meanwhile c) r (sc_form c) wz d
      | S_Static \<Rightarrow> (Setup_Static, wz, [])
      | S_None \<Rightarrow> (Setup_Mux, wz, []))"

definition setup_handle ::
  "setup_options \<Rightarrow> string \<Rightarrow> setup_call \<Rightarrow> wizard \<Rightarrow> files_on_disk \<Rightarrow> setup_answer \<times> wizard \<times> files_on_disk list" where
  "setup_handle opts base c wz d =
     (let r = sc_request c in
      if wq_segments r = [[]] \<and> (wq_method r = ''GET'' \<or> wq_method r = ''HEAD'') then (setup_home base, wz, [])
      else (case admit opts base r wz of
              Some a \<Rightarrow> (a, wz, [])
            | None \<Rightarrow> setup_routes opts base c (sc_at_gate c wz) d))"

section \<open>Without the key\<close>

fun discloses :: "setup_answer \<Rightarrow> bool" where
  "discloses (Setup_Page _ _ _ _ _) = True"
| "discloses (Setup_Saved _ _ _ _) = True"
| "discloses (Setup_Download _) = True"
| "discloses _ = False"

fun given_cookie :: "setup_answer \<Rightarrow> set_cookie option" where
  "given_cookie (Setup_Redirect _ ck) = ck"
| "given_cookie _ = None"

definition carries_token :: "setup_options \<Rightarrow> web_request \<Rightarrow> wizard \<Rightarrow> bool" where
  "carries_token opts r wz \<longleftrightarrow> token_ok (so_hash opts) (query_get r ''t'') (wz_token wz)"

lemma start_answer:
  "fst (start opts base token wz) = Setup_Not_Found \<or>
   (wz_token wz = None \<and> given_cookie (fst (start opts base token wz)) = Some (token_cookie base token))"
  by (simp add: start_def)

lemma start_discloses [simp]: "\<not> discloses (fst (start opts base token wz))"
  by (simp add: start_def)

lemma start_keeps: "wz_token wz \<noteq> None \<Longrightarrow> start opts base token wz = (Setup_Not_Found, wz)"
  by (simp add: start_def)

lemma start_values: "wz_values (snd (start opts base token wz)) = wz_values wz"
  by (simp add: start_def)

lemma routes_without_key:
  assumes "\<not> holder opts (sc_request c) wz" "setup_routes opts base c wz d = (a, w, ds)"
  shows "\<not> discloses a" "ds = []" "wz_values w = wz_values wz" "wz_token wz \<noteq> None \<Longrightarrow> w = wz"
    "given_cookie a = None \<or> (wz_token wz = None \<and> given_cookie a = Some (token_cookie base (sc_token c)) \<and>
       wz_token w = Some (so_hash opts (sc_token c)))"
  using assms by (auto simp: setup_routes_def Let_def setup_home_def setup_form_def submit_without_key start_def
      split: setup_route.splits if_splits)

text \<open>C20: Who has not got the key gets nothing. Take any request that carries the wizard's token neither in its cookie nor in
  its address, at the moment it is handled, whatever it asks for, and whatever other requests do between the gate and its
  handler. It is never shown the form, the saved page or the file; nothing is written to the disk and no setting changes.
  It is given a cookie only where it claims a wizard nobody has claimed, and then with the token just minted for it. Of a
  wizard that is claimed when it reaches the gate it learns nothing at all but where the wizard is: it is answered like a
  page that does not exist, or sent from the bare address to the wizard's.\<close>

theorem stranger_gets_nothing:
  assumes "setup_handle opts base c wz d = (a, w, ds)"
    and "\<not> carries_token opts (sc_request c) wz"
    and "\<not> holder opts (sc_request c) (sc_at_gate c wz)"
  shows "\<not> discloses a \<and> ds = [] \<and> (wz_values w = wz_values wz \<or> wz_values w = wz_values (sc_at_gate c wz)) \<and>
    (\<forall>ck. given_cookie a = Some ck \<longrightarrow> ck = token_cookie base (sc_token c) \<and>
       wz_token (sc_at_gate c wz) = None \<and> wz_token w = Some (so_hash opts (sc_token c))) \<and>
    (wz_token wz \<noteq> None \<and> \<not> holder opts (sc_request c) wz \<longrightarrow> w = wz \<and> (a = Setup_Not_Found \<or> a = setup_home base))"
proof (cases "wq_segments (sc_request c) = [[]] \<and> (wq_method (sc_request c) = ''GET'' \<or> wq_method (sc_request c) = ''HEAD'')")
  case True
  with assms(1) show ?thesis by (auto simp: setup_handle_def Let_def setup_home_def)
next
  case False
  show ?thesis
  proof (cases "admit opts base (sc_request c) wz")
    case None
    have routes: "setup_routes opts base c (sc_at_gate c wz) d = (a, w, ds)"
      using assms(1) None False by (auto simp: setup_handle_def Let_def)
    have "wz_token wz = None \<or> holder opts (sc_request c) wz" using None by (auto simp: admit_def Let_def split: if_splits)
    with routes_without_key [OF assms(3) routes] show ?thesis by auto
  next
    case (Some b)
    with assms(2) have "b = Setup_Not_Found" by (auto simp: admit_def Let_def carries_token_def split: if_splits)
    with Some assms(1) False show ?thesis by (auto simp: setup_handle_def Let_def)
  qed
qed

section \<open>A request handled alone\<close>

lemma routes_cases:
  assumes "setup_routes opts base c wz d = (a, w, ds)"
  shows "(w = wz \<and> ds = []) \<or> (start opts base (sc_token c) wz = (a, w) \<and> ds = []) \<or>
    submit opts (sc_password c) (sc_ident c) (sc_checks c) (sc_fault c) (sc_tmp c) (sc_meanwhile c) (sc_request c) (sc_form c) wz d = (a, w, ds)"
  using assms
  by (cases "setup_route_of base (wq_method (sc_request c)) (wq_segments (sc_request c))")
     (simp_all add: setup_routes_def Let_def split: prod.splits)

lemma start_refused: "start opts base token wz = (Setup_Not_Found, w) \<Longrightarrow> w = wz"
  by (simp add: start_def split: if_splits)

lemma submit_cases:
  assumes "submit opts fresh ident checks fault tmp env r form wz d = (a, w, ds)"
  shows "(w = wz \<and> ds = []) \<or> (holder opts r wz \<and> form \<noteq> None)"
proof (cases "holder opts r wz \<and> form \<noteq> None")
  case False
  then have "submit opts fresh ident checks fault tmp env r form wz d =
      ((if holder opts r wz then Setup_Bad_Request else Setup_Not_Found), wz, [])"
    by (auto simp: submit_def)
  with assms show ?thesis by simp
qed simp

lemma submit_runs:
  assumes "holder opts r (ss_wizard S)" "CHR 0x0A \<notin> set fresh" "tmp \<noteq> so_path opts"
    and "ident \<notin> set (map pf_id (wz_pending (ss_wizard S)))"
    and "submit opts fresh ident checks fault tmp (\<lambda>w. w) r (Some form) (ss_wizard S) (ss_disk S) = (a, w, ds)"
  shows "\<exists>es T. setup_runs opts S es T \<and> ss_wizard T = w \<and> ss_disk T = (if ds = [] then ss_disk S else last ds)"
proof -
  define sb where "sb = submit_read opts fresh form (ss_wizard S)"
  define E where "E = S\<lparr>ss_flying := (r, form, sb) # ss_flying S\<rparr>"
  have enter: "wizard_step opts S (Entered r) E" unfolding E_def sb_def by (rule step_enter [OF assms(1,2)])
  have fly: "(r, form, sb) \<in> set (ss_flying E)" by (simp add: E_def)
  have wz [simp]: "ss_wizard E = ss_wizard S" "ss_disk E = ss_disk S" by (simp_all add: E_def)
  have one: "setup_runs opts S [Entered r, e] T" if "wizard_step opts E e T" for e T
    by (intro setup_runs_more [OF enter] setup_runs_more [OF that] setup_runs_none)
  from submit_steps [OF assms(5,1)] consider
      (none) "w = ss_wizard S" "ds = []"
    | (saved) "saves opts form sb" "setup_save opts fault tmp (sb_values sb) (ss_wizard S) (ss_disk S) = (True, w, ds)"
    | (failed) w1 errs where "saves opts form sb" "setup_save opts fault tmp (sb_values sb) (ss_wizard S) (ss_disk S) = (False, w1, ds)"
        "hand_back opts ident form sb [] errs w1 = (a, w)"
    | (handed) cs errs where "ds = []" "hand_back opts ident form sb cs errs (ss_wizard S) = (a, w)"
    unfolding sb_def by blast
  then show ?thesis
  proof cases
    case none
    then show ?thesis using setup_runs_none by fastforce
  next
    case saved
    have "ds \<noteq> []" using write_file_atomic(2) [OF setup_save_cases(2) [OF saved(2)] assms(3)] by simp
    with one [OF step_save [OF fly saved(1) assms(3)]] saved(2) show ?thesis by fastforce
  next
    case failed
    let ?U = "E\<lparr>ss_wizard := w1, ss_disk := (if ds = [] then ss_disk E else last ds)\<rparr>"
    have w1: "w1 = ss_wizard S" using setup_save_cases(1) [OF failed(2)] by simp
    have u: "wizard_step opts E (Unsaved r) ?U" by (rule step_unsaved [OF fly failed(1) assms(3), where fault = fault]) (simp add: failed(2))
    have b: "wizard_step opts ?U (Handed_Back ident) (?U\<lparr>ss_wizard := w, ss_flying := removeAll (r, form, sb) (ss_flying ?U)\<rparr>)"
      by (rule step_hand_back) (use fly assms(4) failed(3) w1 in auto)
    have "setup_runs opts S [Entered r, Unsaved r, Handed_Back ident] (?U\<lparr>ss_wizard := w, ss_flying := removeAll (r, form, sb) (ss_flying ?U)\<rparr>)"
      by (intro setup_runs_more [OF enter] setup_runs_more [OF u] setup_runs_more [OF b] setup_runs_none)
    then show ?thesis by fastforce
  next
    case handed
    have "wizard_step opts E (Handed_Back ident) (E\<lparr>ss_wizard := w, ss_flying := removeAll (r, form, sb) (ss_flying E)\<rparr>)"
      by (rule step_hand_back [OF fly]) (use assms(4) handed(2) in auto)
    from one [OF this] handed(1) show ?thesis by fastforce
  qed
qed

text \<open>C21: The handler does nothing but the wizard's steps. Any request, handled while no other runs, takes the wizard and the disk
  where a run of the claim, enter, save and hand-back steps takes them; so everything shown of those steps (one holder,
  the saved file loads, pages follow the file) is true of the server that \<open>NewSetup\<close> returns.\<close>

theorem setup_handle_refines_steps:
  assumes "setup_handle opts base c (ss_wizard S) (ss_disk S) = (a, w, ds)"
    and "sc_at_gate c = (\<lambda>x. x)" and "sc_meanwhile c = (\<lambda>x. x)"
    and "CHR 0x0A \<notin> set (sc_password c)" and "sc_tmp c \<noteq> so_path opts"
    and "sc_ident c \<notin> set (map pf_id (wz_pending (ss_wizard S)))"
  shows "\<exists>es T. setup_runs opts S es T \<and> ss_wizard T = w \<and> ss_disk T = (if ds = [] then ss_disk S else last ds)"
proof -
  consider (same) "w = ss_wizard S" "ds = []"
    | (routed) "setup_routes opts base c (ss_wizard S) (ss_disk S) = (a, w, ds)"
    using assms(1,2) by (auto simp: setup_handle_def Let_def split: option.splits if_splits)
  then consider (same) "w = ss_wizard S" "ds = []"
    | (started) "start opts base (sc_token c) (ss_wizard S) = (a, w)" "ds = []" "a \<noteq> Setup_Not_Found"
    | (entered) f where "holder opts (sc_request c) (ss_wizard S)"
        "submit opts (sc_password c) (sc_ident c) (sc_checks c) (sc_fault c) (sc_tmp c) (\<lambda>x. x) (sc_request c) (Some f)
           (ss_wizard S) (ss_disk S) = (a, w, ds)"
  proof cases
    case routed
    from routes_cases [OF this] show ?thesis
    proof (elim disjE conjE)
      assume "start opts base (sc_token c) (ss_wizard S) = (a, w)" "ds = []"
      then show ?thesis using that(1,2) start_refused [of opts base "sc_token c" "ss_wizard S" w] by blast
    next
      assume sub: "submit opts (sc_password c) (sc_ident c) (sc_checks c) (sc_fault c) (sc_tmp c) (sc_meanwhile c) (sc_request c)
        (sc_form c) (ss_wizard S) (ss_disk S) = (a, w, ds)"
      from submit_cases [OF this] sub show ?thesis using that(1,3) assms(3) by (cases "sc_form c") auto
    qed (rule that(1))
  qed
  then show ?thesis
  proof cases
    case same
    then show ?thesis using setup_runs_none by fastforce
  next
    case started
    from setup_runs_more [OF step_claim [OF started(1,3)] setup_runs_none] started(2) show ?thesis by fastforce
  next
    case entered
    from submit_runs [OF entered(1) assms(4,5,6) entered(2)] show ?thesis .
  qed
qed

section \<open>The theorems at a concrete input\<close>

definition ex_call :: "string \<Rightarrow> string list \<Rightarrow> setup_call" where
  "ex_call meth segs =
     \<lparr>sc_request = \<lparr>wq_method = meth, wq_segments = segs, wq_query = [], wq_cookies = []\<rparr>, sc_form = Some [], sc_token = ''U'',
      sc_password = ''R'', sc_ident = ''i'', sc_checks = (\<lambda>_. []), sc_fault = No_Fault, sc_tmp = ''/t'',
      sc_at_gate = (\<lambda>x. x), sc_meanwhile = (\<lambda>x. x)\<rparr>"

theorem stranger_gets_nothing_witness:
  "fst (setup_handle ex_opts [] (ex_call ''POST'' [''setup'']) (ss_wizard ex_claimed) Map.empty) = Setup_Not_Found \<or>
   fst (setup_handle ex_opts [] (ex_call ''POST'' [''setup'']) (ss_wizard ex_claimed) Map.empty) = setup_home []"
proof -
  have c: "\<not> carries_token ex_opts (sc_request (ex_call ''POST'' [''setup''])) (ss_wizard ex_claimed)"
    by (simp add: carries_token_def token_ok_def query_get_def lookup_def ex_call_def)
  have h: "\<not> holder ex_opts (sc_request (ex_call ''POST'' [''setup''])) (ss_wizard ex_claimed)"
    "wz_token (ss_wizard ex_claimed) \<noteq> None" "sc_at_gate (ex_call ''POST'' [''setup'']) = (\<lambda>x. x)"
    by (simp_all add: holder_def ex_claimed_def new_wizard_def ex_call_def cookie_def)
  obtain a w ds where e: "setup_handle ex_opts [] (ex_call ''POST'' [''setup'']) (ss_wizard ex_claimed) Map.empty = (a, w, ds)"
    by (cases "setup_handle ex_opts [] (ex_call ''POST'' [''setup'']) (ss_wizard ex_claimed) Map.empty")
  from stranger_gets_nothing [OF e c] h show ?thesis by (simp add: e)
qed

theorem setup_handle_refines_steps_witness:
  "\<exists>es T. setup_runs ex_opts ex_fresh es T \<and> ss_wizard T = (ss_wizard ex_fresh)\<lparr>wz_token := Some ''U''\<rparr> \<and> ss_disk T = ss_disk ex_fresh"
proof -
  have "setup_handle ex_opts [] (ex_call ''POST'' [''setup'', ''start'']) (ss_wizard ex_fresh) (ss_disk ex_fresh) =
    (Setup_Redirect ''/setup'' (Some (token_cookie [] ''U'')), (ss_wizard ex_fresh)\<lparr>wz_token := Some ''U''\<rparr>, [])"
  proof -
    have "setup_route_of [] ''POST'' [''setup'', ''start''] = S_Start" by code_simp
    then show ?thesis
      by (simp add: setup_handle_def Let_def admit_def token_ok_def ex_fresh_def new_wizard_def setup_routes_def start_def ex_call_def ex_opts_def)
  qed
  from setup_handle_refines_steps [OF this] show ?thesis
    by (simp add: ex_call_def ex_opts_def ex_fresh_def new_wizard_def)
qed

end
