(* ===== verification/Setup_Check_Properties.thy ===== *)
theory Setup_Check_Properties
  imports Setup_Check Config_Properties
begin

text \<open>
  The lines of the connection test do not show the client secret: striking out both spellings leaves neither, and cutting a
  line only takes whole characters off its end.
\<close>

section \<open>Striking out\<close>

lemma contains_iff: "contains x s \<longleftrightarrow> (\<exists>u v. s = u @ x @ v)"
proof (induction s)
  case (Cons c cs)
  have "(\<exists>u v. c # cs = u @ x @ v) \<longleftrightarrow> prefix x (c # cs) \<or> (\<exists>u v. cs = u @ x @ v)"
    by (auto simp: prefix_def Cons_eq_append_conv)
  with Cons show ?case by simp
qed simp

lemma contains_append_disjoint:
  assumes "x \<noteq> []" "set x \<inter> set q = {}" "contains x (p @ q)"
  shows "contains x p"
proof -
  from assms(3) obtain u v where "p @ q = (u @ x) @ v" by (auto simp: contains_iff)
  then consider (in_p) us where "p = (u @ x) @ us" | (over) us where "u @ x = p @ us" "q = us @ v"
    unfolding append_eq_append_conv2 [of p q "u @ x" v] by metis
  then show ?thesis
  proof cases
    case over
    have "us = []"
    proof (rule ccontr)
      assume us: "us \<noteq> []"
      with over(1) have "last us = last x" using assms(1) by (metis last_appendR)
      with us assms(1) have "last x \<in> set x \<inter> set q" using over(2) last_in_set [of us] by auto
      with assms(2) show False by blast
    qed
    with over(1) show ?thesis by (auto simp: contains_iff intro: exI [of _ u] exI [of _ "[]"])
  qed (auto simp: contains_iff)
qed

text \<open>What replaces a match begins with a star, so a text without stars that is left was there before.\<close>

lemma replace_all_Nil: "replace_all old new [] = []"
  by (simp add: replace_all.simps)

lemma replace_all_Cons:
  "replace_all old new (c # cs) =
     (if old \<noteq> [] \<and> prefix old (c # cs) then new @ replace_all old new (drop (length old) (c # cs))
      else c # replace_all old new cs)"
  by (subst replace_all.simps) simp

lemma prefix_replaced:
  "CHR ''*'' \<notin> set x \<Longrightarrow> prefix x (replace_all old ''***'' s) \<Longrightarrow> prefix x s"
proof (induction s arbitrary: x)
  case Nil
  then show ?case by (simp add: replace_all.simps)
next
  case (Cons c cs)
  show ?case
  proof (cases "old \<noteq> [] \<and> prefix old (c # cs)")
    case True
    with Cons.prems show ?thesis by (cases x) (simp_all add: replace_all.simps [of _ _ "c # cs"])
  next
    case False
    with Cons show ?thesis by (cases x) (auto simp: replace_all.simps [of _ _ "c # cs"])
  qed
qed

lemma contains_starred: "CHR ''*'' \<notin> set x \<Longrightarrow> x \<noteq> [] \<Longrightarrow> contains x (''***'' @ s) \<Longrightarrow> contains x s"
  by (cases x) auto

lemma contains_replaced:
  assumes "CHR ''*'' \<notin> set x" "x \<noteq> []"
  shows "contains x (replace_all old ''***'' s) \<Longrightarrow> contains x s"
proof (induction old "''***''" s rule: replace_all.induct)
  case (1 old s)
  show ?case
  proof (cases s)
    case Nil
    with 1 show ?thesis by (simp add: replace_all.simps)
  next
    case (Cons c cs)
    show ?thesis
    proof (cases "old \<noteq> [] \<and> prefix old s")
      case True
      have "replace_all old ''***'' s = ''***'' @ replace_all old ''***'' (drop (length old) s)"
        using True by (subst replace_all.simps) (simp add: Cons)
      with 1(3) have "contains x (replace_all old ''***'' (drop (length old) s))"
        using contains_starred [OF assms] by metis
      with 1(1) [OF Cons True] have "contains x (drop (length old) s)" .
      then show ?thesis by (metis append_assoc append_take_drop_id contains_iff)
    next
      case False
      have "replace_all old ''***'' s = c # replace_all old ''***'' cs"
        using False by (subst replace_all.simps) (auto simp: Cons)
      with 1(3) have "prefix x (replace_all old ''***'' s) \<or> contains x (replace_all old ''***'' cs)" by simp
      with 1(2) [OF Cons False] prefix_replaced [OF assms(1)] show ?thesis using Cons by auto
    qed
  qed
qed

lemma replaced_is_gone:
  assumes "CHR ''*'' \<notin> set old" "old \<noteq> []"
  shows "\<not> contains old (replace_all old ''***'' s)"
proof (induction s rule: length_induct)
  case (1 s)
  show ?case
  proof (cases s)
    case Nil
    with assms show ?thesis by (simp add: replace_all.simps)
  next
    case (Cons c cs)
    show ?thesis
    proof (cases "prefix old s")
      case True
      have "length (drop (length old) s) < length s" using assms(2) Cons by (cases old) auto
      with 1 have "\<not> contains old (replace_all old ''***'' (drop (length old) s))" by blast
      moreover have "replace_all old ''***'' s = ''***'' @ replace_all old ''***'' (drop (length old) s)"
        using True assms(2) by (subst replace_all.simps) (simp add: Cons)
      ultimately show ?thesis using contains_starred [OF assms] by metis
    next
      case False
      then have e: "replace_all old ''***'' s = c # replace_all old ''***'' cs"
        by (subst replace_all.simps) (auto simp: Cons)
      moreover have "\<not> prefix old (replace_all old ''***'' s)" using False prefix_replaced [OF assms(1)] by blast
      moreover have "\<not> contains old (replace_all old ''***'' cs)" using 1 Cons by simp
      ultimately show ?thesis by simp
    qed
  qed
qed

lemma hex_digit_value: "n < 16 \<Longrightarrow> byte (hex_digit n) = (if n < 10 then 48 + n else 55 + n)"
  by (simp add: hex_digit_def)

lemma escape_char_facts: "CHR ''*'' \<notin> set (escape_char EncQuery c)" "escape_char EncQuery c \<noteq> []"
  "d \<in> set (escape_char EncQuery c) \<Longrightarrow> byte d < 128"
proof -
  have hex: "hex_digit (byte c div 16) \<noteq> CHR ''*''" "hex_digit (byte c mod 16) \<noteq> CHR ''*''"
    "byte (hex_digit (byte c div 16)) < 128" "byte (hex_digit (byte c mod 16)) < 128"
    using less_mult_imp_div_less [of "byte c" 16 16] hex_digit_value [of "byte c div 16"] hex_digit_value [of "byte c mod 16"] byte_less_256 [of c]
    by (auto simp flip: byte_inj split: if_splits)
  have un: "unreserved c \<Longrightarrow> c \<noteq> CHR ''*'' \<and> byte c < 128" by (auto simp: unreserved_def Let_def)
  have esc: "\<not> unreserved c \<Longrightarrow> should_escape EncQuery c" by (simp add: should_escape_def)
  show "CHR ''*'' \<notin> set (escape_char EncQuery c)" "escape_char EncQuery c \<noteq> []"
    "d \<in> set (escape_char EncQuery c) \<Longrightarrow> byte d < 128"
    using hex un esc by (auto simp: escape_char_def split: if_splits)
qed

lemma query_escape_facts:
  "CHR ''*'' \<notin> set (query_escape s)" "s \<noteq> [] \<Longrightarrow> query_escape s \<noteq> []" "d \<in> set (query_escape s) \<Longrightarrow> byte d < 128"
proof -
  show "CHR ''*'' \<notin> set (query_escape s)" using escape_char_facts(1) by (auto simp: query_escape_def url_escape_def)
  show "s \<noteq> [] \<Longrightarrow> query_escape s \<noteq> []" using escape_char_facts(2) by (auto simp: query_escape_def url_escape_def)
  show "d \<in> set (query_escape s) \<Longrightarrow> byte d < 128" using escape_char_facts(3) by (auto simp: query_escape_def url_escape_def)
qed

lemma redacted:
  assumes "secret \<noteq> []" "CHR ''*'' \<notin> set secret"
  shows "\<not> contains secret (redact secret s)" "\<not> contains (query_escape secret) (redact secret s)"
proof -
  let ?enc = "query_escape secret"
  show "\<not> contains secret (redact secret s)" unfolding redact_def by (rule replaced_is_gone [OF assms(2,1)])
  have enc: "CHR ''*'' \<notin> set ?enc" "?enc \<noteq> []" using query_escape_facts(1,2) assms(1) by blast+
  show "\<not> contains ?enc (redact secret s)"
    unfolding redact_def using contains_replaced [OF enc] replaced_is_gone [OF enc] by blast
qed

section \<open>Cutting\<close>

text \<open>Cutting a valid text takes whole characters off its end, so nothing that was apart moves together.\<close>

lemma to_valid_shorter: "length (to_valid_utf8 s) \<le> length s"
proof (induction s rule: to_valid_utf8.induct)
  case (2 c cs)
  obtain r w where "decode_rune (c # cs) = (r, w)" by fastforce
  with 2 decode_rune_width [of "c # cs" r w] show ?case by (auto split: prod.splits)
qed simp

lemma cont_bytes_dropped: "list_all (\<lambda>c. 128 \<le> byte c \<and> byte c < 192) s \<Longrightarrow> to_valid_utf8 s = []"
  by (induction s) (auto simp: decode_rune.simps Let_def)

lemma decode_rune_lead:
  "decode_rune (c # cs) = (r, w) \<Longrightarrow> r \<noteq> rune_error \<or> w \<noteq> 1 \<Longrightarrow>
   w = (if byte c < 128 then 1 else if byte c < 224 then 2 else if byte c < 240 then 3 else 4) \<and>
   (\<not> byte c < 128 \<longrightarrow> 194 \<le> byte c \<and> byte c < 245)"
  by (auto simp: decode_rune.simps Let_def split: list.splits if_splits)

lemma second_ok_cont: "second_ok b c \<Longrightarrow> cont c"
  using second_okD [of b c] by (simp add: cont_def)

lemma decode_rune_conts:
  "decode_rune (c # cs) = (r, w) \<Longrightarrow> r \<noteq> rune_error \<or> w \<noteq> 1 \<Longrightarrow> list_all cont (take (w - 1) cs)"
  by (auto simp: decode_rune.simps Let_def split: list.splits if_splits dest: second_ok_cont)

lemma decode_rune_short:
  assumes "(if byte c < 128 then 1 else if byte c < 224 then 2 else if byte c < 240 then 3 else 4) > Suc (length cs)"
  shows "decode_rune (c # cs) = (rune_error, 1)"
proof -
  consider "cs = []" | a where "cs = [a]" | a b where "cs = [a, b]"
    using assms by (cases cs; cases "tl cs"; cases "tl (tl cs)") (auto split: if_splits)
  then show ?thesis using assms by cases (auto simp: decode_rune.simps Let_def split: if_splits)
qed

lemma decode_rune_long:
  assumes "(if byte c < 128 then 1 else if byte c < 224 then 2 else if byte c < 240 then 3 else 4) \<le> Suc (length cs)"
    and "\<not> byte c < 128 \<longrightarrow> 194 \<le> byte c \<and> byte c < 245"
  shows "decode_rune (c # cs @ u) = decode_rune (c # cs)"
proof -
  consider "cs = []" | a where "cs = [a]" | a b where "cs = [a, b]" | a b d ds where "cs = a # b # d # ds"
    by (cases cs; cases "tl cs"; cases "tl (tl cs)") auto
  then show ?thesis using assms by cases (simp_all add: decode_rune.simps Let_def split: if_splits)
qed

lemma decode_take:
  assumes "decode_rune (c # cs @ u) = (r, w)" "r \<noteq> rune_error \<or> w \<noteq> 1" "w \<le> Suc (length cs)"
  shows "decode_rune (c # cs) = (r, w)"
  using decode_rune_lead [OF assms(1,2)] decode_rune_long [of c cs u] assms(1,3) by simp

lemma decode_cut:
  assumes "decode_rune (c # cs @ u) = (r, w)" "r \<noteq> rune_error \<or> w \<noteq> 1" "Suc (length cs) < w"
  shows "decode_rune (c # cs) = (rune_error, 1)" "list_all (\<lambda>c. 128 \<le> byte c \<and> byte c < 192) cs"
proof -
  show "decode_rune (c # cs) = (rune_error, 1)"
    using decode_rune_lead [OF assms(1,2)] assms(3) by (intro decode_rune_short) simp
  have "list_all cont (take (w - 1) (cs @ u))" by (rule decode_rune_conts [OF assms(1,2)])
  with assms(3) show "list_all (\<lambda>c. 128 \<le> byte c \<and> byte c < 192) cs" by (auto simp: list_all_iff cont_def)
qed

lemma to_valid_cut:
  "to_valid_utf8 s = s \<Longrightarrow> prefix (to_valid_utf8 (take n s)) s"
proof (induction s arbitrary: n rule: to_valid_utf8.induct)
  case (2 c cs)
  obtain r w where d: "decode_rune (c # cs) = (r, w)" by fastforce
  note w = decode_rune_width [OF _ d]
  have ok: "r \<noteq> rune_error \<or> w \<noteq> 1"
  proof (rule ccontr)
    assume "\<not> ?thesis"
    with 2(3) d have "to_valid_utf8 cs = c # cs" by simp
    with to_valid_shorter [of cs] show False by simp
  qed
  have drop: "drop w (c # cs) = drop (w - 1) cs" using w by (cases w) auto
  have split: "take w (c # cs) @ to_valid_utf8 (drop (w - 1) cs) = take w (c # cs) @ drop (w - 1) cs"
    using 2(3) d ok append_take_drop_id [of w "c # cs"] by (simp add: drop split: if_splits)
  show ?case
  proof (cases "n < w")
    case True
    show ?thesis
    proof (cases "n = 0")
      case False
      then obtain ts where t: "take n (c # cs) = c # ts" by (cases n) simp_all
      have dd: "decode_rune (c # ts @ drop n (c # cs)) = (r, w)" using d append_take_drop_id [of n "c # cs"] t by simp
      have "Suc (length ts) < w" using True arg_cong [OF t, of length] by auto
      from decode_cut [OF dd ok this] show ?thesis by (simp add: t cont_bytes_dropped)
    qed simp
  next
    case False
    let ?t = "take n (c # cs)"
    have len: "w \<le> length ?t" using False w by simp
    obtain ts where t: "?t = c # ts" using False w by (cases n) simp_all
    have dd: "decode_rune (c # ts @ drop n (c # cs)) = (r, w)" using d append_take_drop_id [of n "c # cs"] t by simp
    have "w \<le> Suc (length ts)" using len t by simp
    from decode_take [OF dd ok this] have dt: "decode_rune ?t = (r, w)" by (simp add: t)
    have "to_valid_utf8 ?t = take w ?t @ to_valid_utf8 (drop (w - 1) ts)" using dt ok unfolding t by auto
    moreover have "drop (w - 1) ts = take (n - w) (drop (w - 1) cs)"
    proof -
      have "drop w ?t = take (n - w) (drop w (c # cs))" by (simp only: drop_take)
      then show ?thesis using t w by (cases w) auto
    qed
    moreover have "take w ?t = take w (c # cs)" using False by (simp add: min_def)
    moreover have "prefix (to_valid_utf8 (take (n - w) (drop (w - 1) cs))) (drop (w - 1) cs)"
      using 2(2) [OF d [symmetric]] ok split by blast
    ultimately show ?thesis using append_take_drop_id [of w "c # cs", unfolded drop] by (metis same_prefix_prefix)
  qed
qed simp

section \<open>No line shows the secret\<close>

text \<open>The texts a far end may answer with: all of them where the line is not cut, and valid ones where it is.\<close>

definition readable :: "string \<Rightarrow> string \<Rightarrow> bool" where
  "readable secret err \<longleftrightarrow>
     (let s = redact secret (join_with '' '' (str_fields err)) in length s \<le> 200 \<or> to_valid_utf8 s = s)"

definition far_texts :: "check_services \<Rightarrow> config \<Rightarrow> string list" where
  "far_texts K c = concat (map (\<lambda>a. case a of None \<Rightarrow> [] | Some e \<Rightarrow> [e])
     [ck_discover K (authority_url c), token_error K c, check_docintel K c])"

definition shows_secret :: "string \<Rightarrow> string \<Rightarrow> bool" where
  "shows_secret secret s \<longleftrightarrow> contains secret s \<or> contains (query_escape secret) s"

lemma contains_prefix: "prefix p s \<Longrightarrow> contains x p \<Longrightarrow> contains x s"
  by (metis append_assoc contains_iff prefix_def)

lemma one_line_hides:
  assumes "secret \<noteq> []" "CHR ''*'' \<notin> set secret" "list_all (\<lambda>c. byte c < 128) secret" "readable secret err"
  shows "\<not> shows_secret secret (one_line err secret)"
proof -
  let ?s = "redact secret (join_with '' '' (str_fields err))"
  have far: "set x \<inter> set ellipsis = {}" if "\<forall>c \<in> set x. byte c < 128" for x using that by (auto simp: ellipsis_def)
  have cut: "contains x ?s" if x: "x \<noteq> []" "\<forall>c \<in> set x. byte c < 128" "contains x (one_line err secret)" for x
  proof (cases "200 < length ?s")
    case True
    then have "prefix (to_valid_utf8 (take 200 ?s)) ?s" using assms(4) by (intro to_valid_cut) (simp add: readable_def Let_def)
    moreover have "contains x (to_valid_utf8 (take 200 ?s))"
      using contains_append_disjoint [OF x(1) far [OF x(2)]] x(3) True by (simp add: one_line_def Let_def)
    ultimately show ?thesis by (rule contains_prefix)
  qed (use x in \<open>simp add: one_line_def Let_def\<close>)
  have "\<not> contains secret (one_line err secret)" using cut [of secret] redacted(1) [OF assms(1,2)] assms(1,3) by (auto simp: list_all_iff)
  moreover have "\<not> contains (query_escape secret) (one_line err secret)"
    using cut [of "query_escape secret"] redacted(2) [OF assms(1,2)] query_escape_facts(2,3) assms(1) by blast
  ultimately show ?thesis by (simp add: shows_secret_def)
qed

lemma no_secret_in_nothing: "secret \<noteq> [] \<Longrightarrow> \<not> shows_secret secret []"
  using query_escape_facts(2) by (simp add: shows_secret_def)



text \<open>Two ways the parts of a secret can survive: white space in it is collapsed in the answer before striking out, and invalid
  bytes between its parts are dropped after it.\<close>

lemma collapsed_secret_survives: "one_line ''no: a  b'' ''a  b'' = ''no: a b''"
proof -
  have "str_fields ''no: a  b'' = [''no:'', ''a'', ''b'']" by (simp add: str_fields_def is_space_def)
  moreover have "query_escape ''a  b'' = ''a++b''"
    by code_simp
  ultimately show ?thesis by (simp add: one_line_def redact_def replace_all_Nil replace_all_Cons)
qed

lemma cut_drops_invalid: "list_all (\<lambda>c. byte c < 128) p \<Longrightarrow> to_valid_utf8 (p @ CHR 0xFF # s) = p @ to_valid_utf8 s"
  by (induction p) (auto simp: decode_rune.simps rune_error_def)

end
