(* ===== verification/Startup.thy ===== *)
theory Startup
  imports Setup_Wizard
begin

text \<open>
  How the program starts (\<open>cmd/scan2graph\<close>): the subcommand, the one-shot marker of \<open>marker.go\<close>, where the settings come
  from, and which of serving, opening the setup wizard and refusing \<open>main.go\<close> chooses. Hints on standard error and log
  lines are left out, except the addresses the operator has to be told.
\<close>

section \<open>The disk\<close>

text \<open>A file can be there without being readable, which Go tells apart from a file that does not exist.\<close>

record start_disk =
  sd_files :: files_on_disk
  sd_unreadable :: "path \<Rightarrow> bool"

definition readable_files :: "start_disk \<Rightarrow> files_on_disk" where
  "readable_files D p = (if sd_unreadable D p then None else sd_files D p)"

definition not_exist :: "start_disk \<Rightarrow> path \<Rightarrow> bool" where
  "not_exist D p = (\<not> sd_unreadable D p \<and> sd_files D p = None)"

section \<open>The marker\<close>

definition hex_encode :: "string \<Rightarrow> string" where
  "hex_encode s = concat (map (\<lambda>c. [lower_hex (byte c div 16), lower_hex (byte c mod 16)]) s)"

fun hex_decode :: "string \<Rightarrow> string option" where
  "hex_decode [] = Some []"
| "hex_decode [c] = None"
| "hex_decode (a # b # rest) =
     (case (unhex a, unhex b) of
        (Some x, Some y) \<Rightarrow> map_option ((#) (char_of (16 * x + y))) (hex_decode rest)
      | _ \<Rightarrow> None)"

definition marker_path :: "path \<Rightarrow> path" where
  "marker_path config_path = config_path @ ''.setup''"

definition mint_token :: "(string \<Rightarrow> string) \<Rightarrow> string \<Rightarrow> string \<times> string" where
  "mint_token hash rnd = (rnd, hash rnd)"

text \<open>\<open>createMarker\<close>: a write that fails may leave a part of the file, or the file as it was, and so may its removal.\<close>

datatype marker_write = Marker_Written | Marker_Torn "string option" bool

definition create_marker :: "(string \<Rightarrow> string) \<Rightarrow> string \<Rightarrow> marker_write \<Rightarrow> path \<Rightarrow> start_disk \<Rightarrow> string option \<times> start_disk" where
  "create_marker hash rnd fault path D =
     (case mint_token hash rnd of
        (token, h) \<Rightarrow>
          (case fault of
             Marker_Written \<Rightarrow> (Some token, D\<lparr>sd_files := (sd_files D)(path \<mapsto> hex_encode h @ newline)\<rparr>)
           | Marker_Torn part removed \<Rightarrow>
               (None,
                if removed then D\<lparr>sd_files := (sd_files D)(path := None)\<rparr>
                else (case part of None \<Rightarrow> D | Some left \<Rightarrow> D\<lparr>sd_files := (sd_files D)(path \<mapsto> left)\<rparr>))))"

datatype marker_answer = No_Marker | Marker_Unreadable | Marker_Corrupt | Marker_Stuck | Marker_Hash string

definition hash_size :: nat where "hash_size = 32"

definition consume_marker :: "bool \<Rightarrow> path \<Rightarrow> start_disk \<Rightarrow> marker_answer \<times> start_disk" where
  "consume_marker removable path D =
     (if not_exist D path then (No_Marker, D)
      else (case readable_files D path of
              None \<Rightarrow> (Marker_Unreadable, D)
            | Some content \<Rightarrow>
                (case hex_decode (trim_space content) of
                   None \<Rightarrow> (Marker_Corrupt, D)
                 | Some h \<Rightarrow>
                     if length h \<noteq> hash_size then (Marker_Corrupt, D)
                     else if \<not> removable then (Marker_Stuck, D)
                     else (Marker_Hash h, D\<lparr>sd_files := (sd_files D)(path := None)\<rparr>))))"

section \<open>Flags and subcommands\<close>

text \<open>The \<open>flag\<close> package with its one flag: \<open>None\<close> is an exit (a bad flag, or a request for help); otherwise the last value given
  and the arguments that are left.\<close>

fun parse_flags :: "string \<Rightarrow> string list \<Rightarrow> (string \<times> string list) option" where
  "parse_flags v [] = Some (v, [])"
| "parse_flags v (s # args) =
     (if length s < 2 \<or> hd s \<noteq> CHR ''-'' then Some (v, s # args)
      else if s = ''--'' then Some (v, args)
      else (let name = (if prefix ''--'' s then drop 2 s else drop 1 s) in
            if name = [] \<or> hd name = CHR ''-'' \<or> hd name = CHR ''='' then None
            else (case cut (CHR ''='') name of
                    Some (n, val) \<Rightarrow> if n = ''config'' then parse_flags val args else None
                  | None \<Rightarrow>
                      if name \<noteq> ''config'' then None
                      else (case args of [] \<Rightarrow> None | val # rest \<Rightarrow> parse_flags val rest))))"

datatype start_command =
    Cmd_Version | Cmd_Serve "string list" | Cmd_Setup "string list" | Cmd_Next_Start "string list"
  | Cmd_Default "string list" | Cmd_Usage

definition start_command_of :: "string list \<Rightarrow> start_command" where
  "start_command_of args =
     (if args = [''-version''] \<or> args = [''--version''] then Cmd_Version
      else (case (case args of a # rest \<Rightarrow> if prefix ''-'' a then ([], args) else (a, rest) | [] \<Rightarrow> ([], [])) of
              (mode, rest) \<Rightarrow>
                if mode = ''serve'' then Cmd_Serve rest
                else if mode = ''setup'' then Cmd_Setup rest
                else if mode = ''setup-next-start'' then Cmd_Next_Start rest
                else if mode = ''version'' then (if rest = [] then Cmd_Version else Cmd_Usage)
                else if mode = [] then Cmd_Default rest
                else Cmd_Usage))"

text \<open>\<open>version.resolve\<close>: the stamp of the build, else what the toolchain derived.\<close>

definition version_text :: "string \<Rightarrow> string \<Rightarrow> string" where
  "version_text stamp derived =
     (if stamp \<noteq> [] then stamp
      else if derived \<noteq> [] \<and> derived \<noteq> ''(devel)'' then derived
      else ''unknown'')"

section \<open>Where the settings come from\<close>

definition config_path :: "(string \<Rightarrow> string) \<Rightarrow> string \<Rightarrow> path" where
  "config_path environ flag = (if flag \<noteq> [] then flag else environ ''S2G_CONFIG_FILE'')"

text \<open>\<open>configSource\<close> after the flags: the settings, the names the environment overrides, and whether the file was read.\<close>

definition config_source ::
  "(string \<Rightarrow> string) \<Rightarrow> start_disk \<Rightarrow> path \<Rightarrow> bool \<Rightarrow> file_error + ((string \<Rightarrow> string) \<times> string list \<times> bool)" where
  "config_source environ D path lenient =
     (case file_env (readable_files D) path environ of
        Inr (getenv, overridden) \<Rightarrow> Inr (getenv, overridden, path \<noteq> [])
      | Inl e \<Rightarrow>
          if lenient \<and> e = FileUnreadable \<and> not_exist D path then Inr (environ, [], False) else Inl e)"

definition read_config_file :: "start_disk \<Rightarrow> path \<Rightarrow> settings_map \<times> bool" where
  "read_config_file D path =
     (if path = [] then ([], True)
      else (case parse_file (readable_files D) path of
              Inr vals \<Rightarrow> (vals, True)
            | Inl e \<Rightarrow> ([], e = FileUnreadable \<and> not_exist D path)))"

definition worth_protecting :: "(string \<Rightarrow> string) \<Rightarrow> settings_map \<times> bool \<Rightarrow> bool" where
  "worth_protecting environ read = (\<not> snd read \<or> any_configured (layer (fst read) environ))"

section \<open>The wizard's address\<close>

definition default_http_addr :: string where "default_http_addr = '':8080''"

definition setup_addr :: "cfg_env \<Rightarrow> string" where
  "setup_addr E = (let a = resolve_value E ''S2G_HTTP_ADDR'' in if a \<noteq> [] then a else default_http_addr)"

text \<open>\<open>net.SplitHostPort\<close>, of which the port is kept.\<close>

definition split_port :: "string \<Rightarrow> string option" where
  "split_port hp =
     (let host = before_last (CHR '':'') hp; port = after_last (CHR '':'') hp;
          close = length (before (CHR '']'') hp) in
      if CHR '':'' \<notin> set hp then None
      else if hd hp = CHR ''['' then
        (if CHR '']'' \<notin> set hp \<or> close + 1 \<noteq> length host then None
         else if CHR ''['' \<in> set (drop 1 hp) \<or> CHR '']'' \<in> set (drop (close + 1) hp) then None
         else Some port)
      else if CHR '':'' \<in> set host \<or> CHR ''['' \<in> set hp \<or> CHR '']'' \<in> set hp then None
      else Some port)"

definition setup_url :: "cfg_env \<Rightarrow> string \<Rightarrow> string \<Rightarrow> string" where
  "setup_url E addr token =
     (let given = resolve_base_url E ''S2G_PUBLIC_BASE_URL'';
          base = (if given \<noteq> [] then given
                  else ''http://localhost:'' @ (case split_port addr of Some p \<Rightarrow> p | None \<Rightarrow> ''8080''))
      in trim_suffix ''/'' base @ ''/setup'' @ (if token \<noteq> [] then ''?t='' @ token else []))"

text \<open>\<open>setupListener\<close>: \<open>listen\<close> is whether an address can be listened on, \<open>fallback_addr\<close> what the fallback calls itself.\<close>

definition setup_listener :: "cfg_env \<Rightarrow> (string \<Rightarrow> bool) \<Rightarrow> string \<Rightarrow> string option" where
  "setup_listener E listen fallback_addr =
     (let addr = setup_addr E in
      if listen addr then Some addr else if listen default_http_addr then Some fallback_addr else None)"

section \<open>The modes\<close>

text \<open>
  What surrounds a start: the process environment and the libraries (in the wizard's options), the random token, the
  network, whether the marker can be removed, and what other processes do to the disk before the n-th look at it; and the two versions the build knows.
\<close>

record start_world =
  sw_stamp :: string
  sw_derived :: string
  sw_opts :: setup_options
  sw_token :: string
  sw_listen :: "string \<Rightarrow> bool"
  sw_fallback :: string
  sw_removable :: bool
  sw_marker_write :: marker_write
  sw_meanwhile :: "nat \<Rightarrow> start_disk \<Rightarrow> start_disk"

abbreviation sw_environ :: "start_world \<Rightarrow> string \<Rightarrow> string" where
  "sw_environ W \<equiv> ce_getenv (so_env (sw_opts W))"

datatype start_fault =
    Fault_Usage | Fault_File file_error | Fault_Marker marker_answer | Fault_Config "cfg_error list" | Fault_Listen | Fault_No_Path | Fault_Write

text \<open>A wizard is what it runs on, its first state, and the addresses that were printed.\<close>

datatype start_outcome =
    Out_Version string
  | Out_Fault start_fault
  | Out_Serve config path "string list"
  | Out_Wizard setup_options wizard "string list"
  | Out_Marker string

definition load_from :: "start_world \<Rightarrow> (string \<Rightarrow> string) \<Rightarrow> cfg_error list + config" where
  "load_from W getenv = load ((so_env (sw_opts W))\<lparr>ce_getenv := getenv\<rparr>)"

definition run_serve_mode :: "start_world \<Rightarrow> path \<Rightarrow> start_disk \<Rightarrow> start_outcome" where
  "run_serve_mode W path D =
     (case config_source (sw_environ W) D path False of
        Inl e \<Rightarrow> Out_Fault (Fault_File e)
      | Inr (getenv, overridden, read) \<Rightarrow>
          (case load_from W getenv of
             Inl es \<Rightarrow> Out_Fault (Fault_Config es)
           | Inr cfg \<Rightarrow> Out_Serve cfg path overridden))"

definition open_wizard :: "start_world \<Rightarrow> path \<Rightarrow> string option \<Rightarrow> bool \<Rightarrow> start_disk \<Rightarrow> start_outcome" where
  "open_wizard W path given start_after D =
     (let opts = sw_opts W; read = read_config_file D path; E = layered opts (fst read) in
      case setup_listener E (sw_listen W) (sw_fallback W) of
        None \<Rightarrow> Out_Fault Fault_Listen
      | Some addr \<Rightarrow>
          let mint = (given = None \<and> worth_protecting (sw_environ W) read);
              (token, hash) = mint_token (so_hash opts) (sw_token W)
          in Out_Wizard (opts\<lparr>so_path := path, so_on_saved := (start_after \<and> path \<noteq> [])\<rparr>)
               (new_wizard (fst read) (if mint then Some hash else given))
               ((if mint then [setup_url E addr token] else []) @ [setup_url E addr []]))"

definition run_default_mode :: "start_world \<Rightarrow> path \<Rightarrow> start_disk \<Rightarrow> start_outcome \<times> start_disk" where
  "run_default_mode W path D =
     (let source = config_source (sw_environ W) D path True;
          (answer, D1) = (if path = [] then (No_Marker, D)
                          else consume_marker (sw_removable W) (marker_path path) (sw_meanwhile W 0 D));
          D2 = sw_meanwhile W 1 D1
      in case answer of
           Marker_Hash h \<Rightarrow> (open_wizard W path (Some h) True D2, D2)
         | No_Marker \<Rightarrow>
             (case source of
                Inl e \<Rightarrow> (Out_Fault (Fault_File e), D1)
              | Inr (getenv, overridden, read) \<Rightarrow>
                  (case load_from W getenv of
                     Inr cfg \<Rightarrow> (Out_Serve cfg (if read then path else []) overridden, D1)
                   | Inl es \<Rightarrow>
                       if \<not> worth_protecting (sw_environ W) (read_config_file D2 path)
                       then (let D3 = sw_meanwhile W 2 D2 in (open_wizard W path None True D3, D3))
                       else (Out_Fault (Fault_Config es), D2)))
         | fault \<Rightarrow> (Out_Fault (Fault_Marker fault), D1))"

definition run_setup_next_start :: "start_world \<Rightarrow> path \<Rightarrow> start_disk \<Rightarrow> start_outcome \<times> start_disk" where
  "run_setup_next_start W path D =
     (if path = [] then (Out_Fault Fault_No_Path, D)
      else (case create_marker (so_hash (sw_opts W)) (sw_token W) (sw_marker_write W) (marker_path path) D of
              (None, D1) \<Rightarrow> (Out_Fault Fault_Write, D1)
            | (Some token, D1) \<Rightarrow>
                let E = layered (sw_opts W) (fst (read_config_file D1 path))
                in (Out_Marker (setup_url E (setup_addr E) token), D1)))"

definition with_flags :: "start_world \<Rightarrow> string list \<Rightarrow> (path \<Rightarrow> start_outcome \<times> start_disk) \<Rightarrow> start_disk \<Rightarrow> start_outcome \<times> start_disk" where
  "with_flags W args run D =
     (case parse_flags [] args of
        Some (flag, []) \<Rightarrow> run (config_path (sw_environ W) flag)
      | _ \<Rightarrow> (Out_Fault Fault_Usage, D))"

definition start_program :: "start_world \<Rightarrow> string list \<Rightarrow> start_disk \<Rightarrow> start_outcome \<times> start_disk" where
  "start_program W args D =
     (case start_command_of args of
        Cmd_Version \<Rightarrow> (Out_Version (version_text (sw_stamp W) (sw_derived W)), D)
      | Cmd_Usage \<Rightarrow> (Out_Fault Fault_Usage, D)
      | Cmd_Serve rest \<Rightarrow> with_flags W rest (\<lambda>path. (run_serve_mode W path D, D)) D
      | Cmd_Setup rest \<Rightarrow> with_flags W rest (\<lambda>path. (open_wizard W path None False D, D)) D
      | Cmd_Next_Start rest \<Rightarrow> with_flags W rest (\<lambda>path. run_setup_next_start W path D) D
      | Cmd_Default rest \<Rightarrow> with_flags W rest (\<lambda>path. run_default_mode W path D) D)"

end
