(* ===== verification/Startup_Properties.thy ===== *)
theory Startup_Properties
  imports Startup Setup_System Config_Load_Properties
begin

text \<open>
  What a start promises: the marker opens the wizard exactly once and for its token alone; a wizard anybody may claim has
  nothing in it worth taking; and the file the wizard saved is the one the appliance then serves from.
\<close>

section \<open>The marker's round trip\<close>

lemma unhex_lower: "n < 16 \<Longrightarrow> unhex (lower_hex n) = Some n"
  by (simp add: unhex_def lower_hex_def Let_def)

lemma hex_encode_Cons: "hex_encode (c # s) = lower_hex (byte c div 16) # lower_hex (byte c mod 16) # hex_encode s"
  by (simp add: hex_encode_def)

lemma hex_round_trip: "hex_decode (hex_encode s) = Some s"
proof (induction s)
  case (Cons c s)
  have "byte c div 16 < 16" using byte_less_256 [of c] less_mult_imp_div_less [of "byte c" 16 16] by simp
  with Cons show ?case by (simp add: hex_encode_Cons unhex_lower)
qed (simp add: hex_encode_def)

lemma hex_char: "c \<in> set (hex_encode s) \<Longrightarrow> byte c < 128 \<and> \<not> is_space (byte c)"
proof (induction s)
  case (Cons d s)
  have "byte d div 16 < 16" using byte_less_256 [of d] less_mult_imp_div_less [of "byte d" 16 16] by simp
  moreover have "byte (lower_hex n) < 128 \<and> \<not> is_space (byte (lower_hex n))" if "n < 16" for n
    using that by (auto simp: lower_hex_def is_space_def)
  ultimately show ?case using Cons by (auto simp: hex_encode_Cons)
qed (simp add: hex_encode_def)

lemma trim_right_newline: "trim_right_space newline = []"
proof -
  have "trailing_space newline = 1" by (simp add: trailing_space_def ends_in_space_def newline_def is_space_def)
  then show ?thesis by (subst trim_right_space.simps) (simp add: newline_def trim_right_space.simps [of "[]"] trailing_space_def ends_in_space_def)
qed

lemma trim_hex_line: "s \<noteq> [] \<Longrightarrow> trim_space (hex_encode s @ newline) = hex_encode s"
proof -
  assume s: "s \<noteq> []"
  then obtain c h where h: "hex_encode s = c # h" by (cases s) (simp_all add: hex_encode_Cons)
  then have c: "byte c < 128" "\<not> is_space (byte c)" using hex_char [of c s] by simp_all
  have left: "trim_left_space (hex_encode s @ newline) = hex_encode s @ newline" using c by (intro trim_left_id) (simp add: h)
  obtain u d where d: "hex_encode s = u @ [d]" using h by (metis append_butlast_last_id list.distinct(1))
  then have "byte d < 128" "\<not> is_space (byte d)" using hex_char [of d s] by simp_all
  with left d show ?thesis by (simp add: trim_space_def trim_right_after_ascii trim_right_newline)
qed

lemma marker_not_config: "marker_path p \<noteq> p"
  by (simp add: marker_path_def)

lemma consume_created:
  assumes "create_marker hash rnd fault path D = (Some token, D1)" "length (hash rnd) = hash_size" "\<not> sd_unreadable D path"
    "sd_files D2 path = sd_files D1 path" "sd_unreadable D2 path = sd_unreadable D1 path"
  shows "token = rnd \<and> consume_marker True path D2 = (Marker_Hash (hash rnd), D2\<lparr>sd_files := (sd_files D2)(path := None)\<rparr>)"
proof -
  have D1: "token = rnd" "D1 = D\<lparr>sd_files := (sd_files D)(path \<mapsto> hex_encode (hash rnd) @ newline)\<rparr>"
    using assms(1) by (auto simp: create_marker_def mint_token_def split: marker_write.splits)
  have "hash rnd \<noteq> []" using assms(2) by (auto simp: hash_size_def)
  then have "hex_decode (trim_space (hex_encode (hash rnd) @ newline)) = Some (hash rnd)"
    by (simp add: trim_hex_line hex_round_trip)
  with D1 assms(2-5) show ?thesis
    by (simp add: consume_marker_def not_exist_def readable_files_def)
qed

lemma create_failed:
  "create_marker hash rnd (Marker_Torn part True) path D = (None, D1) \<Longrightarrow> sd_files D1 path = None"
  by (auto simp: create_marker_def mint_token_def)

section \<open>An armed marker\<close>

lemma open_wizard_given:
  assumes "sw_listen W default_http_addr"
  shows "\<exists>opts wz urls. open_wizard W path (Some h) later D = Out_Wizard opts wz urls \<and> wz_token wz = Some h \<and>
    so_hash opts = so_hash (sw_opts W)"
proof -
  obtain addr where "setup_listener (layered (sw_opts W) (fst (read_config_file D path))) (sw_listen W) (sw_fallback W) = Some addr"
    using assms by (cases "sw_listen W (setup_addr (layered (sw_opts W) (fst (read_config_file D path))))") (simp_all add: setup_listener_def Let_def)
  then show ?thesis by (simp add: open_wizard_def Let_def mint_token_def new_wizard_def)
qed


text \<open>A marker that holds anything but a hash stops the start, and stays where it is.\<close>

lemma corrupt_marker_stops:
  assumes "path \<noteq> []" "consume_marker (sw_removable W) (marker_path path) (sw_meanwhile W 0 D) = (Marker_Corrupt, D1)"
  shows "run_default_mode W path D = (Out_Fault (Fault_Marker Marker_Corrupt), sw_meanwhile W 0 D)"
proof -
  have "D1 = sw_meanwhile W 0 D"
    using assms(2) by (auto simp: consume_marker_def split: if_splits option.splits)
  with assms show ?thesis by (simp add: run_default_mode_def Let_def)
qed

section \<open>The open wizard\<close>

lemma protected_plain: "n \<in> set protected_settings \<Longrightarrow> \<not> suffix ''_FILE'' n"
proof -
  have "list_all (\<lambda>n. \<not> suffix ''_FILE'' n) protected_settings" by code_simp
  then show "n \<in> set protected_settings \<Longrightarrow> \<not> suffix ''_FILE'' n" by (simp add: list_all_iff)
qed

lemma nothing_configured:
  assumes "\<not> any_configured (layer vals environ)" "n \<in> set protected_settings"
  shows "environ n = [] \<and> environ (n @ ''_FILE'') = [] \<and> lookup vals n = [] \<and> lookup vals (n @ ''_FILE'') = []"
proof -
  have "layer vals environ n = []" "layer vals environ (n @ ''_FILE'') = []"
    using assms by (auto simp: any_configured_def list_ex_iff)
  with paired_name_simps [of n] protected_plain [OF assms(2)] show ?thesis
    by (auto simp: layer_def split: if_splits)
qed

lemma open_wizard_cases:
  assumes "open_wizard W path given later D = Out_Wizard opts wz urls"
  shows "so_path opts = path \<and> so_env opts = so_env (sw_opts W) \<and> wz = new_wizard (fst (read_config_file D path)) (wz_token wz) \<and>
    (wz_token wz = None \<longrightarrow> given = None \<and> \<not> worth_protecting (sw_environ W) (read_config_file D path))"
  using assms by (auto simp: open_wizard_def Let_def mint_token_def new_wizard_def split: option.splits if_splits)

lemma run_default_wizard:
  assumes "run_default_mode W path D = (Out_Wizard opts wz urls, D1)"
  shows "\<exists>given. open_wizard W path given True D1 = Out_Wizard opts wz urls"
  using assms unfolding run_default_mode_def Let_def
  by (auto split: prod.splits marker_answer.splits sum.splits if_splits)

lemma program_wizard:
  assumes "start_program W args D = (Out_Wizard opts wz urls, D1)"
  shows "\<exists>path given later. open_wizard W path given later D1 = Out_Wizard opts wz urls"
proof (cases "start_command_of args")
  case (Cmd_Default rest)
  with assms show ?thesis using run_default_wizard by (fastforce simp: start_program_def with_flags_def split: option.splits list.splits)
next
  case (Cmd_Serve rest)
  with assms show ?thesis
    by (auto simp: start_program_def with_flags_def run_serve_mode_def split: option.splits list.splits sum.splits)
next
  case (Cmd_Next_Start rest)
  with assms show ?thesis
    by (auto simp: start_program_def with_flags_def run_setup_next_start_def Let_def split: option.splits list.splits if_splits prod.splits)
next
  case (Cmd_Setup rest)
  with assms show ?thesis by (simp add: start_program_def with_flags_def split: option.splits list.splits prod.splits) blast
qed (use assms in \<open>simp_all add: start_program_def\<close>)

text \<open>C17: A wizard that is open to anybody has nothing to take. Whatever the arguments, the environment and the disk are, and
  whatever other processes do to the disk in between: when the program ends up showing a setup wizard without a token,
  then the configuration file it shows is absent or parses, and neither it nor the environment sets any protected
  setting - tenant, client, client secret, SMTP password - in either spelling. Every wizard it shows, with a token or
  without, starts in an initial state of the wizard's system, to which the theorems about its steps apply.\<close>

theorem open_wizard_has_nothing_to_take:
  assumes "start_program W args D = (Out_Wizard opts wz urls, D1)"
  shows "setup_init opts \<lparr>ss_wizard = wz, ss_disk = readable_files D1, ss_flying = []\<rparr> \<and>
    (wz_token wz = None \<longrightarrow>
      (so_path opts = [] \<or> not_exist D1 (so_path opts) \<or> parse_file (readable_files D1) (so_path opts) = Inr (wz_values wz)) \<and>
      (\<forall>n \<in> set protected_settings.
         sw_environ W n = [] \<and> sw_environ W (n @ ''_FILE'') = [] \<and> lookup (wz_values wz) n = [] \<and> lookup (wz_values wz) (n @ ''_FILE'') = []))"
proof -
  obtain path given later where o: "open_wizard W path given later D1 = Out_Wizard opts wz urls"
    using program_wizard [OF assms] by blast
  note c = open_wizard_cases [OF o]
  have vals: "wz_values wz = fst (read_config_file D1 path)" using c by (metis new_wizard_def wizard.select_convs(1))
  have "setup_init opts \<lparr>ss_wizard = wz, ss_disk = readable_files D1, ss_flying = []\<rparr>"
  proof -
    have "fst (read_config_file D1 path) = [] \<or> parse_file (readable_files D1) (so_path opts) = Inr (fst (read_config_file D1 path))"
      using c by (auto simp: read_config_file_def split: sum.splits)
    with c show ?thesis unfolding setup_init_def by auto
  qed
  moreover have "(so_path opts = [] \<or> not_exist D1 (so_path opts) \<or> parse_file (readable_files D1) (so_path opts) = Inr (wz_values wz)) \<and>
      (\<forall>n \<in> set protected_settings.
         sw_environ W n = [] \<and> sw_environ W (n @ ''_FILE'') = [] \<and> lookup (wz_values wz) n = [] \<and> lookup (wz_values wz) (n @ ''_FILE'') = [])"
    if "wz_token wz = None"
  proof -
    from that c have p: "snd (read_config_file D1 path)" "\<not> any_configured (layer (wz_values wz) (sw_environ W))"
      unfolding vals by (simp_all add: worth_protecting_def)
    have "so_path opts = [] \<or> not_exist D1 (so_path opts) \<or> parse_file (readable_files D1) (so_path opts) = Inr (wz_values wz)"
      using p(1) c vals by (auto simp: read_config_file_def split: sum.splits if_splits)
    with nothing_configured [OF p(2)] show ?thesis by blast
  qed
  ultimately show ?thesis by blast
qed

section \<open>From the wizard to the appliance\<close>

text \<open>C19: What the wizard saved is what the appliance serves. From any reachable state of the wizard, once a submission that
  passed the checks is saved, a start in serve mode on that file - which is how the wizard's own process goes on - does
  serve, and with the very configuration the wizard had validated: it neither refuses the file nor opens a wizard.\<close>

theorem saved_wizard_serves:
  assumes "reachable_setup opts S" and "error_lines opts" and "tmp \<noteq> so_path opts"
    and "(r, form, sb) \<in> set (ss_flying S)" and "saves opts form sb"
    and "setup_save opts fault tmp (sb_values sb) (ss_wizard S) (ss_disk S) = (True, w, ds)"
    and "so_env (sw_opts W) = so_env opts" and "readable_files D = last ds"
  shows "\<exists>cfg overridden. sb_config sb = Some cfg \<and> run_serve_mode W (so_path opts) D = Out_Serve cfg (so_path opts) overridden"
proof -
  from saved_loads [OF assms(1-6)] obtain kvs cfg where kvs: "parse_file (last ds) (so_path opts) = Inr kvs"
    "sb_config sb = Some cfg" "load (layered opts kvs) = Inr cfg" .
  have "so_path opts \<noteq> []" using assms(5) by (simp add: saves_def)
  then have "\<exists>ov. config_source (sw_environ W) D (so_path opts) False = Inr (layer kvs (ce_getenv (so_env opts)), ov, True)"
    using kvs(1) assms(7,8) by (simp add: config_source_def file_env_def)
  then show ?thesis using kvs(2,3) assms(7) by (auto simp: run_serve_mode_def load_from_def layered_def)
qed

section \<open>The theorems at a concrete input\<close>

definition ex_world :: start_world where
  "ex_world = \<lparr>sw_stamp = [], sw_derived = [], sw_opts = ex_opts\<lparr>so_hash := (\<lambda>t. replicate 32 (CHR ''h''))\<rparr>, sw_token = ''T'', sw_listen = (\<lambda>_. True), sw_fallback = '':8080'',
     sw_removable = True, sw_marker_write = Marker_Written, sw_meanwhile = (\<lambda>_ X. X)\<rparr>"

definition ex_blank :: start_disk where
  "ex_blank = \<lparr>sd_files = Map.empty, sd_unreadable = (\<lambda>_. False)\<rparr>"


definition ex_bare :: start_world where
  "ex_bare = ex_world\<lparr>sw_opts := (sw_opts ex_world)\<lparr>so_env := (so_env ex_opts)\<lparr>ce_getenv := (\<lambda>_. [])\<rparr>\<rparr>\<rparr>"

theorem open_wizard_has_nothing_to_take_witness:
  "\<exists>opts wz urls. start_program ex_bare [''setup''] ex_blank = (Out_Wizard opts wz urls, ex_blank) \<and> wz_token wz = None \<and>
     lookup (wz_values wz) ''S2G_ENTRA_CLIENT_SECRET'' = []"
proof -
  have cmd: "start_command_of [''setup''] = Cmd_Setup []" by code_simp
  have "\<not> worth_protecting (sw_environ ex_bare) ([], True)"
    by (simp add: worth_protecting_def any_configured_def list_ex_iff layer_def lookup_def ex_bare_def)
  then obtain opts wz urls where w: "start_program ex_bare [''setup''] ex_blank = (Out_Wizard opts wz urls, ex_blank)" "wz_token wz = None"
    by (simp add: start_program_def cmd with_flags_def config_path_def open_wizard_def Let_def read_config_file_def mint_token_def
          new_wizard_def setup_listener_def ex_bare_def ex_world_def)
  have "''S2G_ENTRA_CLIENT_SECRET'' \<in> set protected_settings" by (simp add: protected_settings_def)
  with open_wizard_has_nothing_to_take [OF w(1)] w show ?thesis by blast
qed

theorem saved_wizard_serves_witness:
  "\<exists>ov. run_serve_mode (ex_world\<lparr>sw_opts := ex_opts\<rparr>) ''/c'' \<lparr>sd_files = last ex_written, sd_unreadable = (\<lambda>_. False)\<rparr> =
     Out_Serve ex_loaded ''/c'' ov"
proof -
  have "error_lines ex_opts" "''/t'' \<noteq> so_path ex_opts" by (simp_all add: error_lines_def ex_opts_def)
  moreover have "so_env (sw_opts (ex_world\<lparr>sw_opts := ex_opts\<rparr>)) = so_env ex_opts"
    "readable_files \<lparr>sd_files = last ex_written, sd_unreadable = (\<lambda>_. False)\<rparr> = last ex_written"
    by (simp_all add: readable_files_def fun_eq_iff)
  ultimately have "\<exists>cfg ov. sb_config ex_submission = Some cfg \<and>
      run_serve_mode (ex_world\<lparr>sw_opts := ex_opts\<rparr>) (so_path ex_opts) \<lparr>sd_files = last ex_written, sd_unreadable = (\<lambda>_. False)\<rparr> =
        Out_Serve cfg (so_path ex_opts) ov"
    by (rule saved_wizard_serves [OF ex_setup_reachable(2) _ _ ex_flying ex_saves ex_save])
  moreover have "so_path ex_opts = ''/c''" "sb_config ex_submission = Some ex_loaded" by (simp_all add: ex_opts_def ex_submission_def)
  ultimately show ?thesis by simp
qed

end
