(* ===== verification/Startup_Run.thy ===== *)
theory Startup_Run
  imports Startup Config_Load_Properties Pipeline Docintel Graphmail Smtp_Session Web_Ui
begin

text \<open>
  \<open>run\<close> of \<open>cmd/scan2graph/main.go\<close>: what a configuration is turned into - the store, the clients of the two services, the
  worker pool, the two listeners - and the HTTP handler in front of the web UI. Goroutines and shutdown are left out; what
  runs in them is the other theories' subject.
\<close>

section \<open>The Graph permissions\<close>

text \<open>The answer to the one token request at startup, whichever comes first.\<close>

datatype token_fetch = Token_Fetched string | Token_Failed | Token_Late | Token_Stopped

definition mail_read_write :: "(nat list \<Rightarrow> string list option) \<Rightarrow> token_fetch \<Rightarrow> bool" where
  "mail_read_write decode f =
     (case f of Token_Fetched tok \<Rightarrow> ''Mail.ReadWrite'' \<in> set (token_roles decode tok) | _ \<Rightarrow> False)"

text \<open>\<open>announceGraphCeiling\<close>: the largest scan that can be mailed, and whether the operator is told about it.\<close>

definition graph_ceiling :: "config \<Rightarrow> bool \<Rightarrow> int \<times> bool" where
  "graph_ceiling c large =
     (if large then max_message_bytes (cfg_limits c) else max_attachment_bytes,
      \<not> large \<and> max_attachment_bytes < max_message_bytes (cfg_limits c))"

text \<open>\<open>announceDefaultProfile\<close>: the features of the default profile, when there are no others; \<open>announceSMTPCredentials\<close>.\<close>

definition default_profile_notice :: "config \<Rightarrow> capabilities option" where
  "default_profile_notice c = (if profiles c \<noteq> [] then None else Some (default_profile c))"

datatype smtp_notice = Anonymous_Notice | Generated_Notice string string | Enabled_Notice string

definition smtp_credentials_notice :: "config \<Rightarrow> smtp_notice" where
  "smtp_credentials_notice c =
     (if smtp_allow_anonymous c then Anonymous_Notice
      else if smtp_password_generated c then Generated_Notice (smtp_username c) (smtp_password c)
      else Enabled_Notice (smtp_username c))"

section \<open>The parts\<close>

text \<open>\<open>msClient\<close>: what the HTTP client of a service is made with; a redirect is never followed, as it would take the token along.\<close>

record ms_client =
  mc_client_id :: string
  mc_client_secret :: string
  mc_token_url :: string
  mc_scope :: string
  mc_timeout :: duration
  mc_follow_redirects :: bool

definition ms_client_for :: "config \<Rightarrow> string \<Rightarrow> ms_client" where
  "ms_client_for c scope =
     \<lparr>mc_client_id = client_id c, mc_client_secret = client_secret c, mc_token_url = token_url c, mc_scope = scope,
      mc_timeout = 5 * 60 * 1000000000, mc_follow_redirects = False\<rparr>"

record appliance =
  ap_store :: store
  ap_ocr :: "(di_client \<times> ms_client) option"
  ap_mailer :: "(graph_client \<times> ms_client) option"
  ap_pipeline :: pipeline
  ap_smtp :: smtp_server
  ap_http_addr :: string
  ap_ui :: bool

text \<open>What the operating system and the identity provider answer: the absolute path, whether the directory could be prepared,
  the token, and whether discovery succeeded.\<close>

record run_answers =
  ra_abs :: "path \<Rightarrow> path option"
  ra_prepare :: "path \<Rightarrow> bool"
  ra_decode :: "nat list \<Rightarrow> string list option"
  ra_token :: token_fetch
  ra_discovery :: "string \<Rightarrow> bool"

datatype run_fault = Store_Fault store_error | Ui_Fault

definition ocr_client :: "config \<Rightarrow> (di_client \<times> ms_client) option" where
  "ocr_client c =
     (if di_endpoint c = [] then None
      else Some (\<lparr>dc_endpoint = di_endpoint c, dc_api_version = di_api_version c\<rparr>, ms_client_for c (di_scope c)))"

definition mail_client :: "run_answers \<Rightarrow> config \<Rightarrow> (graph_client \<times> ms_client) option" where
  "mail_client A c =
     (if graph_sender c = [] then None
      else Some (\<lparr>gc_base_url = graph_base_url c, gc_sender = graph_sender c,
                   gc_large_scans = mail_read_write (ra_decode A) (ra_token A)\<rparr>, ms_client_for c (graph_scope c)))"

text \<open>\<open>newHTTPHandler\<close>: without a public address there is no UI, and with one the provider has to be there.\<close>

definition http_ui :: "run_answers \<Rightarrow> config \<Rightarrow> run_fault + bool" where
  "http_ui A c =
     (if public_base_url c = [] then Inr False
      else if \<not> ra_discovery A (authority_url c) then Inl Ui_Fault else Inr True)"

definition run_parts :: "run_answers \<Rightarrow> config \<Rightarrow> run_fault + appliance" where
  "run_parts A c =
     (case new_store (temp_dir c) (ra_abs A) (ra_prepare A) (job_ttl c) (max_stored_bytes (cfg_limits c)) of
        Inl e \<Rightarrow> Inl (Store_Fault e)
      | Inr st \<Rightarrow>
          (case http_ui A c of
             Inl e \<Rightarrow> Inl e
           | Inr ui \<Rightarrow>
               Inr \<lparr>ap_store = st, ap_ocr = ocr_client c, ap_mailer = mail_client A c,
                    ap_pipeline = new_pipeline (public_base_url c) (nat (max_concurrent_jobs (cfg_limits c))),
                    ap_smtp = new_server c, ap_http_addr = http_addr c, ap_ui = ui\<rparr>))"

section \<open>The HTTP handler\<close>

definition plain_ok :: web_response where
  "plain_ok = \<lparr>wp_status = 200, wp_headers = [(''Content-Type'', ''text/plain; charset=utf-8''), (''Cache-Control'', ''no-store'')],
     wp_cookies = [], wp_body = Message_Text (''ok'' @ newline)\<rparr>"

definition health_route :: "string \<Rightarrow> string \<Rightarrow> string list \<Rightarrow> bool" where
  "health_route base meth segs =
     ((meth = ''GET'' \<or> meth = ''HEAD'') \<and>
      (segs \<in> {[''healthz''], [''readyz'']} \<or>
       base \<noteq> [] \<and> segs \<in> {prefix_segments base @ [''healthz''], prefix_segments base @ [''readyz'']}))"

definition appliance_handle ::
  "web_server \<Rightarrow> web_random \<Rightarrow> time \<Rightarrow> store \<Rightarrow> web_request \<Rightarrow> session_map \<Rightarrow> web_response \<times> session_map" where
  "appliance_handle W rnd now s r m =
     (if health_route (path_prefix (ws_cfg W)) (wq_method r) (wq_segments r) then (plain_ok, m)
      else if public_base_url (ws_cfg W) = [] then (mux_answer [], m)
      else web_handle W rnd now s r m)"

text \<open>In front of the wizard, the same two addresses.\<close>

definition wizard_handle ::
  "string \<Rightarrow> (wizard \<Rightarrow> files_on_disk \<Rightarrow> setup_answer \<times> wizard \<times> files_on_disk list) \<Rightarrow> web_request \<Rightarrow>
   wizard \<Rightarrow> files_on_disk \<Rightarrow> (web_response + setup_answer) \<times> wizard \<times> files_on_disk list" where
  "wizard_handle base handle r wz d =
     (if health_route base (wq_method r) (wq_segments r) then (Inl plain_ok, wz, [])
      else (case handle wz d of (a, w, ds) \<Rightarrow> (Inr a, w, ds)))"

section \<open>Every capability has its service\<close>

lemma run_parts_cases:
  assumes "run_parts A c = Inr ap"
  shows "new_store (temp_dir c) (ra_abs A) (ra_prepare A) (job_ttl c) (max_stored_bytes (cfg_limits c)) = Inr (ap_store ap)"
    "ap_ocr ap = ocr_client c" "ap_mailer ap = mail_client A c" "ap_ui ap \<longleftrightarrow> public_base_url c \<noteq> []"
    "ap_pipeline ap = new_pipeline (public_base_url c) (nat (max_concurrent_jobs (cfg_limits c)))" "ap_smtp ap = new_server c"
  using assms by (auto simp: run_parts_def http_ui_def split: sum.splits if_splits)

text \<open>C23: What the appliance promises a sender it can do. Take a configuration that loads and the parts \<open>run\<close> makes of it. Whatever
  sender address the SMTP side asks about: if its profile has email, there is a mail client with a sender to mail from; if
  it has text recognition, there is an OCR client with an endpoint, each asking for tokens of its own scope only;
  if it has web, the UI is served and the notices link to its address. The workers thus never reach for a service that was
  not built. The pool has a worker and room in its queue, the store takes two messages of the largest size the listener accepts, and drafts with uploads are used only where
  the token Entra issued at the start carries the permission for them.\<close>

theorem appliance_backs_its_jobs:
  assumes "load E = Inr c" and "run_parts A c = Inr ap" and "profile (ce_low E) c a = Some p"
  shows "(cap_email p \<longrightarrow> (\<exists>m h. ap_mailer ap = Some (m, h) \<and> gc_sender m \<noteq> [] \<and> mc_scope h = graph_scope c)) \<and>
    (cap_ocr p \<longrightarrow> (\<exists>d h. ap_ocr ap = Some (d, h) \<and> dc_endpoint d \<noteq> [] \<and> mc_scope h = di_scope c)) \<and>
    (cap_web p \<longrightarrow> ap_ui ap \<and> pl_base_url (ap_pipeline ap) \<noteq> []) \<and>
    0 < pl_workers (ap_pipeline ap) \<and> fst (enqueue j (ap_pipeline ap)) \<and>
    2 * srv_max_message_bytes (ap_smtp ap) \<le> max_bytes (ap_store ap) \<and>
    (\<forall>m h. ap_mailer ap = Some (m, h) \<longrightarrow> gc_large_scans m \<longrightarrow>
       (\<exists>tok. ra_token A = Token_Fetched tok \<and> ''Mail.ReadWrite'' \<in> set (token_roles (ra_decode A) tok)))"
proof -
  note parts = run_parts_cases [OF assms(2)]
  note backed = load_capability_backed [OF assms(1,3)]
  note lims = read_limits_ok [OF load_parts(7) [OF assms(1)]]
  have "max_bytes (ap_store ap) = max_stored_bytes (cfg_limits c)"
    using parts(1) by (auto simp: new_store_def Let_def dest!: sym [of _ "ap_store ap"] split: if_splits option.splits)
  moreover have "2 * max_message_bytes (cfg_limits c) \<le> max_stored_bytes (cfg_limits c)" using lims by linarith
  ultimately have "2 * srv_max_message_bytes (ap_smtp ap) \<le> max_bytes (ap_store ap)" by (simp add: parts(6) new_server_def)
  moreover have "0 < nat (max_concurrent_jobs (cfg_limits c))" using lims by simp
  moreover have "gc_large_scans m \<Longrightarrow> \<exists>tok. ra_token A = Token_Fetched tok \<and> ''Mail.ReadWrite'' \<in> set (token_roles (ra_decode A) tok)"
    if "ap_mailer ap = Some (m, h)" for m h
    using that by (auto simp: parts(3) mail_client_def mail_read_write_def split: if_splits token_fetch.splits)
  ultimately show ?thesis
    using backed by (auto simp: parts mail_client_def ocr_client_def ms_client_for_def new_pipeline_def enqueue_def queue_per_worker_def)
qed

theorem appliance_backs_its_jobs_witness:
  "\<exists>ap m h. run_parts \<lparr>ra_abs = Some, ra_prepare = (\<lambda>_. True), ra_decode = (\<lambda>_. None), ra_token = Token_Late, ra_discovery = (\<lambda>_. True)\<rparr>
      ex_loaded = Inr ap \<and> ap_mailer ap = Some (m, h) \<and> gc_sender m \<noteq> [] \<and> ap_ui ap"
proof -
  let ?A = "\<lparr>ra_abs = Some, ra_prepare = (\<lambda>_. True), ra_decode = (\<lambda>_. None), ra_token = Token_Late, ra_discovery = (\<lambda>_. True)\<rparr>"
  have "temp_dir (fst (settings ex_env)) = ''/tmp''" by (simp add: settings_def Let_def ex_parts)
  then have "temp_dir ex_loaded \<noteq> []" using load_settings [OF ex_load] by simp
  then obtain ap where ap: "run_parts ?A ex_loaded = Inr ap"
    by (simp add: run_parts_def new_store_def http_ui_def ex_loaded_fields Let_def)
  from appliance_backs_its_jobs [OF ex_load ap ex_profile] ap show ?thesis by fastforce
qed

end
