(* ===== verification/Run_Order.thy ===== *)
theory Run_Order
  imports S2G_Prelude "HOL-Library.Sublist"
begin

text \<open>
  The order in which \<open>run\<close> of \<open>cmd/scan2graph/main.go\<close> starts the parts of the appliance and takes them down again, on each
  of its ways out: what its statements do, and what they defer.
\<close>

section \<open>run as a list of statements\<close>

datatype run_act =
    Go_Sweep | Go_Workers | Go_Smtp | Go_Http
  | Close_Smtp | Shutdown_Http | Stop_Workers | Await_Workers | Close_Store | Stop_Signals

datatype go_stmt = Do run_act | Defer run_act

text \<open>A function's deferred calls run when it returns, the last one first.\<close>

fun run_stmts :: "go_stmt list \<Rightarrow> run_act list \<Rightarrow> run_act list" where
  "run_stmts [] deferred = deferred"
| "run_stmts (Do a # rest) deferred = a # run_stmts rest deferred"
| "run_stmts (Defer a # rest) deferred = run_stmts rest (a # deferred)"

text \<open>The ways out: the store cannot be made, the HTTP handler cannot be built, a listener fails, a signal comes.\<close>

datatype run_exit = No_Store | No_Handler | Listener_Failed | Signalled

definition run_body :: "run_exit \<Rightarrow> go_stmt list" where
  "run_body x =
     [Defer Stop_Signals] @
     (if x = No_Store then []
      else [Defer Close_Store, Do Go_Sweep, Defer Stop_Workers, Do Go_Workers] @
        (if x = No_Handler then []
         else [Do Go_Smtp, Do Go_Http] @
           (if x = Listener_Failed then [] else [Do Close_Smtp, Do Shutdown_Http, Do Stop_Workers, Do Await_Workers])))"

definition run_acts :: "run_exit \<Rightarrow> run_act list" where
  "run_acts x = run_stmts (run_body x) []"

text \<open>What is up after the first steps of a run.\<close>

definition smtp_up :: "run_act list \<Rightarrow> bool" where
  "smtp_up acts \<longleftrightarrow> Go_Smtp \<in> set acts \<and> Close_Smtp \<notin> set acts"

definition workers_up :: "run_act list \<Rightarrow> bool" where
  "workers_up acts \<longleftrightarrow> Go_Workers \<in> set acts \<and> Stop_Workers \<notin> set acts"

definition http_up :: "run_act list \<Rightarrow> bool" where
  "http_up acts \<longleftrightarrow> Go_Http \<in> set acts \<and> Shutdown_Http \<notin> set acts"

lemma run_acts_simps:
  "run_acts No_Store = [Stop_Signals]"
  "run_acts No_Handler = [Go_Sweep, Go_Workers, Stop_Workers, Close_Store, Stop_Signals]"
  "run_acts Listener_Failed = [Go_Sweep, Go_Workers, Go_Smtp, Go_Http, Stop_Workers, Close_Store, Stop_Signals]"
  "run_acts Signalled = [Go_Sweep, Go_Workers, Go_Smtp, Go_Http, Close_Smtp, Shutdown_Http, Stop_Workers, Await_Workers,
     Stop_Workers, Close_Store, Stop_Signals]"
  by (simp_all add: run_acts_def run_body_def)

text \<open>
  Unless a listener fails, the SMTP side only takes scans while there are workers to process them, both listeners are down
  before the store is closed, and the store is closed on every way out that made it.
\<close>

lemma workers_outlive_smtp:
  assumes "x \<noteq> Listener_Failed" "prefix p (run_acts x)"
  shows "(smtp_up p \<longrightarrow> workers_up p) \<and> (smtp_up p \<or> http_up p \<longrightarrow> Close_Store \<notin> set p)"
  using assms
  by (cases x) (auto simp: run_acts_simps prefix_Cons smtp_up_def workers_up_def http_up_def)

lemma store_closed_at_the_end: "x \<noteq> No_Store \<Longrightarrow> Close_Store \<in> set (run_acts x) \<and> Stop_Workers \<in> set (run_acts x)"
  by (cases x) (simp_all add: run_acts_simps)

text \<open>
  When a listener fails, \<open>run\<close> returns without closing the other one: the workers stop while the SMTP side, if it is the
  HTTP side that failed, is still up.
\<close>

lemma failed_listener_stops_workers_first: "\<exists>p. prefix p (run_acts Listener_Failed) \<and> smtp_up p \<and> \<not> workers_up p"
  by (rule exI [of _ "[Go_Sweep, Go_Workers, Go_Smtp, Go_Http, Stop_Workers]"])
     (simp add: run_acts_simps smtp_up_def workers_up_def)

end
