(* ===== verification/Appliance.thy ===== *)
theory Appliance
  imports Startup_Run Smtp_System Web_Properties Pipeline_Properties
begin

text \<open>
  The running appliance: what \<open>run\<close> of \<open>cmd/scan2graph/main.go\<close> starts, working on one store. Any number of SMTP
  connections, the worker pool, the store's own goroutine and the web UI take their steps in any order; a step is a
  stretch of code under one lock. Where a session lets others in between (inside \<open>Reserve\<close>, and between the commit of
  a job and the answer of the queue) its handler is cut into the steps on both sides.

  \<open>cn_presented\<close>, \<open>cn_committed\<close>, \<open>as_working\<close> and \<open>as_mailed\<close> are histories: the credentials shown and the jobs
  committed on a connection, the jobs workers have taken, the mails sent.
\<close>

section \<open>Data, cut at its locks\<close>

text \<open>What \<open>Data\<close> does with the staging it got, and \<open>Data\<close> up to the point where the handler is asked.\<close>

definition data_take :: "staging \<Rightarrow> session \<Rightarrow> transaction \<times> session" where
  "data_take g s =
     (\<lparr>tx_staging = stg_id g, tx_generation = ses_generation s, tx_profile = ses_profile s, tx_caps = ses_caps s,
       tx_recipients = [] @ ses_recipients s\<rparr>, s\<lparr>ses_staging := Some (stg_id g)\<rparr>)"

abbreviation granting :: "job \<Rightarrow> unit \<Rightarrow> bool \<times> unit" where
  "granting j u \<equiv> (True, u)"

definition data_commit ::
  "(rune \<Rightarrow> rune) \<Rightarrow> (rune \<Rightarrow> bool) \<Rightarrow> transaction \<Rightarrow> data_error + scan_result \<Rightarrow> commit_env \<Rightarrow> session \<Rightarrow> store_system \<Rightarrow>
   smtp_error option \<times> session \<times> store_system \<times> effect list \<times> job option" where
  "data_commit low pr x outcome ce s S =
     (case data_end low pr granting x outcome ce s S () of (reply, s', T, u, e, acc) \<Rightarrow> (reply, s', T, e, acc))"

lemma data_begin_split:
  "data_begin c idr now mk env s S =
     (case reserve_lock (max_message_bytes (cfg_limits c)) idr now (sys_store S) of
        (Inl err, t) \<Rightarrow> (Inl (Reply err_no_capacity), s, S\<lparr>sys_store := t\<rparr>, [])
      | (Inr i, t) \<Rightarrow>
          (case reserve_finish i mk (env t) of
             (Inl err, u, e) \<Rightarrow> (Inl (Reply err_no_capacity), s, S\<lparr>sys_store := u\<rparr>, e)
           | (Inr g, u, e) \<Rightarrow>
               (case data_take g s of
                  (x, s') \<Rightarrow> (Inr x, s', S\<lparr>sys_store := u, sys_stagings := AList.update (stg_id g) g (sys_stagings S)\<rparr>, e))))"
  by (simp add: data_begin_def reserve_def data_take_def split: prod.splits sum.splits)

lemma data_end_split:
  "data_end low pr enq x oc ce s S q =
     (case data_commit low pr x oc ce s S of
        (reply, s', T, e, None) \<Rightarrow> (reply, s', T, q, e, None)
      | (reply, s', T, e, Some j) \<Rightarrow>
          (case enq j q of
             (True, q') \<Rightarrow> (reply, s', T, q', e, Some j)
           | (False, q') \<Rightarrow>
               (case delete (job_id j) (sys_store T) of
                  (r, t, ed) \<Rightarrow> (Some err_internal, s', T\<lparr>sys_store := t\<rparr>, q', e @ ed, None))))"
  by (simp add: data_commit_def data_end_def Let_def split: prod.splits sum.splits option.splits data_error.splits mime_error.splits)

section \<open>A connection\<close>

record connection =
  cn_session :: session
  cn_running :: "transaction list"
  cn_presented :: "(string \<times> string) list"
  cn_reserving :: "string option"
  cn_handing :: "job option"
  cn_committed :: "job list"

definition new_connection :: connection where
  "new_connection = \<lparr>cn_session = new_session, cn_running = [], cn_presented = [], cn_reserving = None, cn_handing = None,
     cn_committed = []\<rparr>"

text \<open>\<open>Data\<close> holds the session's mutex while it reserves and while it hands over.\<close>

definition unlocked :: "connection \<Rightarrow> bool" where
  "unlocked C = (cn_reserving C = None \<and> cn_handing C = None)"

text \<open>
  One step of a connection, on its own state, the store and the queue. The guards on the random ids, on what \<open>Lstat\<close>
  answers and on the file names are those of \<open>sys_step\<close>. A job the queue refused is deleted some time after the
  refusal; that the refusal itself is not asked for here only allows more.
\<close>

type_synonym shared = "connection \<times> store_system \<times> pipeline"

inductive conn_step :: "(rune \<Rightarrow> rune) \<Rightarrow> (rune \<Rightarrow> bool) \<Rightarrow> config \<Rightarrow> shared \<Rightarrow> shared \<Rightarrow> bool" for low pr c where
  cn_reset:
    "unlocked C \<Longrightarrow> reset (cn_session C) S = (s, T, e) \<Longrightarrow> conn_step low pr c (C, S, p) (C\<lparr>cn_session := s\<rparr>, T, p)"
| cn_auth:
    "unlocked C \<Longrightarrow> offers_auth c \<Longrightarrow> authenticate c user pass (cn_session C) = (r, s) \<Longrightarrow>
     conn_step low pr c (C, S, p) (C\<lparr>cn_session := s, cn_presented := (user, pass) # cn_presented C\<rparr>, S, p)"
| cn_mail:
    "unlocked C \<Longrightarrow> mail low c addr (cn_session C) S = (r, s, T, e) \<Longrightarrow>
     conn_step low pr c (C, S, p) (C\<lparr>cn_session := s\<rparr>, T, p)"
| cn_rcpt:
    "unlocked C \<Longrightarrow> rcpt low c addr (cn_session C) = (r, s) \<Longrightarrow> conn_step low pr c (C, S, p) (C\<lparr>cn_session := s\<rparr>, S, p)"
| cn_reserve:
    "unlocked C \<Longrightarrow> ses_profile (cn_session C) \<noteq> [] \<Longrightarrow> ses_recipients (cn_session C) \<noteq> [] \<Longrightarrow> unused_id i S \<Longrightarrow>
     reserve_lock (max_message_bytes (cfg_limits c)) (Some i) now (sys_store S) = (Inr i, t) \<Longrightarrow>
     conn_step low pr c (C, S, p)
       (C\<lparr>cn_reserving := Some i\<rparr>, S\<lparr>sys_store := t, sys_pending := i # sys_pending S\<rparr>, p)"
| cn_begun:
    "cn_reserving C = Some i \<Longrightarrow> reserve_finish i mk (sys_store S) = (Inr g, t, e) \<Longrightarrow> data_take g (cn_session C) = (x, s) \<Longrightarrow>
     conn_step low pr c (C, S, p)
       (C\<lparr>cn_session := s, cn_running := x # cn_running C, cn_reserving := None\<rparr>,
        S\<lparr>sys_store := t, sys_stagings := AList.update i g (sys_stagings S), sys_pending := removeAll i (sys_pending S)\<rparr>, p)"
| cn_begin_failed:
    "cn_reserving C = Some i \<Longrightarrow> reserve_finish i mk (sys_store S) = (Inl err, t, e) \<Longrightarrow>
     conn_step low pr c (C, S, p)
       (C\<lparr>cn_reserving := None\<rparr>, S\<lparr>sys_store := t, sys_pending := removeAll i (sys_pending S)\<rparr>, p)"
| cn_commit:
    "unlocked C \<Longrightarrow> x \<in> set (cn_running C) \<Longrightarrow>
     data_commit low pr x oc ce (cn_session C) S = (reply, s, T, e, acc) \<Longrightarrow>
     (\<And>f fi. ce_lstat ce f = Some fi \<Longrightarrow> 0 \<le> fs_size fi) \<Longrightarrow>
     (\<And>r. oc = Inr r \<Longrightarrow> distinct (map pdf_path (sr_pdfs r))) \<Longrightarrow>
     (\<And>r k. oc = Inr r \<Longrightarrow> ce_ids ce (length (sr_pdfs r)) = Some k \<Longrightarrow> map_of (jobs (sys_store S)) k = None) \<Longrightarrow>
     conn_step low pr c (C, S, p)
       (C\<lparr>cn_session := s, cn_running := remove1 x (cn_running C), cn_handing := acc,
          cn_committed := (case acc of None \<Rightarrow> cn_committed C | Some j \<Rightarrow> j # cn_committed C)\<rparr>, T, p)"
| cn_enqueued:
    "cn_handing C = Some j \<Longrightarrow> enqueue j p = (True, p') \<Longrightarrow> conn_step low pr c (C, S, p) (C\<lparr>cn_handing := None\<rparr>, S, p')"
| cn_refused:
    "cn_handing C = Some j \<Longrightarrow> delete (job_id j) (sys_store S) = (r, t, e) \<Longrightarrow>
     conn_step low pr c (C, S, p) (C\<lparr>cn_handing := None\<rparr>, S\<lparr>sys_store := t\<rparr>, p)"

section \<open>Everybody else who uses the store\<close>

text \<open>
  A message being read stages files; a worker sets the status of a job, creates, places and deletes; the store's own
  goroutine sweeps, and shutting down closes it. Each is the critical section of the store with the same guards as in
  \<open>sys_step\<close>; which jobs and in which order is left open, so what \<open>process\<close> does is among it.
\<close>

inductive house_step :: "store_system \<Rightarrow> store_system \<Rightarrow> bool" where
  hs_stage:
    "map_of (sys_stagings S) i = Some g \<Longrightarrow> staging_create_file pre mk g = (Inr f, g') \<Longrightarrow> file_in (stg_dir g) f \<Longrightarrow>
     house_step S (S\<lparr>sys_stagings := AList.update i g' (sys_stagings S)\<rparr>)"
| hs_status:
    "set_status k st err now (sys_store S) = (r, t, e) \<Longrightarrow>
     (\<And>r0. map_of (jobs (sys_store S)) k = Some r0 \<Longrightarrow> forward (status (rec_job r0)) st) \<Longrightarrow>
     house_step S (S\<lparr>sys_store := t\<rparr>)"
| hs_replace:
    "replace_document k did np ocr lstat (sys_store S) = (r, t, e) \<Longrightarrow>
     (\<And>fi. lstat np = Some fi \<Longrightarrow> 0 \<le> fs_size fi) \<Longrightarrow>
     (\<And>r0. map_of (jobs (sys_store S)) k = Some r0 \<Longrightarrow> path_clean np \<notin> doc_path ` set (documents (rec_job r0))) \<Longrightarrow>
     house_step S (S\<lparr>sys_store := t\<rparr>)"
| hs_register:
    "create_file_register k f (sys_store S) = (r, t, e) \<Longrightarrow> fresh_file f (sys_store S) \<Longrightarrow>
     (\<And>r0. map_of (jobs (sys_store S)) k = Some r0 \<Longrightarrow> file_in (rec_dir r0) f) \<Longrightarrow>
     house_step S (S\<lparr>sys_store := t\<rparr>)"
| hs_delete: "delete k (sys_store S) = (r, t, e) \<Longrightarrow> house_step S (S\<lparr>sys_store := t\<rparr>)"
| hs_clean: "clean_expired now (sys_store S) = (n, t, e) \<Longrightarrow> house_step S (S\<lparr>sys_store := t\<rparr>)"
| hs_close: "close_store (sys_store S) = (t, e) \<Longrightarrow> house_step S (S\<lparr>sys_store := t\<rparr>)"

section \<open>The appliance\<close>

text \<open>The mails a worker may send for a job.\<close>

definition job_mail :: "('o, 'm) services \<Rightarrow> string \<Rightarrow> job \<Rightarrow> message \<Rightarrow> bool" where
  "job_mail V url j m \<longleftrightarrow>
     Email (caps j) \<and> ((\<exists>ds. m = scan_message V (j\<lparr>documents := ds\<rparr>)) \<or> (\<exists>reason. m = notice_message url j reason))"

text \<open>Those are the mails \<open>process\<close> sends.\<close>

lemma notice_message_documents [simp]: "notice_message url (j\<lparr>documents := ds\<rparr>) reason = notice_message url j reason"
  by (simp add: notice_message_def)

lemma job_mail_intros:
  "Email (caps j) \<Longrightarrow> job_mail V url j (scan_message V (j\<lparr>documents := ds\<rparr>))" "Email (caps j) \<Longrightarrow> job_mail V url j (scan_message V j)"
  "Email (caps j) \<Longrightarrow> job_mail V url j (notice_message url j reason)"
proof -
  show scan: "job_mail V url j (scan_message V (j\<lparr>documents := ds\<rparr>))" if "Email (caps j)" for ds
    using that unfolding job_mail_def by blast
  show "job_mail V url j (scan_message V j)" if "Email (caps j)" using scan [OF that, of "documents j"] by simp
  show "job_mail V url j (notice_message url j reason)" if "Email (caps j)" using that unfolding job_mail_def by blast
qed

lemma process_job_mail:
  "\<exists>l. pw_sent (process V url j w) = pw_sent w @ l \<and> list_all (\<lambda>(c, m, r). job_mail V url j m) l"
proof -
  obtain l where "pw_sent (process V url j w) = pw_sent w @ l"
    "if Email (caps j) \<and> \<not> is_Inl (fst (store_call V (set_status (job_id j) StatusProcessing [] (sv_now V (pw_tick w))) w))
      then (OCR (caps j) \<and> (\<exists>reason r. l = [(NoticeContext, notice_message url j reason, r)])) \<or>
           (\<exists>ds. mail_history V url (j\<lparr>documents := ds\<rparr>) l \<and>
              (if OCR (caps j) then list_all2 ocr_of (documents j) ds else ds = documents j))
      else l = []"
    using process_sent [of V url j w] by blast
  moreover from this(2) have "list_all (\<lambda>(c, m, r). job_mail V url j m) l"
    by (auto simp: job_mail_intros mail_history_def split: if_splits)
  ultimately show ?thesis by blast
qed

record appliance_state =
  as_store :: store_system
  as_pipe :: pipeline
  as_conns :: "connection list"
  as_working :: "job list"
  as_mailed :: "message list"
  as_web :: web_system

inductive appliance_step ::
  "web_server \<Rightarrow> (rune \<Rightarrow> bool) \<Rightarrow> ('o, 'm) services \<Rightarrow> appliance_state \<Rightarrow> appliance_state \<Rightarrow> bool" for W pr V where
  as_open: "appliance_step W pr V A (A\<lparr>as_conns := as_conns A @ [new_connection]\<rparr>)"
| as_conn:
    "n < length (as_conns A) \<Longrightarrow>
     conn_step (ws_low W) pr (ws_cfg W) (as_conns A ! n, as_store A, as_pipe A) (C, T, p) \<Longrightarrow>
     appliance_step W pr V A (A\<lparr>as_conns := (as_conns A)[n := C], as_store := T, as_pipe := p\<rparr>)"
| as_house: "house_step (as_store A) T \<Longrightarrow> appliance_step W pr V A (A\<lparr>as_store := T\<rparr>)"
| as_take:
    "take_job stopping (as_pipe A) = (Some j, p) \<Longrightarrow>
     appliance_step W pr V A (A\<lparr>as_pipe := p, as_working := j # as_working A\<rparr>)"
| as_mail:
    "j \<in> set (as_working A) \<Longrightarrow> job_mail V (pl_base_url (as_pipe A)) j m \<Longrightarrow>
     appliance_step W pr V A (A\<lparr>as_mailed := m # as_mailed A\<rparr>)"
| as_http:
    "ws_clock (as_web A) \<le> now \<Longrightarrow> wr_session rnd \<notin> set (ws_issued (as_web A)) \<Longrightarrow>
     appliance_handle W rnd now (sys_store (as_store A)) r (ws_sessions (as_web A)) = (rsp, m) \<Longrightarrow>
     appliance_step W pr V A
       (A\<lparr>as_web := \<lparr>ws_sessions = m, ws_issued = wr_session rnd # ws_issued (as_web A), ws_clock = now\<rparr>\<rparr>)"

text \<open>It starts with the parts \<open>run\<close> built from the configuration, before anybody has connected.\<close>

definition appliance_init :: "run_answers \<Rightarrow> web_server \<Rightarrow> appliance_state \<Rightarrow> bool" where
  "appliance_init R W A \<longleftrightarrow>
     0 \<le> max_message_bytes (cfg_limits (ws_cfg W)) \<and>
     (\<exists>ap cs. run_parts R (ws_cfg W) = Inr ap \<and> ra_abs R (temp_dir (ws_cfg W)) = Some (abs_path cs) \<and>
        list_all normal_comp cs \<and>
        as_store A = \<lparr>sys_store = ap_store ap, sys_stagings = [], sys_pending = []\<rparr> \<and> as_pipe A = ap_pipeline ap) \<and>
     as_conns A = [] \<and> as_working A = [] \<and> as_mailed A = [] \<and> web_init (as_web A)"

end
