(* ===== verification/Appliance_Refinement.thy ===== *)
theory Appliance_Refinement
  imports Appliance
begin

text \<open>
  Every part of the running appliance behaves as its own theory says: the shared store is a reachable state of the job
  store, the sessions of the web UI are a reachable state of the web server, and each connection, seen alone, is a
  reachable state of an SMTP connection around which the store changes as it likes.
\<close>

section \<open>The store\<close>

lemma house_sys: "house_step S T \<Longrightarrow> \<exists>e. sys_step S e T"
  by (cases rule: house_step.cases)
     (blast intro: step_stage_file step_set_status step_replace step_register step_delete step_clean step_close)+

lemma house_reachable: "reachable_store S \<Longrightarrow> house_step S T \<Longrightarrow> reachable_store T"
  using house_sys reachable_store_step by blast

lemma abort_staging_reachable:
  assumes "reachable_store S" "abort_staging i S = (T, e)"
  shows "reachable_store T"
proof (cases "map_of (sys_stagings S) i")
  case None
  with assms show ?thesis by (simp add: abort_staging_def)
next
  case (Some g)
  obtain g' t ef where a: "abort g (sys_store S) = (g', t, ef)" by (metis prod_cases3)
  with assms(2) Some have "T = S\<lparr>sys_store := t, sys_stagings := AList.update i g' (sys_stagings S)\<rparr>"
    by (auto simp: abort_staging_def)
  with reachable_store_step [OF assms(1) step_abort [OF Some a]] show ?thesis by simp
qed

lemma abort_staging_pending: "abort_staging i S = (T, e) \<Longrightarrow> sys_pending T = sys_pending S"
  by (auto simp: abort_staging_def split: option.splits prod.splits)

lemma reset_cases: "reset s S = (s', T, e) \<Longrightarrow> T = S \<or> (\<exists>i. abort_staging i S = (T, e))"
  by (auto simp: reset_def split: option.splits prod.splits)

lemma mail_store: "mail low c addr s S = (r, s', T, e) \<Longrightarrow> \<exists>s1. reset s S = (s1, T, e)"
  by (auto simp: mail_def Let_def split: prod.splits if_splits option.splits)

lemma reset_reachable: "reachable_store S \<Longrightarrow> reset s S = (s', T, e) \<Longrightarrow> reachable_store T"
  using reset_cases abort_staging_reachable by metis

lemma reset_pending: "reset s S = (s', T, e) \<Longrightarrow> sys_pending T = sys_pending S"
  using reset_cases abort_staging_pending by metis

text \<open>The two ways a call of \<open>Data\<close> ends before the queue is asked.\<close>

lemma data_commit_cases:
  assumes "data_commit low pr x oc ce s S = (reply, s', T, e, acc)"
  obtains (dropped) ea where "abort_staging (tx_staging x) S = (T, ea)" "acc = None"
  | (committed) r g j g' t where "oc = Inr r" "map_of (sys_stagings S) (tx_staging x) = Some g"
      "commit low pr (ce_lstat ce) (ce_ids ce) (ce_now ce) (tx_job x r) g (sys_store S) = (Inr j, g', t, e)"
      "T = S\<lparr>sys_store := t, sys_stagings := AList.update (tx_staging x) g' (sys_stagings S)\<rparr>" "acc = Some j"
proof -
  have run: "data_end low pr granting x oc ce s S () = (reply, s', T, (), e, acc)"
    using assms by (auto simp: data_commit_def split: prod.splits)
  then show thesis
  proof (cases rule: data_end_cases)
    case dropped
    then show thesis using that(1) by (metis prod.collapse)
  next
    case (accepted r g j g' t e1)
    have "e1 = e" using accepted run by (auto simp: data_end_def Let_def split: prod.splits)
    with accepted that(2) show thesis by blast
  qed simp
qed

lemma data_commit_reachable:
  assumes S: "reachable_store S" and run: "data_commit low pr x oc ce s S = (reply, s', T, e, acc)"
    and sz: "\<And>f fi. ce_lstat ce f = Some fi \<Longrightarrow> 0 \<le> fs_size fi"
    and dist: "\<And>r. oc = Inr r \<Longrightarrow> distinct (map pdf_path (sr_pdfs r))"
    and fresh: "\<And>r k. oc = Inr r \<Longrightarrow> ce_ids ce (length (sr_pdfs r)) = Some k \<Longrightarrow> map_of (jobs (sys_store S)) k = None"
  shows "reachable_store T"
  using run
proof (cases rule: data_commit_cases)
  case dropped
  show ?thesis by (rule abort_staging_reachable [OF S dropped(1)])
next
  case (committed r g j g' t)
  have "map nd_path (nj_documents (tx_job x r)) = map pdf_path (sr_pdfs r)" "length (nj_documents (tx_job x r)) = length (sr_pdfs r)"
    by (simp_all add: tx_job_def)
  then have "sys_step S e T"
    unfolding committed(4) using dist [OF committed(1)] fresh [OF committed(1)]
    by (intro step_commit [OF committed(2,3) sz]) simp_all
  with S show ?thesis by (rule reachable_store_step)
qed

text \<open>A connection that is reserving: its id is pending, and it has a sender and a recipient.\<close>

definition reserving_ok :: "connection \<Rightarrow> store_system \<Rightarrow> bool" where
  "reserving_ok C S \<longleftrightarrow> (\<forall>i. cn_reserving C = Some i \<longrightarrow>
     i \<in> set (sys_pending S) \<and> ses_profile (cn_session C) \<noteq> [] \<and> ses_recipients (cn_session C) \<noteq> [])"

lemma conn_step_reachable:
  assumes "conn_step low pr c (C, S, p) (C', S', p')" "reachable_store S" "reserving_ok C S" "0 \<le> max_message_bytes (cfg_limits c)"
  shows "reachable_store S'"
  using assms
proof cases
  case cn_reset
  with assms(2) reset_reachable show ?thesis by metis
next
  case cn_mail
  with assms(2) reset_reachable mail_store show ?thesis by metis
next
  case (cn_reserve i now t)
  with reachable_store_step [OF assms(2) step_reserve [OF cn_reserve(8) assms(4) cn_reserve(7)]] show ?thesis by simp
next
  case (cn_begun i mk g t e x s)
  with assms(3) have "i \<in> set (sys_pending S)" by (simp add: reserving_ok_def)
  from reachable_store_step [OF assms(2) step_reserve_done [OF this cn_begun(5)]] cn_begun show ?thesis by simp
next
  case (cn_begin_failed i mk err t e)
  with assms(3) have "i \<in> set (sys_pending S)" by (simp add: reserving_ok_def)
  from reachable_store_step [OF assms(2) step_reserve_failed [OF this cn_begin_failed(5)]] cn_begin_failed show ?thesis by simp
next
  case (cn_commit x oc ce reply s e acc)
  show ?thesis by (rule data_commit_reachable [OF assms(2) cn_commit(5-8)])
next
  case (cn_refused j r t e)
  with reachable_store_step [OF assms(2) step_delete] show ?thesis by simp
qed simp_all

lemma conn_step_reserving:
  assumes "conn_step low pr c (C, S, p) (C', S', p')" "reserving_ok C S"
  shows "reserving_ok C' S'" "cn_reserving C' = Some i \<Longrightarrow> cn_reserving C = Some i \<or> i \<notin> set (sys_pending S)"
    "i \<in> set (sys_pending S) \<Longrightarrow> cn_reserving C \<noteq> Some i \<Longrightarrow> i \<in> set (sys_pending S')"
proof -
  have "reserving_ok C' S' \<and> (cn_reserving C' = Some i \<longrightarrow> cn_reserving C = Some i \<or> i \<notin> set (sys_pending S)) \<and>
    (i \<in> set (sys_pending S) \<longrightarrow> cn_reserving C \<noteq> Some i \<longrightarrow> i \<in> set (sys_pending S'))"
    using assms
  proof cases
    case (cn_mail addr r s e)
    from mail_store [OF cn_mail(4)] have "sys_pending S' = sys_pending S" using reset_pending by metis
    with cn_mail show ?thesis by (simp add: reserving_ok_def unlocked_def)
  next
    case (cn_commit x oc ce reply s e acc)
    have "sys_pending S' = sys_pending S"
      using cn_commit(5) by (cases rule: data_commit_cases) (simp_all add: abort_staging_pending)
    with cn_commit show ?thesis by (simp add: reserving_ok_def unlocked_def)
  qed (auto simp: reserving_ok_def unlocked_def unused_id_def dest: reset_pending)
  then show "reserving_ok C' S'" "cn_reserving C' = Some i \<Longrightarrow> cn_reserving C = Some i \<or> i \<notin> set (sys_pending S)"
    "i \<in> set (sys_pending S) \<Longrightarrow> cn_reserving C \<noteq> Some i \<Longrightarrow> i \<in> set (sys_pending S')" by blast+
qed

lemma house_pending: "house_step S T \<Longrightarrow> sys_pending T = sys_pending S"
  by (erule house_step.cases) simp_all

section \<open>The connections\<close>

text \<open>
  A connection seen alone: its store and queue are what the others make of them, and what it hands over counts as
  accepted when it is committed.
\<close>

definition conn_view :: "connection \<Rightarrow> store_system \<Rightarrow> unit smtp_system" where
  "conn_view C S = \<lparr>sm_session = cn_session C, sm_store = S, sm_queue = (), sm_running = cn_running C,
     sm_presented = cn_presented C, sm_accepted = cn_committed C\<rparr>"

abbreviation smtp_reachable :: "(rune \<Rightarrow> rune) \<Rightarrow> (rune \<Rightarrow> bool) \<Rightarrow> config \<Rightarrow> unit smtp_system \<Rightarrow> bool" where
  "smtp_reachable low pr c \<equiv> reachable_by smtp_init (smtp_step low pr c granting)"

lemma conn_view_simps [simp]:
  "sm_session (conn_view C S) = cn_session C" "sm_store (conn_view C S) = S" "sm_running (conn_view C S) = cn_running C"
  "sm_presented (conn_view C S) = cn_presented C" "sm_accepted (conn_view C S) = cn_committed C"
  by (simp_all add: conn_view_def)

lemma conn_view_any_store: "smtp_reachable low pr c (conn_view C S) \<Longrightarrow> smtp_reachable low pr c (conn_view C T)"
proof -
  assume "smtp_reachable low pr c (conn_view C S)"
  from reach_step [OF this do_others [where S = T and q = "()"]]
  show "smtp_reachable low pr c (conn_view C T)" by (simp add: conn_view_def)
qed

lemma new_connection_view: "smtp_reachable low pr c (conn_view new_connection S)"
  by (rule reach_init) (simp add: smtp_init_def new_connection_def)

text \<open>However the reservation came about, a finished one makes \<open>Data\<close> begin.\<close>

lemma begun_view:
  assumes r: "smtp_reachable low pr c (conn_view C S)"
    and ses: "ses_profile (cn_session C) \<noteq> []" "ses_recipients (cn_session C) \<noteq> []"
    and fin: "reserve_finish i mk (sys_store S) = (Inr g, t, e)" and tk: "data_take g (cn_session C) = (x, s)"
  shows "smtp_reachable low pr c (conn_view (C\<lparr>cn_session := s, cn_running := x # cn_running C, cn_reserving := None\<rparr>) T)"
proof -
  let ?want = "max_message_bytes (cfg_limits c)"
  let ?t = "(sys_store S)\<lparr>store_closed := False, used := 0, max_bytes := ?want\<rparr>"
  let ?S = "S\<lparr>sys_store := ?t\<rparr>"
  obtain u where "reserve_lock ?want (Some i) 0 ?t = (Inr i, u)" by (simp add: reserve_lock_def admits_locked_def)
  with fin tk obtain U where "data_begin c (Some i) 0 mk (\<lambda>_. sys_store S) (cn_session C) ?S = (Inr x, s, U, e)"
    by (simp add: data_begin_split)
  with ses have "smtp_step low pr c granting (conn_view C ?S)
      ((conn_view C ?S)\<lparr>sm_session := s, sm_store := U, sm_running := x # cn_running C\<rparr>)"
    using do_begin [of "conn_view C ?S" c "Some i" 0 mk "\<lambda>_. sys_store S" x s U e low pr granting] by simp
  from reach_step [OF conn_view_any_store [OF r] this]
  have "smtp_reachable low pr c (conn_view (C\<lparr>cn_session := s, cn_running := x # cn_running C, cn_reserving := None\<rparr>) U)"
    by (simp add: conn_view_def)
  then show ?thesis by (rule conn_view_any_store)
qed

lemma conn_step_view:
  assumes "conn_step low pr c (C, S, p) (C', S', p')" "smtp_reachable low pr c (conn_view C S)" "reserving_ok C S"
  shows "smtp_reachable low pr c (conn_view C' S')"
  using assms(1)
proof cases
  case (cn_reset s e)
  with do_reset [of "conn_view C S" s S' e] have "smtp_step low pr c granting (conn_view C S) (conn_view C' S')"
    by (simp add: conn_view_def)
  with assms(2) show ?thesis by (rule reach_step)
next
  case (cn_auth user pass r s)
  with do_auth [of c user pass "conn_view C S" r s] have "smtp_step low pr c granting (conn_view C S) (conn_view C' S')"
    by (simp add: conn_view_def)
  with assms(2) show ?thesis by (rule reach_step)
next
  case (cn_mail addr r s e)
  with do_mail [of low c addr "conn_view C S" r s S' e] have "smtp_step low pr c granting (conn_view C S) (conn_view C' S')"
    by (simp add: conn_view_def)
  with assms(2) show ?thesis by (rule reach_step)
next
  case (cn_rcpt addr r s)
  with do_rcpt [of low c addr "conn_view C S" r s] have "smtp_step low pr c granting (conn_view C S) (conn_view C' S')"
    by (simp add: conn_view_def)
  with assms(2) show ?thesis by (rule reach_step)
next
  case (cn_begun i mk g t e x s)
  with assms(3) begun_view [OF assms(2) _ _ cn_begun(5,6)] show ?thesis by (simp add: reserving_ok_def)
next
  case (cn_commit x oc ce reply s e acc)
  then have "data_end low pr granting x oc ce (sm_session (conn_view C S)) (sm_store (conn_view C S)) (sm_queue (conn_view C S)) =
      (reply, s, S', (), e, acc)"
    by (auto simp: data_commit_def conn_view_def split: prod.splits)
  from do_end [OF _ this] cn_commit have "smtp_step low pr c granting (conn_view C S) (conn_view C' S')"
    by (cases acc) (simp_all add: conn_view_def)
  with assms(2) show ?thesis by (rule reach_step)
qed (use conn_view_any_store [OF assms(2)] in \<open>simp_all add: conn_view_def\<close>)

section \<open>The web UI\<close>

text \<open>A request that is answered without a session changes none, like one the mux answers itself.\<close>

lemma web_idle: "web_handle W rnd now s \<lparr>wq_method = [], wq_segments = [], wq_query = [], wq_cookies = []\<rparr> m =
    (secure_headers (mux_answer []), m)"
  by (simp add: web_handle_def web_routes_def route_of_def Let_def)

lemma appliance_handle_web:
  assumes "appliance_handle W rnd now s r m = (rsp, m')"
  obtains r' rsp' where "web_handle W rnd now s r' m = (rsp', m')"
  using assms web_idle [of W rnd now s m] by (auto simp: appliance_handle_def split: if_splits)

lemma http_reachable:
  assumes "reachable_web W X" "ws_clock X \<le> now" "wr_session rnd \<notin> set (ws_issued X)"
    and "appliance_handle W rnd now s r (ws_sessions X) = (rsp, m)"
  shows "reachable_web W \<lparr>ws_sessions = m, ws_issued = wr_session rnd # ws_issued X, ws_clock = now\<rparr>"
proof -
  obtain r' rsp' where "web_handle W rnd now s r' (ws_sessions X) = (rsp', m)" by (rule appliance_handle_web [OF assms(4)])
  from web_serve [OF assms(2,3) this] have "web_next W X \<lparr>ws_sessions = m, ws_issued = wr_session rnd # ws_issued X, ws_clock = now\<rparr>"
    unfolding web_next_def by blast
  with assms(1) show ?thesis by (rule reach_step)
qed

section \<open>All of it\<close>

definition parts_inv :: "web_server \<Rightarrow> (rune \<Rightarrow> bool) \<Rightarrow> appliance_state \<Rightarrow> bool" where
  "parts_inv W pr A \<longleftrightarrow>
     0 \<le> max_message_bytes (cfg_limits (ws_cfg W)) \<and> reachable_store (as_store A) \<and> reachable_web W (as_web A) \<and>
     (\<forall>n < length (as_conns A). smtp_reachable (ws_low W) pr (ws_cfg W) (conn_view (as_conns A ! n) (as_store A)) \<and>
        reserving_ok (as_conns A ! n) (as_store A) \<and>
        (\<forall>m < length (as_conns A). m \<noteq> n \<longrightarrow>
           cn_reserving (as_conns A ! m) = None \<or> cn_reserving (as_conns A ! m) \<noteq> cn_reserving (as_conns A ! n)))"

lemma parts_inv_conn:
  assumes inv: "parts_inv W pr A" and n: "n < length (as_conns A)"
    and step: "conn_step (ws_low W) pr (ws_cfg W) (as_conns A ! n, as_store A, as_pipe A) (C, T, p)"
  shows "parts_inv W pr (A\<lparr>as_conns := (as_conns A)[n := C], as_store := T, as_pipe := p\<rparr>)"
proof -
  let ?S = "as_store A" and ?C = "as_conns A ! n"
  have S: "reachable_store ?S" "reserving_ok ?C ?S" "smtp_reachable (ws_low W) pr (ws_cfg W) (conn_view ?C ?S)"
    "0 \<le> max_message_bytes (cfg_limits (ws_cfg W))"
    using inv n by (auto simp: parts_inv_def)
  note mine = conn_step_reserving [OF step S(2)]
  have others: "smtp_reachable (ws_low W) pr (ws_cfg W) (conn_view (as_conns A ! m) T) \<and> reserving_ok (as_conns A ! m) T \<and>
      (cn_reserving (as_conns A ! m) = None \<or> cn_reserving (as_conns A ! m) \<noteq> cn_reserving C)"
    if m: "m < length (as_conns A)" "m \<noteq> n" for m
  proof -
    have D: "smtp_reachable (ws_low W) pr (ws_cfg W) (conn_view (as_conns A ! m) ?S)" "reserving_ok (as_conns A ! m) ?S"
      "cn_reserving (as_conns A ! m) = None \<or> cn_reserving (as_conns A ! m) \<noteq> cn_reserving ?C"
      using inv n m by (auto simp: parts_inv_def)
    have "i \<in> set (sys_pending T) \<and> cn_reserving C \<noteq> Some i" if "cn_reserving (as_conns A ! m) = Some i" for i
      using D(2,3) mine(2,3) [of i] that by (auto simp: reserving_ok_def)
    note kept = this
    have "reserving_ok (as_conns A ! m) T" using D(2) kept by (simp add: reserving_ok_def)
    moreover have "cn_reserving (as_conns A ! m) = None \<or> cn_reserving (as_conns A ! m) \<noteq> cn_reserving C"
      using kept by (cases "cn_reserving (as_conns A ! m)") auto
    ultimately show ?thesis using conn_view_any_store [OF D(1)] by blast
  qed
  have "reachable_store T" by (rule conn_step_reachable [OF step S(1,2,4)])
  moreover have "smtp_reachable (ws_low W) pr (ws_cfg W) (conn_view C T)" by (rule conn_step_view [OF step S(3,2)])
  ultimately show ?thesis
    using inv n mine(1) others unfolding parts_inv_def by (simp add: nth_list_update) metis
qed

lemma parts_inv_step: "appliance_step W pr V A B \<Longrightarrow> parts_inv W pr A \<Longrightarrow> parts_inv W pr B"
proof (induction rule: appliance_step.induct)
  case (as_open A)
  have "cn_reserving new_connection = None" by (simp add: new_connection_def)
  with as_open show ?case by (auto simp: parts_inv_def nth_append new_connection_view reserving_ok_def less_Suc_eq)
next
  case (as_conn n A C T p)
  then show ?case by (blast intro: parts_inv_conn)
next
  case (as_house A T)
  then show ?case
    using house_reachable house_pending [OF as_house(1)] conn_view_any_store by (auto simp: parts_inv_def reserving_ok_def)
next
  case (as_http A now rnd r rsp m)
  with http_reachable [OF _ as_http.hyps] show ?case by (simp add: parts_inv_def)
qed (simp_all add: parts_inv_def)

lemma parts_inv_init: "appliance_init R W A \<Longrightarrow> parts_inv W pr A"
proof -
  assume init: "appliance_init R W A"
  then obtain ap cs where ap: "run_parts R (ws_cfg W) = Inr ap" "ra_abs R (temp_dir (ws_cfg W)) = Some (abs_path cs)"
    "list_all normal_comp cs" "as_store A = \<lparr>sys_store = ap_store ap, sys_stagings = [], sys_pending = []\<rparr>"
    by (auto simp: appliance_init_def)
  have "sys_init (as_store A)"
    unfolding sys_init_def using ap(2-4)
    by (intro conjI exI [of _ "temp_dir (ws_cfg W)"] exI [of _ "ra_abs R"] exI [of _ "ra_prepare R"] exI [of _ "job_ttl (ws_cfg W)"]
        exI [of _ "max_stored_bytes (cfg_limits (ws_cfg W))"] exI [of _ cs]) (simp_all add: run_parts_cases(1) [OF ap(1)])
  then have "reachable_store (as_store A)" by (rule reach_init)
  moreover have "reachable_web W (as_web A)" using init by (intro reach_init) (simp add: appliance_init_def)
  ultimately show ?thesis using init by (simp add: parts_inv_def appliance_init_def)
qed

abbreviation reachable_appliance ::
  "run_answers \<Rightarrow> web_server \<Rightarrow> (rune \<Rightarrow> bool) \<Rightarrow> ('o, 'm) services \<Rightarrow> appliance_state \<Rightarrow> bool" where
  "reachable_appliance R W pr V \<equiv> reachable_by (appliance_init R W) (appliance_step W pr V)"

interpretation appliance_parts: invariant_system "appliance_init R W" "appliance_step W pr V" "parts_inv W pr" for R W pr V
  by unfold_locales (blast intro: parts_inv_init parts_inv_step)+

end
