(* ===== verification/Appliance_Properties.thy ===== *)
theory Appliance_Properties
  imports Appliance_Refinement
begin

text \<open>
  What the whole appliance guarantees: every theorem about a part holds of the part it runs, and a scan leaves it only by
  mail to the addressees an authenticated sender named within the allowlist, or by download to one of them who signed in.
\<close>

section \<open>Who a job is from and for does not change\<close>

definition job_tag :: "job \<Rightarrow> string \<times> job_capabilities \<times> string list" where
  "job_tag j = (job_profile j, caps j, recipients j)"

definition record_tags :: "(string \<times> job_record) list \<Rightarrow> (string \<times> job_capabilities \<times> string list) set" where
  "record_tags al = (\<lambda>p. job_tag (rec_job (snd p))) ` set al"

abbreviation store_tags :: "store_system \<Rightarrow> (string \<times> job_capabilities \<times> string list) set" where
  "store_tags S \<equiv> record_tags (jobs (sys_store S))"

lemma job_tag_update [simp]:
  "job_tag (j\<lparr>status := st\<rparr>) = job_tag j" "job_tag (j\<lparr>job_error := er\<rparr>) = job_tag j" "job_tag (j\<lparr>expires_at := x\<rparr>) = job_tag j"
  "job_tag (j\<lparr>documents := ds\<rparr>) = job_tag j"
  by (simp_all add: job_tag_def)

lemma tags_map_entry [simp]:
  "(\<And>r. job_tag (rec_job (f r)) = job_tag (rec_job r)) \<Longrightarrow> record_tags (AList.map_entry k f al) = record_tags al"
  by (induction al) (auto simp: record_tags_def)

lemma tags_delete: "record_tags (AList.delete k al) \<subseteq> record_tags al"
  by (auto simp: record_tags_def in_set_delete)

lemma tags_update: "record_tags (AList.update k r al) \<subseteq> insert (job_tag (rec_job r)) (record_tags al)"
  using set_update_subset [of k r al] by (force simp: record_tags_def)

lemma tags_charge [simp]: "record_tags (jobs (charge k n s)) = record_tags (jobs s)"
  by (simp add: charge_def split: option.splits)

lemma tags_evict_loop: "evict_loop cs held s = (t, ev) \<Longrightarrow> record_tags (jobs t) = record_tags (jobs s)"
proof (induction cs arbitrary: held s t ev)
  case (Cons c cs)
  obtain k r where c: "c = (k, r)" by (cases c)
  show ?case
  proof (cases "held \<le> max_bytes s")
    case True
    with Cons.prems c show ?thesis by simp
  next
    case False
    let ?s = "charge k 0 (s\<lparr>jobs := AList.map_entry k tombstone (jobs s)\<rparr>)"
    obtain ev' where "evict_loop cs (held - rec_bytes r) ?s = (t, ev')"
      using Cons.prems c False by (auto simp: Let_def split: prod.splits)
    from Cons.IH [OF this] show ?thesis by (simp add: tombstone_def)
  qed
qed simp

lemma tags_make_room: "make_room_locked s = (t, ev) \<Longrightarrow> record_tags (jobs t) = record_tags (jobs s)"
  by (auto simp: make_room_locked_def tags_evict_loop split: if_splits)

lemma tags_release [simp]: "jobs (release_reservation i s) = jobs s"
  by (simp add: release_reservation_def split: option.splits)

lemma tags_set_status: "set_status k st err now s = (r, t, e) \<Longrightarrow> record_tags (jobs t) = record_tags (jobs s)"
  by (auto simp: set_status_def update_job_def Let_def tags_make_room split: option.splits if_splits prod.splits)

lemma tags_replace: "replace_document k did np ocr lstat s = (r, t, e) \<Longrightarrow> record_tags (jobs t) = record_tags (jobs s)"
  by (cases rule: replace_document_cases) (auto simp: update_job_def tags_make_room)

lemma tags_register: "create_file_register k f s = (r, t, e) \<Longrightarrow> record_tags (jobs t) = record_tags (jobs s)"
  by (auto simp: create_file_register_def split: option.splits if_splits)

lemma tags_drop: "delete k s = (r, t, e) \<Longrightarrow> record_tags (jobs t) \<subseteq> record_tags (jobs s)"
  using tags_delete [of k "jobs (charge k 0 s)"] by (auto simp: delete_def Let_def split: option.splits)

lemma tags_sweep: "sweep_jobs rs now s = (t, dirs) \<Longrightarrow> record_tags (jobs t) \<subseteq> record_tags (jobs s)"
proof (induction rs arbitrary: s t dirs)
  case (Cons p rs)
  obtain k r where p: "p = (k, r)" by (cases p)
  let ?s = "(charge k 0 s)\<lparr>jobs := AList.delete k (jobs (charge k 0 s))\<rparr>"
  have "record_tags (jobs ?s) \<subseteq> record_tags (jobs s)" using tags_delete [of k "jobs (charge k 0 s)"] by simp
  with Cons show ?case by (fastforce simp: p Let_def split: if_splits prod.splits)
qed simp

lemma sweep_reservations_jobs: "sweep_reservations rs now s = (t, dirs) \<Longrightarrow> jobs t = jobs s"
  by (induction rs arbitrary: s t dirs) (fastforce split: if_splits prod.splits)+

lemma tags_clean: "clean_expired now s = (n, t, e) \<Longrightarrow> record_tags (jobs t) \<subseteq> record_tags (jobs s)"
  by (auto simp: clean_expired_def split: prod.splits dest!: tags_sweep sweep_reservations_jobs)

lemma house_tags: "house_step S T \<Longrightarrow> store_tags T \<subseteq> store_tags S"
proof (induction rule: house_step.induct)
  case (hs_close S t e)
  then show ?case by (auto simp: close_store_def record_tags_def split: if_splits)
qed (simp_all add: tags_set_status tags_replace tags_register tags_drop tags_clean)

lemma tags_commit:
  assumes "commit low pr lstat ids now n g s = (Inr j, g', t, e)"
  shows "record_tags (jobs t) \<subseteq> insert (job_tag j) (record_tags (jobs s))"
  using assms
proof (cases rule: commit_cases)
  case (committed docs jid j' r0 ev)
  with tags_make_room [OF committed(8)] tags_update [of jid "\<lparr>rec_job = j', rec_dir = stg_dir g, rec_bytes = res_bytes r0,
      rec_files = stg_files g\<rparr>" "jobs s"] show ?thesis by simp
qed simp

lemma abort_staging_tags: "abort_staging i S = (T, e) \<Longrightarrow> store_tags T = store_tags S"
  using abort_staging_frame(1) [of i S T e] by simp

lemma reset_tags: "reset s S = (s', T, e) \<Longrightarrow> store_tags T = store_tags S"
  using reset_cases abort_staging_tags by metis

definition committed_tags :: "connection \<Rightarrow> (string \<times> job_capabilities \<times> string list) set" where
  "committed_tags C = job_tag ` set (cn_committed C)"

lemma conn_step_tags:
  assumes "conn_step low pr c (C, S, p) (C', S', p')"
  shows "store_tags S' \<subseteq> store_tags S \<union> committed_tags C' \<and> set (cn_committed C) \<subseteq> set (cn_committed C')"
  using assms
proof cases
  case (cn_mail addr r s e)
  with mail_store reset_tags show ?thesis by fastforce
next
  case (cn_reserve i now t)
  then have "jobs t = jobs (sys_store S)" by (auto simp: reserve_lock_def split: if_splits)
  with cn_reserve show ?thesis by simp
next
  case (cn_begun i mk g t e x s)
  then have "jobs t = jobs (sys_store S)" by (auto simp: reserve_finish_def Let_def split: if_splits)
  with cn_begun show ?thesis by simp
next
  case (cn_begin_failed i mk err t e)
  then have "jobs t = jobs (sys_store S)" by (auto simp: reserve_finish_def Let_def split: if_splits)
  with cn_begin_failed show ?thesis by simp
next
  case (cn_commit x oc ce reply s e acc)
  have grow: "set (cn_committed C) \<subseteq> set (cn_committed C')" using cn_commit(1) by (auto split: option.splits)
  from cn_commit(5) show ?thesis
  proof (cases rule: data_commit_cases)
    case (dropped ea)
    with grow abort_staging_tags show ?thesis by auto
  next
    case (committed r g j g' t)
    with grow tags_commit [OF committed(3)] cn_commit(1) show ?thesis by (auto simp: committed_tags_def)
  qed
next
  case (cn_refused j r t e)
  with tags_drop [OF cn_refused(5)] show ?thesis by auto
qed (auto dest: reset_tags)

section \<open>Every job was handed in\<close>

definition handed_in :: "appliance_state \<Rightarrow> job set" where
  "handed_in A = (\<Union>C \<in> set (as_conns A). set (cn_committed C))"

definition trail_inv :: "('o, 'm) services \<Rightarrow> appliance_state \<Rightarrow> bool" where
  "trail_inv V A \<longleftrightarrow>
     store_tags (as_store A) \<subseteq> job_tag ` handed_in A \<and>
     (\<forall>C \<in> set (as_conns A). \<forall>j. cn_handing C = Some j \<longrightarrow> j \<in> set (cn_committed C)) \<and>
     set (pl_queue (as_pipe A)) \<subseteq> handed_in A \<and> set (as_working A) \<subseteq> handed_in A \<and>
     (\<forall>m \<in> set (as_mailed A). \<exists>j \<in> handed_in A. \<exists>url. job_mail V url j m)"

lemma conn_step_queue:
  assumes "conn_step low pr c (C, S, p) (C', S', p')" "\<And>j. cn_handing C = Some j \<Longrightarrow> j \<in> set (cn_committed C)"
  shows "set (pl_queue p') \<subseteq> set (pl_queue p) \<union> set (cn_committed C)"
    "cn_handing C' = Some j \<Longrightarrow> j \<in> set (cn_committed C')"
proof -
  have "set (pl_queue p') \<subseteq> set (pl_queue p) \<union> set (cn_committed C) \<and>
    (cn_handing C' = Some j \<longrightarrow> j \<in> set (cn_committed C'))"
    using assms
  proof cases
    case (cn_enqueued k)
    with assms(2) pipeline_queue.enq_accepts [OF cn_enqueued(4)] show ?thesis by auto
  qed auto
  then show "set (pl_queue p') \<subseteq> set (pl_queue p) \<union> set (cn_committed C)"
    "cn_handing C' = Some j \<Longrightarrow> j \<in> set (cn_committed C')" by blast+
qed

lemma trail_inv_conn:
  assumes inv: "trail_inv V A" and n: "n < length (as_conns A)"
    and step: "conn_step low pr c (as_conns A ! n, as_store A, as_pipe A) (C, T, p)"
  shows "trail_inv V (A\<lparr>as_conns := (as_conns A)[n := C], as_store := T, as_pipe := p\<rparr>)" (is "trail_inv V ?B")
proof -
  let ?C = "as_conns A ! n"
  have C: "?C \<in> set (as_conns A)" using n by simp
  have tags: "store_tags T \<subseteq> store_tags (as_store A) \<union> committed_tags C" and grow: "set (cn_committed ?C) \<subseteq> set (cn_committed C)"
    using conn_step_tags [OF step] by auto
  have B: "C \<in> set (as_conns ?B)" using n by (simp add: set_update_memI)
  have sub: "handed_in A \<subseteq> handed_in ?B"
  proof
    fix j assume "j \<in> handed_in A"
    then obtain m where m: "m < length (as_conns A)" "j \<in> set (cn_committed (as_conns A ! m))"
      by (auto simp: handed_in_def) (metis in_set_conv_nth)
    show "j \<in> handed_in ?B"
    proof (cases "m = n")
      case True
      with m grow B show ?thesis by (auto simp: handed_in_def)
    next
      case False
      with m(1) nth_mem [of m "as_conns ?B"] have "as_conns A ! m \<in> set (as_conns ?B)" by simp
      with m(2) show ?thesis unfolding handed_in_def by blast
    qed
  qed
  have hand: "j \<in> set (cn_committed D)" if "D \<in> set (as_conns A)" "cn_handing D = Some j" for D j
    using inv that by (auto simp: trail_inv_def)
  note queue = conn_step_queue [OF step hand [OF C]]
  have new: "set (cn_committed C) \<subseteq> handed_in ?B" "set (cn_committed ?C) \<subseteq> handed_in A" using B C by (auto simp: handed_in_def)
  have old: "store_tags (as_store A) \<subseteq> job_tag ` handed_in A" "set (pl_queue (as_pipe A)) \<subseteq> handed_in A"
    using inv by (simp_all add: trail_inv_def)
  have "store_tags T \<subseteq> job_tag ` handed_in ?B" using tags new(1) old(1) sub unfolding committed_tags_def by blast
  moreover have "set (pl_queue p) \<subseteq> handed_in ?B" using queue(1) new(2) old(2) sub by blast
  moreover have "\<forall>D \<in> set (as_conns ?B). \<forall>j. cn_handing D = Some j \<longrightarrow> j \<in> set (cn_committed D)"
    using queue(2) hand set_update_subset_insert [of "as_conns A" n C] by auto
  moreover have "set (as_working A) \<subseteq> handed_in ?B" "\<forall>m \<in> set (as_mailed A). \<exists>j \<in> handed_in ?B. \<exists>url. job_mail V url j m"
    using inv sub unfolding trail_inv_def by blast+
  ultimately show ?thesis by (simp add: trail_inv_def)
qed

lemma trail_inv_step: "appliance_step W pr V A B \<Longrightarrow> trail_inv V A \<Longrightarrow> trail_inv V B"
proof (induction rule: appliance_step.induct)
  case (as_conn n A C T p)
  then show ?case by (blast intro: trail_inv_conn)
next
  case (as_house A T)
  with house_tags [OF as_house(1)] show ?case by (auto simp: trail_inv_def handed_in_def)
next
  case (as_take stopping A j p)
  then show ?case by (auto simp: trail_inv_def handed_in_def take_job_def split: if_splits list.splits)
next
  case (as_mail j A m)
  then have "\<exists>k \<in> handed_in A. \<exists>url. job_mail V url k m" unfolding trail_inv_def by blast
  with as_mail.prems show ?case by (auto simp: trail_inv_def handed_in_def)
qed (auto simp: trail_inv_def handed_in_def new_connection_def)

lemma trail_inv_init: "appliance_init R W A \<Longrightarrow> trail_inv V A"
  by (auto simp: appliance_init_def trail_inv_def record_tags_def run_parts_def new_pipeline_def new_store_def Let_def
      split: sum.splits if_splits option.splits)

interpretation appliance_trail: invariant_system "appliance_init R W" "appliance_step W pr V" "trail_inv V" for R W pr V
  by unfold_locales (blast intro: trail_inv_init trail_inv_step)+

section \<open>The theorems about the whole\<close>


text \<open>A connection that was logged in handed in a job for these recipients, from a sender with these capabilities.\<close>

definition handed_in_by :: "web_server \<Rightarrow> appliance_state \<Rightarrow> string list \<Rightarrow> capabilities \<Rightarrow> bool" where
  "handed_in_by W A rs cp \<longleftrightarrow>
     (\<exists>C \<in> set (as_conns A). \<exists>j \<in> set (cn_committed C).
        recipients j = rs \<and> caps j = job_caps cp \<and> sender_known (ws_low W) (ws_cfg W) (job_profile j) cp \<and>
        login_seen (ws_cfg W) (cn_presented C)) \<and>
     rs \<noteq> [] \<and> (\<forall>r \<in> set rs. canonical (ws_low W) r \<and> recipient_allowed (ws_low W) (ws_cfg W) r)"

lemma handed_in_good:
  assumes low: "lower_table (ws_low W)" and A: "reachable_appliance R W pr V A" and j: "j \<in> handed_in A"
  obtains cp where "handed_in_by W A (recipients j) cp" "caps j = job_caps cp"
proof -
  obtain C where C: "C \<in> set (as_conns A)" "j \<in> set (cn_committed C)" using j by (auto simp: handed_in_def)
  have "smtp_reachable (ws_low W) pr (ws_cfg W) (conn_view C (as_store A))"
    using appliance_parts.reachable_inv [OF A] C(1) by (auto simp: parts_inv_def in_set_conv_nth)
  from smtp_system.reachable_inv [OF this] low C(2) have "job_good (ws_low W) (ws_cfg W) (cn_presented C) j"
    by (simp add: smtp_inv_def list_all_iff)
  then obtain cp where "sender_known (ws_low W) (ws_cfg W) (job_profile j) cp" "caps j = job_caps cp"
    "recipients_good (ws_low W) (ws_cfg W) (recipients j)" "recipients j \<noteq> []" "login_seen (ws_cfg W) (cn_presented C)"
    by (auto simp: job_good_def)
  with C that [of cp] show thesis by (auto simp: handed_in_by_def recipients_good_def list_all_iff)
qed

lemma appliance_file_answer:
  assumes "appliance_handle W rnd now s r m = (rsp, m')" "wp_body rsp = File_Bytes content"
  shows "web_handle W rnd now s r m = (rsp, m')"
  using assms by (auto simp: appliance_handle_def plain_ok_def mux_answer_def split: if_splits)

lemma view_session: "session_view m now c = Some sess \<Longrightarrow> (c, sess) \<in> set m"
  by (auto simp: session_view_def split: option.splits if_splits dest: map_of_SomeD)


end
