(* ===== verification/Appliance_Example.thy ===== *)
theory Appliance_Example
  imports Appliance_Properties
begin

text \<open>
  The theorems about the appliance at work: a printer logs in and hands in a scan, a worker mails it and marks it ready,
  the addressee signs in and downloads it.
\<close>

section \<open>One scan from the printer to the browser\<close>

definition ex_answers :: run_answers where
  "ex_answers = \<lparr>ra_abs = (\<lambda>_. Some ''/t''), ra_prepare = (\<lambda>_. True), ra_decode = (\<lambda>_. None), ra_token = Token_Late,
     ra_discovery = (\<lambda>_. True)\<rparr>"

abbreviation ex_up :: "appliance_state \<Rightarrow> bool" where
  "ex_up \<equiv> reachable_appliance ex_answers ex_web (\<lambda>_. False) ex_services"

abbreviation ex_pipe :: "job list \<Rightarrow> pipeline" where
  "ex_pipe js \<equiv> \<lparr>pl_base_url = ''https://s.x.org'', pl_workers = 2, pl_queue = js\<rparr>"

abbreviation ex_house :: "store_system \<Rightarrow> pipeline \<Rightarrow> connection list \<Rightarrow> job list \<Rightarrow> message list \<Rightarrow> web_system \<Rightarrow> appliance_state" where
  "ex_house S p cs js ms X \<equiv> \<lparr>as_store = S, as_pipe = p, as_conns = cs, as_working = js, as_mailed = ms, as_web = X\<rparr>"

abbreviation ex_quiet :: web_system where
  "ex_quiet \<equiv> \<lparr>ws_sessions = [], ws_issued = [], ws_clock = 0\<rparr>"

abbreviation ex_cn :: "session \<Rightarrow> transaction list \<Rightarrow> string option \<Rightarrow> job option \<Rightarrow> job list \<Rightarrow> connection" where
  "ex_cn s xs res hand com \<equiv> \<lparr>cn_session = s, cn_running = xs, cn_presented = [(''scan'', ''secret'')], cn_reserving = res,
     cn_handing = hand, cn_committed = com\<rparr>"

lemma ex_web_simps [simp]: "ws_cfg ex_web = ex_config" "ws_low ex_web = (\<lambda>r. r)"
  by (simp_all add: ex_web_def)

lemma ex_conn_moves:
  assumes "ex_up (ex_house S p [C] js ms X)" "conn_step (\<lambda>r. r) (\<lambda>_. False) ex_config (C, S, p) (C', S', p')"
  shows "ex_up (ex_house S' p' [C'] js ms X)"
  using reach_step [OF assms(1), OF as_conn [of 0 "ex_house S p [C] js ms X" ex_web "\<lambda>_. False" C' S' p' ex_services]] assms(2) by simp

lemma ex_house_moves:
  assumes "ex_up (ex_house S p cs js ms X)" "house_step S T"
  shows "ex_up (ex_house T p cs js ms X)"
  using reach_step [OF assms(1), OF as_house [of "ex_house S p cs js ms X" T]] assms(2) by simp

lemma ex_opened: "ex_up (ex_house \<lparr>sys_store = ex_store, sys_stagings = [], sys_pending = []\<rparr> (ex_pipe []) [new_connection] [] [] ex_quiet)"
proof -
  let ?A = "ex_house \<lparr>sys_store = ex_store, sys_stagings = [], sys_pending = []\<rparr> (ex_pipe []) [] [] [] ex_quiet"
  have "new_store ''/t'' (\<lambda>_. Some ''/t'') (\<lambda>_. True) 100 50 = Inr ex_store" by (rule ex_store_new)
  then obtain ap where "run_parts ex_answers ex_config = Inr ap" "ap_store ap = ex_store" "ap_pipeline ap = ex_pipe []"
    by (auto simp: run_parts_def http_ui_def ex_answers_def ex_config_def new_pipeline_def)
  moreover have "abs_path [''t''] = ''/t''" "list_all normal_comp [''t'']" by (simp_all add: abs_path_def normal_comp_def)
  moreover have "temp_dir ex_config = ''/t''" "ra_abs ex_answers ''/t'' = Some ''/t''" "max_message_bytes (cfg_limits ex_config) = 20"
    by (simp_all add: ex_config_def ex_answers_def)
  ultimately have "appliance_init ex_answers ex_web ?A" unfolding appliance_init_def
    by (auto simp: web_init_def intro: exI [of _ "[''t'']"])
  then have "ex_up ?A" by (rule reach_init)
  from reach_step [OF this as_open] show ?thesis by simp
qed

lemma ex_addressed:
  "ex_up (ex_house \<lparr>sys_store = ex_store, sys_stagings = [], sys_pending = []\<rparr> (ex_pipe [])
     [ex_cn (ex_ses [''a@x.org''] None) [] None None []] [] [] ex_quiet)"
proof -
  let ?S = "\<lparr>sys_store = ex_store, sys_stagings = [], sys_pending = []\<rparr>"
  have "conn_step (\<lambda>r. r) (\<lambda>_. False) ex_config (new_connection, ?S, ex_pipe [])
      (new_connection\<lparr>cn_session := new_session\<lparr>ses_authenticated := True\<rparr>, cn_presented := [(''scan'', ''secret'')]\<rparr>, ?S, ex_pipe [])"
    using cn_auth [of new_connection ex_config "''scan''" "''secret''" None "new_session\<lparr>ses_authenticated := True\<rparr>"]
    by (simp add: unlocked_def new_connection_def offers_auth_def authenticate_def ex_config_def)
  from ex_conn_moves [OF ex_opened this]
  have r: "ex_up (ex_house ?S (ex_pipe []) [ex_cn (new_session\<lparr>ses_authenticated := True\<rparr>) [] None None []] [] [] ex_quiet)"
    by (simp add: new_connection_def)
  have "mail (\<lambda>r. r) ex_config ''scan@x.org'' (new_session\<lparr>ses_authenticated := True\<rparr>) ?S = (None, ex_ses [] None, ?S, [])"
    by (simp add: mail_def reset_def reset_session_def new_session_def profile_def ex_normalize ex_config_def ex_ses_def ex_caps_def)
  then have "conn_step (\<lambda>r. r) (\<lambda>_. False) ex_config (ex_cn (new_session\<lparr>ses_authenticated := True\<rparr>) [] None None [], ?S, ex_pipe [])
      (ex_cn (ex_ses [] None) [] None None [], ?S, ex_pipe [])"
    using cn_mail [of "ex_cn (new_session\<lparr>ses_authenticated := True\<rparr>) [] None None []" "\<lambda>r. r" ex_config "''scan@x.org''" ?S]
    by (simp add: unlocked_def)
  from ex_conn_moves [OF r this]
  have r: "ex_up (ex_house ?S (ex_pipe []) [ex_cn (ex_ses [] None) [] None None []] [] [] ex_quiet)" .
  have "recipient_allowed (\<lambda>r. r) ex_config ''a@x.org''"
    unfolding recipient_allowed_def canonical_after_last [OF ex_canonical(2)] canonical_domain_lower [OF ex_canonical(2)]
    by (simp add: ex_config_def after_def before_def)
  then have "rcpt (\<lambda>r. r) ex_config ''a@x.org'' (ex_ses [] None) = (None, ex_ses [''a@x.org''] None)"
    by (simp add: rcpt_def ex_normalize ex_ses_def)
  then have "conn_step (\<lambda>r. r) (\<lambda>_. False) ex_config (ex_cn (ex_ses [] None) [] None None [], ?S, ex_pipe [])
      (ex_cn (ex_ses [''a@x.org''] None) [] None None [], ?S, ex_pipe [])"
    using cn_rcpt [of "ex_cn (ex_ses [] None) [] None None []" "\<lambda>r. r" ex_config "''a@x.org''"] by (simp add: unlocked_def)
  from ex_conn_moves [OF r this] show ?thesis .
qed

definition ex_held :: "path list \<Rightarrow> store_system" where
  "ex_held fs = \<lparr>sys_store = ex_store\<lparr>reservations := [(''A'', \<lparr>res_dir = ex_dir, reserved_at = 5, res_bytes = 20\<rparr>)], used := 20\<rparr>,
     sys_stagings = [(''A'', \<lparr>stg_id = ''A'', stg_dir = ex_dir, stg_state = StagingOpen, stg_files = fs\<rparr>)], sys_pending = []\<rparr>"

lemma ex_reading:
  "ex_up (ex_house (ex_held [ex_dir @ ''/f'']) (ex_pipe [])
     [ex_cn (ex_ses [''a@x.org''] (Some ''A'')) [ex_transaction] None None []] [] [] ex_quiet)"
proof -
  let ?S = "\<lparr>sys_store = ex_store, sys_stagings = [], sys_pending = []\<rparr>" and ?s = "ex_ses [''a@x.org''] None"
  let ?t = "ex_store\<lparr>reservations := [(''A'', \<lparr>res_dir = ex_dir, reserved_at = 5, res_bytes = 20\<rparr>)], used := 20\<rparr>"
  let ?g = "\<lparr>stg_id = ''A'', stg_dir = ex_dir, stg_state = StagingOpen, stg_files = []\<rparr>"
  have "reserve_lock (max_message_bytes (cfg_limits ex_config)) (Some ''A'') 5 (sys_store ?S) = (Inr ''A'', ?t)"
    by (simp add: reserve_lock_def ex_store_def admits_locked_def ex_clean(3) ex_config_def)
  from ex_conn_moves [OF ex_addressed cn_reserve [OF _ _ _ _ this]]
  have r: "ex_up (ex_house (?S\<lparr>sys_store := ?t, sys_pending := [''A'']\<rparr>) (ex_pipe []) [ex_cn ?s [] (Some ''A'') None []] [] [] ex_quiet)"
    by (simp add: unlocked_def ex_ses_def unused_id_def normal_comp_def ex_store_def)
  have "reserve_finish ''A'' (\<lambda>_. True) ?t = (Inr ?g, ?t, [])"
    by (simp add: reserve_finish_def ex_store_def ex_clean(3))
  moreover have "data_take ?g ?s = (ex_transaction, ex_ses [''a@x.org''] (Some ''A''))"
    by (simp add: data_take_def ex_ses_def ex_transaction_def ex_caps_def)
  ultimately have "ex_up (ex_house (ex_held []) (ex_pipe []) [ex_cn (ex_ses [''a@x.org''] (Some ''A'')) [ex_transaction] None None []] [] [] ex_quiet)"
    using ex_conn_moves [OF r cn_begun [of _ "''A''" "\<lambda>_. True" _ ?g ?t "[]" ex_transaction]] by (simp add: ex_held_def)
  moreover have "house_step (ex_held []) (ex_held [ex_dir @ ''/f''])"
    using hs_stage [of "ex_held []" "''A''" ?g "[]" "\<lambda>_ _. Some (ex_dir @ ''/f'')" "ex_dir @ ''/f''" "?g\<lparr>stg_files := [ex_dir @ ''/f'']\<rparr>"]
    by (simp add: ex_held_def staging_create_file_def create_temp_file_def ex_file_in)
  ultimately show ?thesis by (rule ex_house_moves)
qed

definition ex_kept :: "job \<Rightarrow> store_system" where
  "ex_kept j = \<lparr>sys_store = ex_store\<lparr>jobs := [(''J'', \<lparr>rec_job = j, rec_dir = ex_dir, rec_bytes = 20, rec_files = [ex_dir @ ''/f'']\<rparr>)],
       used := 20\<rparr>,
     sys_stagings = [(''A'', \<lparr>stg_id = ''A'', stg_dir = ex_dir, stg_state = StagingCommitted, stg_files = [ex_dir @ ''/f'']\<rparr>)],
     sys_pending = []\<rparr>"

lemma ex_taken:
  "ex_up (ex_house (ex_kept ex_committed_job) (ex_pipe [])
     [ex_cn (ex_ses [''a@x.org''] None) [] None None [ex_committed_job]] [ex_committed_job] [] ex_quiet)"
proof -
  let ?g = "\<lparr>stg_id = ''A'', stg_dir = ex_dir, stg_state = StagingOpen, stg_files = [ex_dir @ ''/f'']\<rparr>"
  let ?s = "ex_ses [''a@x.org''] (Some ''A'')" and ?j = ex_committed_job
  have "commit (\<lambda>r. r) (\<lambda>_. False) ex_lstat (\<lambda>n. Some (if n = 0 then ''D'' else ''J'')) 6 ex_new_job ?g (sys_store (ex_held [ex_dir @ ''/f''])) =
     (Inr ?j, ?g\<lparr>stg_state := StagingCommitted\<rparr>, sys_store (ex_kept ?j), [])"
    by (simp add: commit_def ex_new_job_def ex_lstat_def commit_reservation_def ex_held_def ex_store_def ex_kept_def
          ex_committed_job_def make_room_locked_def held_bytes_def ex_clean ex_dir_def [symmetric] Let_def)
  moreover have "tx_job ex_transaction ex_scan = ex_new_job"
    by (simp add: tx_job_def ex_transaction_def ex_scan_def ex_new_job_def job_caps_def)
  moreover have "map_of (sys_stagings (ex_held [ex_dir @ ''/f''])) (tx_staging ex_transaction) = Some ?g" "ses_generation ?s = tx_generation ex_transaction"
    by (simp_all add: ex_held_def ex_transaction_def ex_ses_def)
  moreover have "(ex_held [ex_dir @ ''/f''])\<lparr>sys_store := sys_store (ex_kept ?j),
      sys_stagings := AList.update (tx_staging ex_transaction) (?g\<lparr>stg_state := StagingCommitted\<rparr>) (sys_stagings (ex_held [ex_dir @ ''/f'']))\<rparr> = ex_kept ?j"
    by (simp add: ex_held_def ex_kept_def ex_transaction_def)
  ultimately have "data_commit (\<lambda>r. r) (\<lambda>_. False) ex_transaction (Inr ex_scan) ex_commit_env ?s (ex_held [ex_dir @ ''/f'']) =
      (None, ?s\<lparr>ses_staging := None\<rparr>, ex_kept ?j, [], Some ?j)"
    by (simp add: data_commit_def data_end_def Let_def ex_commit_env_def split: prod.splits)
  then have "conn_step (\<lambda>r. r) (\<lambda>_. False) ex_config (ex_cn ?s [ex_transaction] None None [], ex_held [ex_dir @ ''/f''], ex_pipe [])
      (ex_cn (ex_ses [''a@x.org''] None) [] None (Some ?j) [?j], ex_kept ?j, ex_pipe [])"
    using cn_commit [of "ex_cn ?s [ex_transaction] None None []" ex_transaction "\<lambda>r. r" "\<lambda>_. False" "Inr ex_scan" ex_commit_env
        "ex_held [ex_dir @ ''/f'']"]
    by (simp add: unlocked_def ex_commit_env_def ex_lstat_def ex_scan_def ex_held_def ex_store_def ex_ses_def)
  from ex_conn_moves [OF ex_reading this]
  have "ex_up (ex_house (ex_kept ?j) (ex_pipe []) [ex_cn (ex_ses [''a@x.org''] None) [] None (Some ?j) [?j]] [] [] ex_quiet)" .
  from ex_conn_moves [OF this cn_enqueued [of _ ?j "ex_pipe []" "ex_pipe [?j]"]]
  have "ex_up (ex_house (ex_kept ?j) (ex_pipe [?j]) [ex_cn (ex_ses [''a@x.org''] None) [] None None [?j]] [] [] ex_quiet)"
    by (simp add: enqueue_def queue_per_worker_def)
  from reach_step [OF this, OF as_take [of False _ ?j "ex_pipe []"]] show ?thesis by (simp add: take_job_def)
qed

definition ex_mailed :: message where
  "ex_mailed = scan_message ex_services ex_committed_job"

definition ex_done :: appliance_state where
  "ex_done = ex_house ex_ready (ex_pipe []) [ex_cn (ex_ses [''a@x.org''] None) [] None None [ex_committed_job]] [ex_committed_job]
     [ex_mailed] ex_signed_in"

lemma ex_done_up: "ex_up ex_done"
proof -
  let ?j = ex_committed_job and ?cs = "[ex_cn (ex_ses [''a@x.org''] None) [] None None [ex_committed_job]]"
  have "set_status ''J'' StatusProcessing [] 6 (sys_store (ex_kept ?j)) = (Inr (), sys_store (ex_kept (?j\<lparr>status := StatusProcessing\<rparr>)), [])"
    by (simp add: set_status_def update_job_def ex_kept_def ex_committed_job_def finished_def)
  from hs_status [OF this] have "house_step (ex_kept ?j) (ex_kept (?j\<lparr>status := StatusProcessing\<rparr>))"
    by (simp add: ex_kept_def ex_committed_job_def forward_def)
  from ex_house_moves [OF ex_taken this]
  have r: "ex_up (ex_house (ex_kept (?j\<lparr>status := StatusProcessing\<rparr>)) (ex_pipe []) ?cs [?j] [] ex_quiet)" .
  have "job_mail ex_services ''https://s.x.org'' ?j ex_mailed"
    unfolding job_mail_def ex_mailed_def by (intro conjI disjI1 exI [of _ "documents ?j"]) (simp_all add: ex_committed_job_def)
  from reach_step [OF r, OF as_mail [of ?j _ ex_services ex_mailed]] this
  have r: "ex_up (ex_house (ex_kept (?j\<lparr>status := StatusProcessing\<rparr>)) (ex_pipe []) ?cs [?j] [ex_mailed] ex_quiet)" by simp
  have "set_status ''J'' StatusReady [] 7 (sys_store (ex_kept (?j\<lparr>status := StatusProcessing\<rparr>))) = (Inr (), sys_store ex_ready, [])"
    by (simp add: set_status_def update_job_def charge_def ex_kept_def ex_committed_job_def ex_store_def finished_def
          make_room_locked_def held_bytes_def doc_bytes_def ex_clean ex_ready_def ex_committed_def)
  from hs_status [OF this] have "house_step (ex_kept (?j\<lparr>status := StatusProcessing\<rparr>)) ex_ready"
    by (simp add: ex_kept_def ex_committed_job_def forward_def ex_ready_def ex_committed_def)
  from ex_house_moves [OF r this] have r: "ex_up (ex_house ex_ready (ex_pipe []) ?cs [?j] [ex_mailed] ex_quiet)" .
  have "split_on (CHR 0x7C) ''s|n|v'' = [''s'', ''n'', ''v'']" by code_simp
  then have "callback_claims (ws_idp ex_web) 0 ex_callback = Some \<lparr>cl_email = ''a@x.org'', cl_preferred_username = ''a@x.org'', cl_name = ''Ann''\<rparr>"
    by (simp add: callback_claims_def ex_callback_def ex_web_def cookie_def query_get_def lookup_def)
  then have "snd (web_handle ex_web (ex_random ''SID'') 0 (sys_store ex_ready) ex_callback []) = ws_sessions ex_signed_in"
    by (simp add: web_handle_def web_routes_def ex_callback_def ex_routes ex_config_def handle_callback_def Let_def
          session_create_def identities_of_def ex_normalize ex_random_def ex_signed_in_def)
  moreover have "\<not> health_route (path_prefix ex_config) (wq_method ex_callback) (wq_segments ex_callback)" "public_base_url ex_config \<noteq> []"
    by (simp_all add: health_route_def ex_callback_def ex_config_def)
  ultimately obtain rsp where "appliance_handle ex_web (ex_random ''SID'') 0 (sys_store ex_ready) ex_callback [] = (rsp, ws_sessions ex_signed_in)"
    by (auto simp: appliance_handle_def) (metis prod.collapse)
  with reach_step [OF r, OF as_http [of _ 0 "ex_random ''SID''" ex_web ex_callback rsp "ws_sessions ex_signed_in"]] show ?thesis
    by (simp add: ex_done_def ex_signed_in_def ex_random_def)
qed



end
