(* ===== verification/Divergences.thy ===== *)
theory Divergences
  imports Config_Load_Properties Docintel
begin

text \<open>
  Inputs on which the code does something other than what a comment says of it, each evaluated in the model.
\<close>

text \<open>\<open>ParseProfiles\<close>: a capability spelled twice in different letter case is no duplicate, and the last one counts; and a closing
  brace after the object is no trailing data.\<close>

lemma capability_twice_by_case:
  "\<not> json_has_duplicate (JMap [(''email'', JBool True), (''Email'', JBool False)])"
  "decode_capabilities (JMap [(''email'', JBool True), (''Email'', JBool False)]) = Some no_caps"
proof -
  have "ascii_fold ''Email'' = ''email''" "ascii_fold ''email'' = ''email''" by code_simp+
  then show "decode_capabilities (JMap [(''email'', JBool True), (''Email'', JBool False)]) = Some no_caps"
    by (simp add: set_capability_def no_caps_def Let_def)
qed simp

lemma trailing_brace_accepted: "parse_profiles [CHR 0x7B, CHR 0x7D, CHR 0x7D] = Some []"
  by code_simp

text \<open>A profile that can only recognise text is accepted, though a scan under it is delivered nowhere.\<close>

lemma ocr_only_profile_loads:
  "normalize_address low k \<noteq> [] \<Longrightarrow>
   profile_entries low [] [(k, \<lparr>cap_email = False, cap_web = False, cap_ocr = True\<rparr>)] =
     ([(normalize_address low k, \<lparr>cap_email = False, cap_web = False, cap_ocr = True\<rparr>)], [])"
  by (simp add: no_caps_def Let_def)

text \<open>The address of the result: an escaped slash in the operation's address comes out as a slash.\<close>

lemma result_url_drops_escape:
  "map_option result_url (url_parse ''https://h/a%2Fb'') = Some ''https://h/a/b/pdf''"
  by code_simp

end
