(* ===== verification/Spec2Isabelle.thy ===== *)
theory Spec2Isabelle
  imports Store_Properties Jobs_Properties Config_Properties Mimescan_Properties Msapi_Properties Pipeline_Properties Smtp_System
    Mime_Properties Job_Traffic Config_Load_Properties Web_Properties Setup_Server Setup_Check_Properties Startup_Properties Startup_Run Run_Order Appliance_Example Divergences
begin

text \<open>
  A model of scan2graph, the appliance that takes scans from a printer by SMTP, optionally runs them through text recognition,
  and hands them on by mail through Microsoft Graph and by download in a web UI. The Go program is translated function by
  function; names follow the source in Isabelle's spelling. Records stand for structs, datatypes for tagged values, sums for
  functions that can fail, strings for byte strings, integers of the type \<open>int\<close> for Go's where a theorem bounds them (and
  words where the wrap-around is the point). Stateful code is state passing, one function per critical section of a mutex, so
  that a step relation over these functions has every interleaving the locks allow.

  \<^bold>\<open>How the parts interact.\<close> \<open>main\<close> reads a configuration and serves it, or opens the setup wizard. The SMTP session checks sender and
  recipients against the configuration, reserves room in the job store, has the message taken apart by mimescan into a
  staging directory, commits it as a job and queues it. A pipeline worker takes it, sends its documents to Document
  Intelligence, mails them through graphmail, and sets the status; the store evicts finished jobs when it needs room. The web
  UI signs people in with OpenID Connect and serves them the jobs that name one of their addresses.

  \<^bold>\<open>The theories.\<close>

  \<^item> Prelude and Go: \<open>S2G_Prelude\<close> (association lists, sums over them, the locale \<open>invariant_system\<close> of reachable states, the
    collections of hints), \<open>Go_Strings\<close> (UTF-8 and \<open>strings\<close>), \<open>Go_Path\<close>, \<open>Go_Base64\<close>, \<open>Go_Url\<close> (\<open>net/url\<close>), \<open>Go_Json\<close> with
    \<open>Go_Json_Properties\<close> (what \<open>encoding/json\<close> writes it reads back).
  \<^item> Jobs (\<open>internal/jobs\<close>): \<open>Jobs\<close> (data, sanitizers), \<open>Store\<close> (every operation of the store, file removals as effects). \<open>Store_System\<close> is
    the step relation of the store with its stagings and reservations, \<open>Store_Budget\<close> the books (the counter is the sum of
    the charges), \<open>Store_Files\<close> and \<open>Store_Safety\<close> the ownership of files; \<open>Store_Properties\<close> and \<open>Jobs_Properties\<close> the theorems:
    no step removes a file a job points at, committed jobs fit the budget, eviction takes the oldest finished jobs and no
    more than it must, the sweep deletes what readers no longer see.
  \<^item> Configuration (\<open>internal/config\<close>): \<open>Config_Address\<close> (addresses, domains), \<open>Config_File\<close> (the file and its layering under the
    environment), \<open>Config_Env\<close> (the typed readings), \<open>Config_Load\<close> (\<open>Load\<close> with its errors in order); \<open>Config_Properties\<close> and
    \<open>Config_Load_Properties\<close>: what loads is no open relay, has a login, has limits that fit.
  \<^item> Mail in (\<open>internal/mimescan\<close>, \<open>internal/smtpin\<close>): \<open>Mimescan\<close>, \<open>Smtp_Session\<close>, and their theorems in \<open>Mimescan_Properties\<close>,
    \<open>Smtp_Properties\<close> and \<open>Smtp_System\<close>: an accepted job is from a known sender to allowed recipients after the configured login;
    a message is handed over whole, or leaves nothing behind.
  \<^item> Services (\<open>internal/msapi\<close>, \<open>docintel\<close>, \<open>graphmail\<close>): \<open>Msapi\<close> (retries), \<open>Docintel\<close>, \<open>Mail_Message\<close>, \<open>Mime_Compose\<close>, \<open>Graphmail\<close>,
    and the theories named after them with \<open>_Properties\<close>; \<open>Job_Traffic\<close> composes them: a token is sent to its service only.
  \<^item> Pipeline (\<open>internal/pipeline\<close>): \<open>Pipeline\<close>, \<open>Pipeline_Properties\<close>: the history of mails for a job, and that every job settles.
  \<^item> Web UI (\<open>internal/web\<close>): \<open>Web_Session\<close> (sessions, sign-in), \<open>Web_Ui\<close> (pages, routes), \<open>Web_Properties\<close>: the locale
    \<open>session_contract\<close> and its interpretation, only own documents are served, other people's scans are indistinguishable from
    absent ones, a session that signed out stays out.
  \<^item> Setup wizard (\<open>internal/web/setup*.go\<close>): \<open>Setup_Fields\<close> (the table of settings), \<open>Setup_Form\<close> (folding, the file's text, the view),
    \<open>Setup_Check\<close> (the connection test), \<open>Setup_Wizard\<close> (key, page memory, saving, \<open>submit\<close>), \<open>Setup_Server\<close> (the handler). \<open>Setup_System\<close> is
    the step relation with submissions in flight; \<open>Setup_Profiles\<close>, \<open>Setup_Properties\<close>, \<open>Setup_Check_Properties\<close> the round trips of
    the profile editor and the file, the folding of a submission, and that the test never shows the secret.
  \<^item> Start (\<open>cmd/scan2graph\<close>): \<open>Startup\<close> (flags, subcommands, marker, modes), \<open>Startup_Properties\<close> (an open wizard has nothing to take,
    the marker works once, what was saved is served), \<open>Startup_Run\<close> (what a configuration is turned into), \<open>Run_Order\<close> (the order in which
    \<open>run\<close> starts its goroutines and takes them down, on every way out).
  \<^item> The whole: \<open>Appliance\<close> is the program as \<open>run\<close> starts it, any number of SMTP connections, the workers, the store's own goroutine and
    the web UI on one store, one step per critical section, with \<open>Data\<close> cut where others may act (\<open>data_begin_split\<close>,
    \<open>data_end_split\<close>). \<open>Appliance_Refinement\<close> shows that each part, seen alone, is a reachable state of its own system, so that
    the theorems about the parts hold of the whole; \<open>Appliance_Properties\<close> follows a job from the connection that handed it in
    to every mail and download; \<open>Appliance_Example\<close> runs one scan from the printer to the browser.
  \<^item> \<open>Divergences\<close>: inputs on which the code and what a comment says of it part.

  \<^bold>\<open>Interfaces.\<close> \<open>invariant_system\<close> states what an initial-state predicate, a step relation and an invariant owe each other; it is
  interpreted for the store, the SMTP connection, the web server, the wizard and the appliance, and the properties rest on its fact that reachable states
  satisfy the invariant. \<open>session_contract\<close> states what the web server relies on in its session store; \<open>job_handler\<close> what the SMTP
  session relies on in the queue; \<open>ocr_service\<close>, \<open>networked_ocr\<close> and \<open>mailer\<close> what the pipeline relies on in the two clients.

  \<^bold>\<open>Bounds and fuel.\<close> Polling in \<open>Docintel\<close> takes fuel, with a theorem that the caller's deadline gives enough; the MIME walk is bounded by
  the depth the code checks; the JSON reader's fuel is more than the length of the text. Everything else recurses on its data. The appliance bounds neither its
  connections nor its steps.

  \<^bold>\<open>Parameters.\<close> Code outside the repository is an argument: the MIME readers and word decoder of the standard library, go-smtp's protocol,
  the OpenID Connect and OAuth libraries, the network, SHA-256, random texts, clocks, the operating system's answers, letter
  case and printability tables beyond Latin-1, the template library (whether a page lays out), the texts of loader messages.

  \<^bold>\<open>Not modelled.\<close> Log lines and hints on standard error (their decisions are values where they carry one), the markup of the templates and
  the static files, how the listeners close (the appliance lets every part stop, and the store close, at any time), and the
  fakes of the end-to-end tests.
\<close>

end
